(* ===== verification/Prelude.thy ===== *)
theory Prelude
  imports Main "HOL-Library.Word"
begin

text \<open>
  Shared vocabulary of the development.

  \<^item> Programs with state and exceptions: a service function of the code base is a
    \<open>('e, 's, 'a) prog\<close>, a function from the state to either an exception or a
    result, together with the state at that moment. The state is kept on the exception
    path too, because whether it survives is decided by the transaction around the
    call (see \<open>Session.thy\<close>), not by the call.
  \<^item> Tables: a table is the list of its rows in insertion order; the operations on
    it are the select, insert, update and delete statements the repositories issue.
  \<^item> Python strings, restricted to code points below 256 (Isabelle's \<open>char\<close>):
    \<open>str.lower\<close>, \<open>str.strip\<close>, \<open>str.isspace\<close> as Python defines them there.
  \<^item> Instants are microseconds since the Unix epoch, as \<open>int\<close>; a
    \<open>timedelta\<close> is an \<open>int\<close> number of microseconds.
\<close>

named_theorems run_simps \<open>execution rules of the program combinators\<close>
named_theorems frame_intros \<open>composition rules for relations between initial and final state\<close>

section \<open>Programs\<close>

type_synonym ('e, 's, 'a) prog = "'s \<Rightarrow> ('e + 'a) \<times> 's"

type_synonym uuid = "128 word"

definition ret :: "'a \<Rightarrow> ('e, 's, 'a) prog" where
  "ret x = (\<lambda>s. (Inr x, s))"

definition raise :: "'e \<Rightarrow> ('e, 's, 'a) prog" where
  "raise e = (\<lambda>s. (Inl e, s))"

definition bind :: "('e, 's, 'a) prog \<Rightarrow> ('a \<Rightarrow> ('e, 's, 'b) prog) \<Rightarrow> ('e, 's, 'b) prog" where
  "bind m f = (\<lambda>s. case m s of (r, s') \<Rightarrow> (case r of Inl e \<Rightarrow> (Inl e, s') | Inr x \<Rightarrow> f x s'))"

definition andthen :: "('e, 's, 'a) prog \<Rightarrow> ('e, 's, 'b) prog \<Rightarrow> ('e, 's, 'b) prog" where
  "andthen m k = bind m (\<lambda>_. k)"

definition reads :: "('s \<Rightarrow> 'a) \<Rightarrow> ('e, 's, 'a) prog" where
  "reads f = (\<lambda>s. (Inr (f s), s))"

definition liftE :: "('s \<Rightarrow> 'e + 'a) \<Rightarrow> ('e, 's, 'a) prog" where
  "liftE f = (\<lambda>s. (f s, s))"

definition modify :: "('s \<Rightarrow> 's) \<Rightarrow> ('e, 's, unit) prog" where
  "modify f = (\<lambda>s. (Inr (), f s))"

definition raise_if :: "bool \<Rightarrow> 'e \<Rightarrow> ('e, 's, unit) prog" where
  "raise_if b e = (if b then raise e else ret ())"

definition try_except ::
  "('e, 's, 'a) prog \<Rightarrow> ('e \<Rightarrow> ('e, 's, 'a) prog) \<Rightarrow> ('e, 's, 'a) prog" where
  "try_except m h = (\<lambda>s. case m s of (r, s') \<Rightarrow> (case r of Inl e \<Rightarrow> h e s' | Inr x \<Rightarrow> (Inr x, s')))"

fun for_each :: "'a list \<Rightarrow> ('a \<Rightarrow> ('e, 's, unit) prog) \<Rightarrow> ('e, 's, unit) prog" where
  "for_each [] body = ret ()"
| "for_each (x # xs) body = bind (body x) (\<lambda>_. for_each xs body)"

section \<open>Result rows of a query\<close>

text \<open>\<open>Result.scalar_one_or_none()\<close>: no row is \<open>None\<close>, one row is that row, more than
  one raises \<open>MultipleResultsFound\<close>, here the outer \<open>None\<close>.\<close>

definition scalar_one_or_none :: "'r list \<Rightarrow> 'r option option" where
  "scalar_one_or_none rows =
     (case rows of [] \<Rightarrow> Some None | [r] \<Rightarrow> Some (Some r) | _ # _ # _ \<Rightarrow> None)"

text \<open>\<open>UPDATE ... WHERE\<close> and \<open>DELETE ... WHERE\<close> on a table.\<close>

definition update_where :: "('r \<Rightarrow> bool) \<Rightarrow> ('r \<Rightarrow> 'r) \<Rightarrow> 'r list \<Rightarrow> 'r list" where
  "update_where P f rows = map (\<lambda>r. if P r then f r else r) rows"

definition delete_where :: "('r \<Rightarrow> bool) \<Rightarrow> 'r list \<Rightarrow> 'r list" where
  "delete_where P rows = filter (\<lambda>r. \<not> P r) rows"

text \<open>Dictionaries whose insertion order matters are association lists: \<open>dict_set\<close> is
  \<open>d[k] = v\<close> (an existing key keeps its place), \<open>map_of\<close> is \<open>d.get(k)\<close>.\<close>

fun dict_set :: "'k \<Rightarrow> 'v \<Rightarrow> ('k \<times> 'v) list \<Rightarrow> ('k \<times> 'v) list" where
  "dict_set k v [] = [(k, v)]"
| "dict_set k v ((k', v') # d) = (if k = k' then (k, v) # d else (k', v') # dict_set k v d)"

section \<open>Python strings\<close>

definition py_isspace :: "char \<Rightarrow> bool" where
  "py_isspace c = (let n = (of_char c :: nat) in
     (9 \<le> n \<and> n \<le> 13) \<or> (28 \<le> n \<and> n \<le> 32) \<or> n = 133 \<or> n = 160)"

definition py_lower_char :: "char \<Rightarrow> char" where
  "py_lower_char c = (let n = (of_char c :: nat) in
     if (65 \<le> n \<and> n \<le> 90) \<or> (192 \<le> n \<and> n \<le> 222 \<and> n \<noteq> 215) then char_of (n + 32) else c)"

definition py_lower :: "string \<Rightarrow> string" where
  "py_lower s = map py_lower_char s"

definition py_strip :: "string \<Rightarrow> string" where
  "py_strip s = rev (dropWhile py_isspace (rev (dropWhile py_isspace s)))"

definition py_startswith :: "string \<Rightarrow> string \<Rightarrow> bool" where
  "py_startswith s p = (take (length p) s = p)"

fun py_join :: "string \<Rightarrow> string list \<Rightarrow> string" where
  "py_join sep [] = []"
| "py_join sep [x] = x"
| "py_join sep (x # y # xs) = x @ sep @ py_join sep (y # xs)"

text \<open>\<open>uuid.hex\<close> (32 digits) and \<open>str(uuid)\<close> (8-4-4-4-12).\<close>

definition hex_digit :: "int \<Rightarrow> char" where
  "hex_digit n = (if n < 10 then char_of (48 + n) else char_of (87 + n))"

definition uuid_hex :: "uuid \<Rightarrow> string" where
  "uuid_hex u = map (\<lambda>i. hex_digit (uint u div 16 ^ (31 - i) mod 16)) [0..<32]"

definition uuid_str :: "uuid \<Rightarrow> string" where
  "uuid_str u = (let h = uuid_hex u in
     take 8 h @ ''-'' @ take 4 (drop 8 h) @ ''-'' @ take 4 (drop 12 h) @ ''-'' @ take 4 (drop 16 h) @ ''-'' @ drop 20 h)"

text \<open>Python's slice \<open>xs[-n:]\<close> for \<open>n > 0\<close>.\<close>

definition take_last :: "nat \<Rightarrow> 'a list \<Rightarrow> 'a list" where
  "take_last n xs = drop (length xs - n) xs"

section \<open>Time\<close>

definition us_per_second :: int where "us_per_second = 1000000"

definition seconds :: "int \<Rightarrow> int" where "seconds n = n * us_per_second"
definition minutes :: "int \<Rightarrow> int" where "minutes n = n * 60 * us_per_second"
definition hours :: "int \<Rightarrow> int" where "hours n = n * 3600 * us_per_second"
definition days :: "int \<Rightarrow> int" where "days n = n * 86400 * us_per_second"

lemmas time_defs = us_per_second_def seconds_def minutes_def hours_def days_def

section \<open>Execution rules\<close>

lemma ret_run [run_simps]: "ret x s = (Inr x, s)"
  by (simp add: ret_def)

lemma raise_run [run_simps]: "raise e s = (Inl e, s)"
  by (simp add: raise_def)

lemma bind_run: "bind m f s = (case m s of (r, s') \<Rightarrow> (case r of Inl e \<Rightarrow> (Inl e, s') | Inr x \<Rightarrow> f x s'))"
  by (simp add: bind_def)

lemma bind_Inr [run_simps]: "m s = (Inr x, s') \<Longrightarrow> bind m f s = f x s'"
  by (simp add: bind_def)

lemma bind_Inl [run_simps]: "m s = (Inl e, s') \<Longrightarrow> bind m f s = (Inl e, s')"
  by (simp add: bind_def)

lemma bind_ret [run_simps]: "bind (ret x) f s = f x s"
  by (simp add: bind_def ret_def)

lemma bind_raise [run_simps]: "bind (raise e) f s = (Inl e, s)"
  by (simp add: bind_def raise_def)

lemma bind_reads [run_simps]: "bind (reads g) f s = f (g s) s"
  by (simp add: bind_def reads_def)

lemma bind_modify [run_simps]: "bind (modify g) f s = f () (g s)"
  by (simp add: bind_def modify_def)

lemma bind_raise_if [run_simps]:
  "bind (raise_if b e) f s = (if b then (Inl e, s) else f () s)"
  by (simp add: bind_def raise_if_def raise_def ret_def)

lemma bind_liftE [run_simps]:
  "bind (liftE g) f s = (case g s of Inl e \<Rightarrow> (Inl e, s) | Inr x \<Rightarrow> f x s)"
  by (simp add: bind_def liftE_def split: sum.splits)

lemma andthen_run [run_simps]: "andthen m k s = bind m (\<lambda>_. k) s"
  by (simp add: andthen_def)

lemma reads_run [run_simps]: "reads f s = (Inr (f s), s)"
  by (simp add: reads_def)

lemma modify_run [run_simps]: "modify f s = (Inr (), f s)"
  by (simp add: modify_def)

lemma liftE_run [run_simps]: "liftE f s = (f s, s)"
  by (simp add: liftE_def)

lemma raise_if_run [run_simps]: "raise_if b e s = (if b then (Inl e, s) else (Inr (), s))"
  by (simp add: raise_if_def raise_def ret_def)

lemma bind_assoc [run_simps]: "bind (bind m f) g s = bind m (\<lambda>x. bind (f x) g) s"
  by (simp add: bind_def split: prod.splits sum.splits)

lemma bind_if [run_simps]: "bind (if b then m else k) f s = (if b then bind m f s else bind k f s)"
  by simp

lemma bind_InrE:
  assumes "bind m f s = (Inr y, s')"
  obtains x s'' where "m s = (Inr x, s'')" and "f x s'' = (Inr y, s')"
  using assms by (auto simp: bind_def split: prod.splits sum.splits)

lemma try_except_Inr [run_simps]: "m s = (Inr x, s') \<Longrightarrow> try_except m h s = (Inr x, s')"
  by (simp add: try_except_def)

lemma try_except_Inl [run_simps]: "m s = (Inl e, s') \<Longrightarrow> try_except m h s = h e s'"
  by (simp add: try_except_def)

text \<open>From an evaluated run to the statement that it returned.\<close>

lemma returned: "\<not> isl (fst p) \<and> Q (projr (fst p)) \<Longrightarrow> \<exists>x s'. p = (Inr x, s') \<and> Q x"
  by (cases p; cases "fst p") auto

lemma returned_value: "\<not> isl r \<and> Q (projr r) \<Longrightarrow> \<exists>x. r = Inr x \<and> Q x"
  by (cases r) auto

lemma raised_value: "isl r \<and> projl r = e \<Longrightarrow> r = Inl e"
  by (cases r) auto

section \<open>Relations between the initial and the final state of a run\<close>

text \<open>
  \<open>ensures R m\<close>: whenever \<open>m\<close> returns a result, the state it started from and the state
  it ends in are related by \<open>R\<close>. For a reflexive and transitive \<open>R\<close> (an invariant kept, a
  set of rows left alone) the property composes along the program, so a service function
  inherits it from the statements it issues.
\<close>

definition ensures :: "('s \<Rightarrow> 's \<Rightarrow> bool) \<Rightarrow> ('e, 's, 'a) prog \<Rightarrow> bool" where
  "ensures R m \<longleftrightarrow> (\<forall>s x s'. m s = (Inr x, s') \<longrightarrow> R s s')"

lemma ensuresI: "(\<And>s x s'. m s = (Inr x, s') \<Longrightarrow> R s s') \<Longrightarrow> ensures R m"
  by (auto simp: ensures_def)

lemma ensuresD: "ensures R m \<Longrightarrow> m s = (Inr x, s') \<Longrightarrow> R s s'"
  by (auto simp: ensures_def)

lemma ensures_raise [frame_intros]: "ensures R (raise e)"
  by (simp add: ensures_def raise_def)

text \<open>Programs that only read, and \<open>ensures\<close> from states with a known property: after a
  read-only prefix the state is still the initial one, so what the prefix returned is known to
  hold there.\<close>

definition readonly :: "('e, 's, 'a) prog \<Rightarrow> bool" where
  "readonly m \<longleftrightarrow> (\<forall>s. snd (m s) = s)"

definition ensures_on :: "('s \<Rightarrow> bool) \<Rightarrow> ('s \<Rightarrow> 's \<Rightarrow> bool) \<Rightarrow> ('e, 's, 'a) prog \<Rightarrow> bool" where
  "ensures_on I R m \<longleftrightarrow> (\<forall>s x s'. I s \<longrightarrow> m s = (Inr x, s') \<longrightarrow> R s s')"

lemma ensures_onI: "(\<And>s x s'. I s \<Longrightarrow> m s = (Inr x, s') \<Longrightarrow> R s s') \<Longrightarrow> ensures_on I R m"
  by (auto simp: ensures_on_def)

lemma ensures_onD: "ensures_on I R m \<Longrightarrow> I s \<Longrightarrow> m s = (Inr x, s') \<Longrightarrow> R s s'"
  by (auto simp: ensures_on_def)

lemma ensures_ensures_on: "ensures R m \<Longrightarrow> ensures_on I R m"
  by (auto simp: ensures_def ensures_on_def)

lemma ensures_on_ensures: "ensures_on (\<lambda>_. True) R m \<Longrightarrow> ensures R m"
  by (auto simp: ensures_def ensures_on_def)

lemma ensures_on_weaken: "ensures_on J R m \<Longrightarrow> (\<And>s. I s \<Longrightarrow> J s) \<Longrightarrow> ensures_on I R m"
  by (auto simp: ensures_on_def)

lemma readonlyD: "readonly m \<Longrightarrow> m s = (r, s') \<Longrightarrow> s' = s"
  by (metis readonly_def snd_conv)

lemma readonly_basic:
  "readonly (ret x)" "readonly (raise e)" "readonly (reads f)" "readonly (liftE g)" "readonly (raise_if b e)"
  by (simp_all add: readonly_def ret_def raise_def reads_def liftE_def raise_if_def)

lemma readonly_bind: "readonly m \<Longrightarrow> (\<And>x. readonly (f x)) \<Longrightarrow> readonly (bind m f)"
  by (auto simp: readonly_def bind_def split: prod.splits sum.splits) (metis snd_conv)+

lemma readonly_andthen: "readonly m \<Longrightarrow> readonly k \<Longrightarrow> readonly (andthen m k)"
  by (simp add: andthen_def readonly_bind)

lemma readonly_if: "(b \<Longrightarrow> readonly m) \<Longrightarrow> (\<not> b \<Longrightarrow> readonly k) \<Longrightarrow> readonly (if b then m else k)"
  by simp

lemma readonly_option:
  "(x = None \<Longrightarrow> readonly m) \<Longrightarrow> (\<And>y. x = Some y \<Longrightarrow> readonly (f y)) \<Longrightarrow>
     readonly (case x of None \<Rightarrow> m | Some y \<Rightarrow> f y)"
  by (cases x) simp_all

lemma readonly_sum:
  "(\<And>y. x = Inl y \<Longrightarrow> readonly (g y)) \<Longrightarrow> (\<And>y. x = Inr y \<Longrightarrow> readonly (f y)) \<Longrightarrow>
     readonly (case x of Inl y \<Rightarrow> g y | Inr y \<Rightarrow> f y)"
  by (cases x) simp_all

lemmas readonly_rules =
  readonly_basic readonly_bind readonly_andthen readonly_if readonly_option readonly_sum

text \<open>Taking a successful run apart.\<close>

lemma andthen_raise_if_InrD: "andthen (raise_if b e) k s = (Inr x, s') \<Longrightarrow> \<not> b \<and> k s = (Inr x, s')"
  by (simp add: andthen_run bind_raise_if split: if_splits)

lemma bind_reads_InrD: "bind (reads g) f s = (Inr x, s') \<Longrightarrow> f (g s) s = (Inr x, s')"
  by (simp add: bind_reads)

lemma bind_readonly_InrE:
  assumes "bind m f s = (Inr y, s')" and "readonly m"
  obtains x where "m s = (Inr x, s)" and "f x s = (Inr y, s')"
proof -
  from assms(1) obtain x t where m: "m s = (Inr x, t)" and f: "f x t = (Inr y, s')"
    by (rule bind_InrE)
  from readonlyD [OF assms(2) m] have "t = s" .
  with m f show ?thesis using that by blast
qed

lemma andthen_InrE:
  assumes "andthen m k s = (Inr y, s')"
  obtains x t where "m s = (Inr x, t)" and "k t = (Inr y, s')"
  using assms by (auto simp: andthen_def elim: bind_InrE)

lemma ensures_on_bind_readonly:
  assumes "readonly m" and "\<And>x. ensures_on (\<lambda>s. I s \<and> m s = (Inr x, s)) R (f x)"
  shows "ensures_on I R (bind m f)"
proof (rule ensures_onI)
  fix s y s' assume I: "I s" and "bind m f s = (Inr y, s')"
  then obtain x t where m: "m s = (Inr x, t)" and f: "f x t = (Inr y, s')" by (elim bind_InrE)
  from readonlyD [OF assms(1) m] have "t = s" .
  with m f I show "R s s'" using ensures_onD [OF assms(2) [of x]] by blast
qed

text \<open>\<open>always R m\<close> is \<open>ensures R m\<close> for every outcome, exceptions included.\<close>

definition always :: "('s \<Rightarrow> 's \<Rightarrow> bool) \<Rightarrow> ('e, 's, 'a) prog \<Rightarrow> bool" where
  "always R m \<longleftrightarrow> (\<forall>s. R s (snd (m s)))"

lemma alwaysD: "always R m \<Longrightarrow> m s = (r, s') \<Longrightarrow> R s s'"
  by (metis always_def snd_conv)

lemma always_ensures: "always R m \<Longrightarrow> ensures R m"
  by (auto simp: ensures_def dest: alwaysD)

locale frame_relation =
  fixes R :: "'s \<Rightarrow> 's \<Rightarrow> bool"
  assumes refl: "R s s"
    and trans: "R s t \<Longrightarrow> R t u \<Longrightarrow> R s u"
begin

lemma ensures_ret: "ensures R (ret x)"
  by (simp add: ensures_def ret_def refl)

lemma ensures_reads: "ensures R (reads f)"
  by (simp add: ensures_def reads_def refl)

lemma ensures_liftE: "ensures R (liftE f)"
  by (simp add: ensures_def liftE_def refl)

lemma ensures_raise_if: "ensures R (raise_if b e)"
  by (simp add: ensures_def raise_if_def raise_def ret_def refl)

lemma ensures_bind:
  assumes "ensures R m" and "\<And>x. ensures R (f x)"
  shows "ensures R (bind m f)"
proof (rule ensuresI)
  fix s y s'
  assume "bind m f s = (Inr y, s')"
  then obtain x t where "m s = (Inr x, t)" and "f x t = (Inr y, s')"
    by (rule bind_InrE)
  with assms show "R s s'"
    by (blast intro: trans dest: ensuresD)
qed

lemma ensures_on_bind:
  assumes "ensures_on I R m" and "\<And>x. ensures R (f x)"
  shows "ensures_on I R (bind m f)"
proof (rule ensures_onI)
  fix s y s' assume "I s" and "bind m f s = (Inr y, s')"
  with assms show "R s s'"
    by (elim bind_InrE) (blast intro: trans dest: ensuresD ensures_onD)
qed

lemma ensures_readonly: "readonly m \<Longrightarrow> ensures R m"
  by (auto simp: ensures_def refl dest: readonlyD)

lemma ensures_andthen: "ensures R m \<Longrightarrow> ensures R k \<Longrightarrow> ensures R (andthen m k)"
  by (simp add: andthen_def ensures_bind)

lemma ensures_if: "(b \<Longrightarrow> ensures R m) \<Longrightarrow> (\<not> b \<Longrightarrow> ensures R k) \<Longrightarrow> ensures R (if b then m else k)"
  by simp

lemma ensures_option:
  "(x = None \<Longrightarrow> ensures R m) \<Longrightarrow> (\<And>y. x = Some y \<Longrightarrow> ensures R (f y)) \<Longrightarrow>
     ensures R (case x of None \<Rightarrow> m | Some y \<Rightarrow> f y)"
  by (cases x) simp_all

lemma ensures_for_each: "(\<And>x. x \<in> set xs \<Longrightarrow> ensures R (body x)) \<Longrightarrow> ensures R (for_each xs body)"
  by (induction xs) (auto intro: ensures_bind ensures_ret)

lemma ensures_try_except:
  assumes "ensures R m" and "\<And>s e s'. m s = (Inl e, s') \<Longrightarrow> s' = s" and "\<And>e. ensures R (h e)"
  shows "ensures R (try_except m h)"
  using assms by (auto simp: ensures_def try_except_def split: prod.splits sum.splits) blast+

lemma always_readonly: "readonly m \<Longrightarrow> always R m"
  by (simp add: always_def readonly_def refl)

lemma always_bind:
  assumes "always R m" and "\<And>x. always R (f x)"
  shows "always R (bind m f)"
proof -
  have "R s (snd (bind m f s))" for s
  proof (cases "m s")
    case (Pair r t)
    with assms(1) have "R s t" by (blast dest: alwaysD)
    moreover have "R t (snd (f x t))" for x using assms(2) by (simp add: always_def)
    ultimately show ?thesis using Pair by (cases r) (auto simp: bind_def intro: trans)
  qed
  then show ?thesis by (simp add: always_def)
qed

lemma always_andthen: "always R m \<Longrightarrow> always R k \<Longrightarrow> always R (andthen m k)"
  by (simp add: andthen_def always_bind)

lemma always_if: "(b \<Longrightarrow> always R m) \<Longrightarrow> (\<not> b \<Longrightarrow> always R k) \<Longrightarrow> always R (if b then m else k)"
  by simp

lemma always_option:
  "(x = None \<Longrightarrow> always R m) \<Longrightarrow> (\<And>y. x = Some y \<Longrightarrow> always R (f y)) \<Longrightarrow>
     always R (case x of None \<Rightarrow> m | Some y \<Rightarrow> f y)"
  by (cases x) simp_all

lemma always_for_each: "(\<And>x. x \<in> set xs \<Longrightarrow> always R (body x)) \<Longrightarrow> always R (for_each xs body)"
  by (induction xs) (auto intro: always_bind always_readonly readonly_basic)

lemma always_try_except:
  assumes "always R m" and "\<And>e. always R (h e)"
  shows "always R (try_except m h)"
proof -
  have "R s (snd (try_except m h s))" for s
  proof (cases "m s")
    case (Pair r t)
    with assms(1) have "R s t" by (blast dest: alwaysD)
    moreover have "R t (snd (h e t))" for e using assms(2) by (simp add: always_def)
    ultimately show ?thesis using Pair by (cases r) (auto simp: try_except_def intro: trans)
  qed
  then show ?thesis by (simp add: always_def)
qed

lemmas always_rules =
  always_bind always_andthen always_if always_option always_for_each always_try_except

lemmas ensures_rules =
  ensures_ret ensures_reads ensures_liftE ensures_raise_if ensures_raise
  ensures_bind ensures_andthen ensures_if ensures_option ensures_for_each

end

section \<open>Lemmas on tables, dictionaries and strings\<close>

lemma set_update_where: "set (update_where P f rows) = (\<lambda>r. if P r then f r else r) ` set rows"
  by (simp add: update_where_def)

lemma length_update_where [simp]: "length (update_where P f rows) = length rows"
  by (simp add: update_where_def)

lemma map_update_where:
  "(\<And>r. P r \<Longrightarrow> g (f r) = g r) \<Longrightarrow> map g (update_where P f rows) = map g rows"
  by (simp add: update_where_def)

lemma filter_update_where:
  assumes "\<And>r. r \<in> set rows \<Longrightarrow> P r \<Longrightarrow> \<not> Q r" and "\<And>r. r \<in> set rows \<Longrightarrow> P r \<Longrightarrow> \<not> Q (f r)"
  shows "filter Q (update_where P f rows) = filter Q rows"
  using assms by (induction rows) (auto simp: update_where_def)

lemma update_where_id: "(\<And>r. r \<in> set rows \<Longrightarrow> P r \<Longrightarrow> f r = r) \<Longrightarrow> update_where P f rows = rows"
  by (induction rows) (auto simp: update_where_def)

lemma map_of_dict_set: "map_of (dict_set k v d) = (map_of d)(k \<mapsto> v)"
  by (induction k v d rule: dict_set.induct) (auto simp: fun_eq_iff)

lemma keys_dict_set: "fst ` set (dict_set k v d) = insert k (fst ` set d)"
  by (induction k v d rule: dict_set.induct) auto

lemma distinct_dict_set: "distinct (map fst d) \<Longrightarrow> distinct (map fst (dict_set k v d))"
proof (induction k v d rule: dict_set.induct)
  case (2 k v k' v' d)
  then show ?case using keys_dict_set [of k v d] by auto
qed simp

lemma distinct_map_inj_filter:
  "distinct (map f xs) \<Longrightarrow> x \<in> set xs \<Longrightarrow> filter (\<lambda>y. f y = f x) xs = [x]"
proof (induction xs)
  case (Cons a xs)
  show ?case
  proof (cases "a = x")
    case True
    with Cons.prems have "\<And>y. y \<in> set xs \<Longrightarrow> f y \<noteq> f x"
      by (metis distinct.simps(2) image_eqI list.set_map list.simps(9))
    with True show ?thesis by (simp add: filter_empty_conv)
  next
    case False
    with Cons have "f a \<noteq> f x" and "filter (\<lambda>y. f y = f x) xs = [x]" by auto
    then show ?thesis by simp
  qed
qed simp

lemma distinct_map_eq: "distinct (map f xs) \<Longrightarrow> x \<in> set xs \<Longrightarrow> y \<in> set xs \<Longrightarrow> f x = f y \<Longrightarrow> x = y"
  by (metis distinct_map inj_onD)

lemma scalar_one_or_none_simps [simp]:
  "scalar_one_or_none [] = Some None" "scalar_one_or_none [r] = Some (Some r)"
  by (simp_all add: scalar_one_or_none_def)

lemma scalar_one_or_none_Some_None [simp]: "scalar_one_or_none rows = Some None \<longleftrightarrow> rows = []"
  by (auto simp: scalar_one_or_none_def split: list.splits)

lemma scalar_one_or_none_Some_Some [simp]: "scalar_one_or_none rows = Some (Some r) \<longleftrightarrow> rows = [r]"
  by (auto simp: scalar_one_or_none_def split: list.splits)

lemma length_take_last: "length (take_last n xs) \<le> n"
  by (simp add: take_last_def)

lemma take_last_all: "length xs \<le> n \<Longrightarrow> take_last n xs = xs"
  by (simp add: take_last_def)

lemma set_take_last: "set (take_last n xs) \<subseteq> set xs"
  by (simp add: take_last_def set_drop_subset)

lemma in_take_last_append: "0 < n \<Longrightarrow> x \<in> set (take_last n (xs @ [x]))"
  by (cases n) (auto simp: take_last_def)

end
