(* ===== verification/Domain.thy ===== *)
theory Domain
  imports Prelude Complex_Main
begin

text \<open>
  The data of the application: the enumerations of \<open>src/app/models/enums.py\<close>, one record
  per ORM class of \<open>src/app/models/\<close> with its columns in the order the class has them, the
  database as one list of rows per table, the constraints the schema declares (primary keys,
  unique indexes, \<open>CHECK\<close> constraints and foreign keys), and the exceptions the code raises.

  Column conventions: a nullable column is an \<open>option\<close>; a timestamp is an \<open>int\<close> number of
  microseconds since the epoch and a \<open>Date\<close> an \<open>int\<close> number of days since 1970-01-01; a
  \<open>JSONB\<close> column is a \<open>json\<close> value; a floating point column is a \<open>real\<close>. Server defaults
  are applied by whoever constructs the row.
\<close>

section \<open>Enumerations\<close>

datatype UserRole = TENANT | OWNER | AGENT | ADMIN

datatype UserStatus = USER_PENDING | USER_ACTIVE | USER_DISABLED

datatype PropertyType = APARTMENT | HOUSE | COMMERCIAL | OTHER

datatype ContractStatus = CONTRACT_ACTIVE | CONTRACT_EXPIRED | CONTRACT_TERMINATED

datatype TicketChannel = WEB | EMAIL | WHATSAPP

datatype TicketStatus = OPEN | IN_PROGRESS | WAITING_ON_CUSTOMER | RESOLVED | CLOSED | ESCALATED

datatype ChatSessionStatus = CHAT_ACTIVE | CHAT_ESCALATED | CHAT_CLOSED

datatype ChatMessageRole = CHAT_USER | CHAT_ASSISTANT | CHAT_TOOL

datatype AuthorType = AUTHOR_USER | AUTHOR_AGENT | AUTHOR_BOT

datatype ClassificationStatus = PENDING | CLASSIFIED

datatype SlaEventType = SLA_EVENT_WARNING | SLA_EVENT_BREACHED | SLA_EVENT_RESOLVED

datatype NotificationKind = SLA_WARNING | SLA_BREACHED

section \<open>JSON values\<close>

text \<open>An object keeps its members in insertion order.\<close>

datatype json =
    JNull
  | JBool bool
  | JInt int
  | JFloat real
  | JStr string
  | JArr "json list"
  | JObj "(string \<times> json) list"

section \<open>Rows\<close>

record organization =
  o_id :: uuid
  o_created_at :: int
  o_name :: string
  o_chat_widget_key :: string
  o_whatsapp_phone_number_id :: "string option"
  o_whatsapp_access_token_encrypted :: "string option"
  o_support_email_address :: "string option"
  o_timezone :: string
  o_business_hours :: json

record user =
  u_id :: uuid
  u_created_at :: int
  u_organization_id :: "uuid option"
  u_name :: string
  u_email :: string
  u_role :: UserRole
  u_password_hash :: "string option"
  u_status :: UserStatus
  u_phone_number :: "string option"
  u_auto_provisioned_channel :: "TicketChannel option"

record property =
  p_id :: uuid
  p_created_at :: int
  p_organization_id :: uuid
  p_owner_id :: uuid
  p_address :: string
  p_type :: PropertyType
  p_deleted_at :: "int option"

record contract =
  c_id :: uuid
  c_created_at :: int
  c_property_id :: uuid
  c_tenant_id :: uuid
  c_start_date :: int
  c_end_date :: int
  c_status :: ContractStatus

record category =
  cat_id :: uuid
  cat_created_at :: int
  cat_organization_id :: uuid
  cat_name :: string
  cat_description :: "string option"
  cat_active :: bool

record urgency_level =
  ul_id :: uuid
  ul_created_at :: int
  ul_organization_id :: uuid
  ul_name :: string
  ul_description :: "string option"
  ul_sla_hours :: int
  ul_sort_order :: int
  ul_active :: bool
  ul_respects_business_hours :: bool

record ticket =
  t_id :: uuid
  t_created_at :: int
  t_organization_id :: uuid
  t_user_id :: uuid
  t_property_id :: "uuid option"
  t_contract_id :: "uuid option"
  t_title :: string
  t_description :: "string option"
  t_category_id :: "uuid option"
  t_urgency_id :: "uuid option"
  t_channel :: TicketChannel
  t_status :: TicketStatus
  t_classification_status :: ClassificationStatus
  t_agent_id :: "uuid option"
  t_sla_due_at :: "int option"
  t_closed_at :: "int option"
  t_channel_metadata :: "json option"

record message =
  m_id :: uuid
  m_created_at :: int
  m_ticket_id :: uuid
  m_author_type :: AuthorType
  m_content :: string
  m_is_ai_suggestion :: bool
  m_based_on_suggestion_id :: "uuid option"

record classification =
  cl_id :: uuid
  cl_created_at :: int
  cl_ticket_id :: uuid
  cl_predicted_category :: "string option"
  cl_confidence :: "real option"
  cl_human_corrected :: bool
  cl_model_used :: "string option"
  cl_predicted_urgency :: "string option"
  cl_urgency_confidence :: "real option"

record sla_event =
  se_id :: uuid
  se_organization_id :: uuid
  se_ticket_id :: uuid
  se_event :: SlaEventType
  se_occurred_at :: int
  se_sla_due_at :: "int option"

record notification =
  n_id :: uuid
  n_organization_id :: uuid
  n_user_id :: uuid
  n_ticket_id :: "uuid option"
  n_sla_event_id :: "uuid option"
  n_kind :: NotificationKind
  n_title :: string
  n_body :: "string option"
  n_sent_at :: int
  n_read_at :: "int option"

record refresh_token =
  rt_id :: uuid
  rt_created_at :: int
  rt_user_id :: uuid
  rt_token_hash :: string
  rt_family_id :: uuid
  rt_revoked_at :: "int option"
  rt_expires_at :: int

record invite_token =
  it_id :: uuid
  it_created_at :: int
  it_user_id :: uuid
  it_token_hash :: string
  it_expires_at :: int
  it_used_at :: "int option"
  it_revoked_at :: "int option"

record chat_session =
  cs_id :: uuid
  cs_created_at :: int
  cs_organization_id :: uuid
  cs_user_id :: "uuid option"
  cs_ticket_id :: "uuid option"
  cs_status :: ChatSessionStatus
  cs_low_confidence_streak :: int
  cs_last_activity_at :: int
  cs_channel_metadata :: "json option"
  cs_channel :: TicketChannel
  cs_escalated_at :: "int option"

record chat_message =
  cm_id :: uuid
  cm_created_at :: int
  cm_chat_session_id :: uuid
  cm_role :: ChatMessageRole
  cm_content :: string
  cm_tool_name :: "string option"
  cm_tool_call_id :: "string option"

record knowledge_base =
  kb_id :: uuid
  kb_created_at :: int
  kb_organization_id :: uuid
  kb_title :: string
  kb_content :: string
  kb_source_type :: "string option"
  kb_status :: string
  kb_embedding_error :: "string option"

record knowledge_chunk =
  kc_id :: uuid
  kc_created_at :: int
  kc_knowledge_base_id :: uuid
  kc_organization_id :: uuid
  kc_chunk_index :: int
  kc_content :: string
  kc_token_count :: int
  kc_embedding :: "real list"

record ticket_embedding =
  te_id :: uuid
  te_created_at :: int
  te_ticket_id :: uuid
  te_organization_id :: uuid
  te_summary :: string
  te_embedding :: "real list"
  te_model_used :: "string option"

record daily_metric =
  dm_id :: uuid
  dm_created_at :: int
  dm_organization_id :: uuid
  dm_metric_date :: int
  dm_metric_key :: string
  dm_metric_value :: real
  dm_updated_at :: int

section \<open>The database\<close>

record database =
  organizations :: "organization list"
  users :: "user list"
  properties :: "property list"
  contracts :: "contract list"
  categories :: "category list"
  urgency_levels :: "urgency_level list"
  tickets :: "ticket list"
  messages :: "message list"
  classifications :: "classification list"
  sla_events :: "sla_event list"
  notifications :: "notification list"
  refresh_tokens :: "refresh_token list"
  invite_tokens :: "invite_token list"
  chat_sessions :: "chat_session list"
  chat_messages :: "chat_message list"
  knowledge_bases :: "knowledge_base list"
  knowledge_chunks :: "knowledge_chunk list"
  ticket_embeddings :: "ticket_embedding list"
  daily_metrics :: "daily_metric list"

definition empty_database :: database where
  "empty_database = \<lparr> organizations = [], users = [], properties = [], contracts = [],
     categories = [], urgency_levels = [], tickets = [], messages = [], classifications = [],
     sla_events = [], notifications = [], refresh_tokens = [], invite_tokens = [],
     chat_sessions = [], chat_messages = [], knowledge_bases = [], knowledge_chunks = [],
     ticket_embeddings = [], daily_metrics = [] \<rparr>"

section \<open>Column constraints\<close>

text \<open>SQL's \<open>btrim(s)\<close> removes blanks (U+0020) only; \<open>lower\<close> is the lower-casing of the
  database, which agrees with Python's on the code points modelled here.\<close>

definition btrim :: "string \<Rightarrow> string" where
  "btrim s = rev (dropWhile (\<lambda>c. c = CHR 0x20) (rev (dropWhile (\<lambda>c. c = CHR 0x20) s)))"

definition not_blank :: "string \<Rightarrow> bool" where
  "not_blank s \<longleftrightarrow> btrim s \<noteq> []"

text \<open>\<open>^\+[1-9][0-9]{6,14}$\<close>, the pattern of \<open>ck_users_phone_number_e164\<close>.\<close>

definition is_digit :: "char \<Rightarrow> bool" where
  "is_digit c \<longleftrightarrow> c \<in> set ''0123456789''"

fun is_e164 :: "string \<Rightarrow> bool" where
  "is_e164 (p # d # ds) \<longleftrightarrow>
     p = CHR ''+'' \<and> d \<in> set ''123456789'' \<and> list_all is_digit ds \<and> 6 \<le> length ds \<and> length ds \<le> 14"
| "is_e164 _ \<longleftrightarrow> False"

definition organization_row_ok :: "organization \<Rightarrow> bool" where
  "organization_row_ok r \<longleftrightarrow>
     not_blank (o_name r) \<and>
     (o_whatsapp_phone_number_id r = None) = (o_whatsapp_access_token_encrypted r = None) \<and>
     not_blank (o_timezone r)"

definition user_row_ok :: "user \<Rightarrow> bool" where
  "user_row_ok r \<longleftrightarrow>
     (u_status r = USER_PENDING \<or> u_password_hash r \<noteq> None) \<and>
     (u_organization_id r \<noteq> None \<or> u_role r = ADMIN) \<and>
     (case u_phone_number r of None \<Rightarrow> True | Some p \<Rightarrow> is_e164 p)"

definition contract_row_ok :: "contract \<Rightarrow> bool" where
  "contract_row_ok r \<longleftrightarrow> c_start_date r \<le> c_end_date r"

definition urgency_row_ok :: "urgency_level \<Rightarrow> bool" where
  "urgency_row_ok r \<longleftrightarrow> 0 < ul_sla_hours r"

definition ticket_row_ok :: "ticket \<Rightarrow> bool" where
  "ticket_row_ok r \<longleftrightarrow>
     (t_status r = CLOSED) = (t_closed_at r \<noteq> None) \<and>
     not_blank (t_title r) \<and>
     (t_classification_status r \<noteq> CLASSIFIED \<or>
       t_category_id r \<noteq> None \<and> t_urgency_id r \<noteq> None \<and> t_sla_due_at r \<noteq> None)"

definition message_row_ok :: "message \<Rightarrow> bool" where
  "message_row_ok r \<longleftrightarrow> not_blank (m_content r) \<and> m_based_on_suggestion_id r \<noteq> Some (m_id r)"

definition unit_interval :: "real option \<Rightarrow> bool" where
  "unit_interval x \<longleftrightarrow> (case x of None \<Rightarrow> True | Some c \<Rightarrow> 0 \<le> c \<and> c \<le> 1)"

definition classification_row_ok :: "classification \<Rightarrow> bool" where
  "classification_row_ok r \<longleftrightarrow>
     unit_interval (cl_confidence r) \<and>
     cl_model_used r \<in> {None, Some ''sklearn_v1'', Some ''llm_fallback''} \<and>
     unit_interval (cl_urgency_confidence r)"

definition notification_row_ok :: "notification \<Rightarrow> bool" where
  "notification_row_ok r \<longleftrightarrow> not_blank (n_title r)"

definition chat_session_row_ok :: "chat_session \<Rightarrow> bool" where
  "chat_session_row_ok r \<longleftrightarrow> cs_ticket_id r = None \<or> cs_user_id r \<noteq> None"

definition chat_message_row_ok :: "chat_message \<Rightarrow> bool" where
  "chat_message_row_ok r \<longleftrightarrow>
     (cm_role r = CHAT_TOOL) = (cm_tool_name r \<noteq> None) \<and>
     (cm_role r = CHAT_ASSISTANT \<or> not_blank (cm_content r))"

definition knowledge_base_row_ok :: "knowledge_base \<Rightarrow> bool" where
  "knowledge_base_row_ok r \<longleftrightarrow>
     not_blank (kb_title r) \<and> not_blank (kb_content r) \<and>
     kb_status r \<in> {''pending'', ''processing'', ''ready'', ''failed''} \<and>
     (kb_status r \<noteq> ''failed'' \<or> kb_embedding_error r \<noteq> None)"

definition knowledge_chunk_row_ok :: "knowledge_chunk \<Rightarrow> bool" where
  "knowledge_chunk_row_ok r \<longleftrightarrow> not_blank (kc_content r) \<and> 0 < kc_token_count r"

definition ticket_embedding_row_ok :: "ticket_embedding \<Rightarrow> bool" where
  "ticket_embedding_row_ok r \<longleftrightarrow> not_blank (te_summary r)"

definition daily_metric_row_ok :: "daily_metric \<Rightarrow> bool" where
  "daily_metric_row_ok r \<longleftrightarrow> not_blank (dm_metric_key r)"

section \<open>Table constraints\<close>

text \<open>A unique index on \<open>key\<close> restricted to the rows where \<open>P\<close> holds, and a foreign key
  (\<open>None\<close> is SQL's \<open>NULL\<close>, which references nothing).\<close>

definition unique_on :: "('r \<Rightarrow> bool) \<Rightarrow> ('r \<Rightarrow> 'k) \<Rightarrow> 'r list \<Rightarrow> bool" where
  "unique_on P key rows \<longleftrightarrow> distinct (map key (filter P rows))"

definition fk_ok :: "('r \<Rightarrow> uuid option) \<Rightarrow> 'r list \<Rightarrow> uuid list \<Rightarrow> bool" where
  "fk_ok ref rows pks \<longleftrightarrow>
     list_all (\<lambda>r. case ref r of None \<Rightarrow> True | Some k \<Rightarrow> k \<in> set pks) rows"

abbreviation org_pks :: "database \<Rightarrow> uuid list" where "org_pks d \<equiv> map o_id (organizations d)"
abbreviation user_pks :: "database \<Rightarrow> uuid list" where "user_pks d \<equiv> map u_id (users d)"
abbreviation property_pks :: "database \<Rightarrow> uuid list" where "property_pks d \<equiv> map p_id (properties d)"
abbreviation contract_pks :: "database \<Rightarrow> uuid list" where "contract_pks d \<equiv> map c_id (contracts d)"
abbreviation category_pks :: "database \<Rightarrow> uuid list" where "category_pks d \<equiv> map cat_id (categories d)"
abbreviation urgency_pks :: "database \<Rightarrow> uuid list" where "urgency_pks d \<equiv> map ul_id (urgency_levels d)"
abbreviation ticket_pks :: "database \<Rightarrow> uuid list" where "ticket_pks d \<equiv> map t_id (tickets d)"

definition organizations_ok :: "database \<Rightarrow> bool" where
  "organizations_ok d \<longleftrightarrow>
     distinct (org_pks d) \<and> list_all organization_row_ok (organizations d) \<and>
     unique_on (\<lambda>_. True) (\<lambda>r. py_lower (btrim (o_name r))) (organizations d) \<and>
     unique_on (\<lambda>_. True) o_chat_widget_key (organizations d) \<and>
     unique_on (\<lambda>r. o_whatsapp_phone_number_id r \<noteq> None) o_whatsapp_phone_number_id (organizations d) \<and>
     unique_on (\<lambda>r. o_support_email_address r \<noteq> None)
       (\<lambda>r. map_option py_lower (o_support_email_address r)) (organizations d)"

definition users_ok :: "database \<Rightarrow> bool" where
  "users_ok d \<longleftrightarrow>
     distinct (user_pks d) \<and> list_all user_row_ok (users d) \<and>
     unique_on (\<lambda>_. True) (\<lambda>r. py_lower (u_email r)) (users d) \<and>
     unique_on (\<lambda>r. u_phone_number r \<noteq> None) u_phone_number (users d) \<and>
     fk_ok u_organization_id (users d) (org_pks d)"

definition properties_ok :: "database \<Rightarrow> bool" where
  "properties_ok d \<longleftrightarrow>
     distinct (property_pks d) \<and>
     fk_ok (\<lambda>r. Some (p_organization_id r)) (properties d) (org_pks d) \<and>
     fk_ok (\<lambda>r. Some (p_owner_id r)) (properties d) (user_pks d)"

definition contracts_ok :: "database \<Rightarrow> bool" where
  "contracts_ok d \<longleftrightarrow>
     distinct (contract_pks d) \<and> list_all contract_row_ok (contracts d) \<and>
     fk_ok (\<lambda>r. Some (c_property_id r)) (contracts d) (property_pks d) \<and>
     fk_ok (\<lambda>r. Some (c_tenant_id r)) (contracts d) (user_pks d)"

definition categories_ok :: "database \<Rightarrow> bool" where
  "categories_ok d \<longleftrightarrow>
     distinct (category_pks d) \<and>
     unique_on (\<lambda>_. True) (\<lambda>r. (cat_organization_id r, py_lower (btrim (cat_name r)))) (categories d) \<and>
     fk_ok (\<lambda>r. Some (cat_organization_id r)) (categories d) (org_pks d)"

definition urgency_levels_ok :: "database \<Rightarrow> bool" where
  "urgency_levels_ok d \<longleftrightarrow>
     distinct (urgency_pks d) \<and> list_all urgency_row_ok (urgency_levels d) \<and>
     unique_on (\<lambda>_. True) (\<lambda>r. (ul_organization_id r, py_lower (btrim (ul_name r)))) (urgency_levels d) \<and>
     fk_ok (\<lambda>r. Some (ul_organization_id r)) (urgency_levels d) (org_pks d)"

definition tickets_ok :: "database \<Rightarrow> bool" where
  "tickets_ok d \<longleftrightarrow>
     distinct (ticket_pks d) \<and> list_all ticket_row_ok (tickets d) \<and>
     fk_ok (\<lambda>r. Some (t_organization_id r)) (tickets d) (org_pks d) \<and>
     fk_ok (\<lambda>r. Some (t_user_id r)) (tickets d) (user_pks d) \<and>
     fk_ok t_property_id (tickets d) (property_pks d) \<and>
     fk_ok t_contract_id (tickets d) (contract_pks d) \<and>
     fk_ok t_category_id (tickets d) (category_pks d) \<and>
     fk_ok t_urgency_id (tickets d) (urgency_pks d) \<and>
     fk_ok t_agent_id (tickets d) (user_pks d)"

definition messages_ok :: "database \<Rightarrow> bool" where
  "messages_ok d \<longleftrightarrow>
     distinct (map m_id (messages d)) \<and> list_all message_row_ok (messages d) \<and>
     fk_ok (\<lambda>r. Some (m_ticket_id r)) (messages d) (ticket_pks d) \<and>
     fk_ok m_based_on_suggestion_id (messages d) (map m_id (messages d))"

definition classifications_ok :: "database \<Rightarrow> bool" where
  "classifications_ok d \<longleftrightarrow>
     distinct (map cl_id (classifications d)) \<and> list_all classification_row_ok (classifications d) \<and>
     unique_on (\<lambda>_. True) cl_ticket_id (classifications d) \<and>
     fk_ok (\<lambda>r. Some (cl_ticket_id r)) (classifications d) (ticket_pks d)"

text \<open>\<open>ux_sla_events_ticket_event_once\<close> leaves \<open>resolved\<close> events out.\<close>

definition once_event :: "SlaEventType \<Rightarrow> bool" where
  "once_event e \<longleftrightarrow> e = SLA_EVENT_WARNING \<or> e = SLA_EVENT_BREACHED"

definition sla_events_ok :: "database \<Rightarrow> bool" where
  "sla_events_ok d \<longleftrightarrow>
     distinct (map se_id (sla_events d)) \<and>
     unique_on (\<lambda>r. once_event (se_event r)) (\<lambda>r. (se_ticket_id r, se_event r)) (sla_events d) \<and>
     fk_ok (\<lambda>r. Some (se_organization_id r)) (sla_events d) (org_pks d) \<and>
     fk_ok (\<lambda>r. Some (se_ticket_id r)) (sla_events d) (ticket_pks d)"

definition notifications_ok :: "database \<Rightarrow> bool" where
  "notifications_ok d \<longleftrightarrow>
     distinct (map n_id (notifications d)) \<and> list_all notification_row_ok (notifications d) \<and>
     fk_ok (\<lambda>r. Some (n_organization_id r)) (notifications d) (org_pks d) \<and>
     fk_ok (\<lambda>r. Some (n_user_id r)) (notifications d) (user_pks d) \<and>
     fk_ok n_ticket_id (notifications d) (ticket_pks d) \<and>
     fk_ok n_sla_event_id (notifications d) (map se_id (sla_events d))"

definition refresh_tokens_ok :: "database \<Rightarrow> bool" where
  "refresh_tokens_ok d \<longleftrightarrow>
     distinct (map rt_id (refresh_tokens d)) \<and>
     unique_on (\<lambda>_. True) rt_token_hash (refresh_tokens d) \<and>
     fk_ok (\<lambda>r. Some (rt_user_id r)) (refresh_tokens d) (user_pks d)"

definition outstanding :: "invite_token \<Rightarrow> bool" where
  "outstanding r \<longleftrightarrow> it_used_at r = None \<and> it_revoked_at r = None"

definition invite_tokens_ok :: "database \<Rightarrow> bool" where
  "invite_tokens_ok d \<longleftrightarrow>
     distinct (map it_id (invite_tokens d)) \<and>
     unique_on (\<lambda>_. True) it_token_hash (invite_tokens d) \<and>
     unique_on outstanding it_user_id (invite_tokens d) \<and>
     fk_ok (\<lambda>r. Some (it_user_id r)) (invite_tokens d) (user_pks d)"

definition chat_sessions_ok :: "database \<Rightarrow> bool" where
  "chat_sessions_ok d \<longleftrightarrow>
     distinct (map cs_id (chat_sessions d)) \<and> list_all chat_session_row_ok (chat_sessions d) \<and>
     fk_ok (\<lambda>r. Some (cs_organization_id r)) (chat_sessions d) (org_pks d) \<and>
     fk_ok cs_user_id (chat_sessions d) (user_pks d) \<and>
     fk_ok cs_ticket_id (chat_sessions d) (ticket_pks d)"

definition chat_messages_ok :: "database \<Rightarrow> bool" where
  "chat_messages_ok d \<longleftrightarrow>
     distinct (map cm_id (chat_messages d)) \<and> list_all chat_message_row_ok (chat_messages d) \<and>
     fk_ok (\<lambda>r. Some (cm_chat_session_id r)) (chat_messages d) (map cs_id (chat_sessions d))"

definition knowledge_ok :: "database \<Rightarrow> bool" where
  "knowledge_ok d \<longleftrightarrow>
     distinct (map kb_id (knowledge_bases d)) \<and> list_all knowledge_base_row_ok (knowledge_bases d) \<and>
     fk_ok (\<lambda>r. Some (kb_organization_id r)) (knowledge_bases d) (org_pks d) \<and>
     distinct (map kc_id (knowledge_chunks d)) \<and> list_all knowledge_chunk_row_ok (knowledge_chunks d) \<and>
     unique_on (\<lambda>_. True) (\<lambda>r. (kc_knowledge_base_id r, kc_chunk_index r)) (knowledge_chunks d) \<and>
     fk_ok (\<lambda>r. Some (kc_knowledge_base_id r)) (knowledge_chunks d) (map kb_id (knowledge_bases d)) \<and>
     fk_ok (\<lambda>r. Some (kc_organization_id r)) (knowledge_chunks d) (org_pks d)"

definition ticket_embeddings_ok :: "database \<Rightarrow> bool" where
  "ticket_embeddings_ok d \<longleftrightarrow>
     distinct (map te_id (ticket_embeddings d)) \<and>
     list_all ticket_embedding_row_ok (ticket_embeddings d) \<and>
     unique_on (\<lambda>_. True) te_ticket_id (ticket_embeddings d) \<and>
     fk_ok (\<lambda>r. Some (te_ticket_id r)) (ticket_embeddings d) (ticket_pks d) \<and>
     fk_ok (\<lambda>r. Some (te_organization_id r)) (ticket_embeddings d) (org_pks d)"

definition daily_metrics_ok :: "database \<Rightarrow> bool" where
  "daily_metrics_ok d \<longleftrightarrow>
     distinct (map dm_id (daily_metrics d)) \<and> list_all daily_metric_row_ok (daily_metrics d) \<and>
     unique_on (\<lambda>_. True) (\<lambda>r. (dm_organization_id r, dm_metric_date r, dm_metric_key r)) (daily_metrics d) \<and>
     fk_ok (\<lambda>r. Some (dm_organization_id r)) (daily_metrics d) (org_pks d)"

text \<open>What the database accepts at a flush.\<close>

definition db_ok :: "database \<Rightarrow> bool" where
  "db_ok d \<longleftrightarrow>
     organizations_ok d \<and> users_ok d \<and> properties_ok d \<and> contracts_ok d \<and> categories_ok d \<and>
     urgency_levels_ok d \<and> tickets_ok d \<and> messages_ok d \<and> classifications_ok d \<and>
     sla_events_ok d \<and> notifications_ok d \<and> refresh_tokens_ok d \<and> invite_tokens_ok d \<and>
     chat_sessions_ok d \<and> chat_messages_ok d \<and> knowledge_ok d \<and> ticket_embeddings_ok d \<and>
     daily_metrics_ok d"

lemmas table_ok_defs =
  organizations_ok_def users_ok_def properties_ok_def contracts_ok_def categories_ok_def
  urgency_levels_ok_def tickets_ok_def messages_ok_def classifications_ok_def sla_events_ok_def
  notifications_ok_def refresh_tokens_ok_def invite_tokens_ok_def chat_sessions_ok_def
  chat_messages_ok_def knowledge_ok_def ticket_embeddings_ok_def daily_metrics_ok_def

lemmas row_ok_defs =
  organization_row_ok_def user_row_ok_def contract_row_ok_def urgency_row_ok_def
  ticket_row_ok_def message_row_ok_def classification_row_ok_def notification_row_ok_def
  chat_session_row_ok_def chat_message_row_ok_def knowledge_base_row_ok_def
  knowledge_chunk_row_ok_def ticket_embedding_row_ok_def daily_metric_row_ok_def

section \<open>Exceptions\<close>

text \<open>One constructor per exception class the modelled code raises (or lets through from the
  library it calls); \<open>Retry n\<close> is \<open>arq.Retry(defer=n)\<close>, and \<open>ProviderError b\<close> an exception of a
  client library, \<open>b\<close> when it is a network failure, a rate limit or a server error.\<close>

datatype error =
    NotFoundError string "uuid option"
  | SuperAdminCannotAccessOrgDataError uuid
  | ContractPropertyMismatchError
  | ContractNotActiveError
  | CategoryInactiveError
  | UrgencyInactiveError
  | InvalidAgentError
  | ForbiddenError
  | InvalidSuggestionReferenceError
  | InvalidTenantRoleError
  | InvalidOwnerRoleError
  | ConflictError
  | UserNotFoundError
  | AuthenticationError string
  | InviteAcceptError
  | InvalidAccessTokenError
  | InvalidChatSessionTokenError
  | InvalidWebhookSignatureError
  | SecretEncryptionUnavailableError
  | SecretDecryptionError
  | BusinessHoursExhaustedError
  | InvalidBusinessHoursError
  | ClassificationUnavailableError
  | ClassificationTransientError
  | CrossOrgSenderConflict
  | ChatRateLimitExceededError uuid int int
  | Retry nat
  | IntegrityError
  | MultipleResultsFound
  | ZoneInfoNotFoundError
  | TypeError
  | ValueError
  | StopIteration
  | KeyError
  | AttributeError
  | WhatsAppSendError int "int option"
  | RagEmbeddingDimensionError
  | PermanentEmbeddingError
  | PermanentSummaryError
  | NotImplementedError
  | DataError
  | ProviderError bool
  | HTTPException nat string

section \<open>Lemmas on constraints\<close>

lemma unique_on_append:
  "unique_on P key (rows @ [r]) \<longleftrightarrow>
     unique_on P key rows \<and> (P r \<longrightarrow> (\<forall>x\<in>set rows. P x \<longrightarrow> key x \<noteq> key r))"
  by (auto simp: unique_on_def) (metis (mono_tags, lifting) image_eqI mem_Collect_eq)

lemma unique_on_cong:
  "map key (filter P rows) = map key' (filter P' rows') \<Longrightarrow> unique_on P key rows = unique_on P' key' rows'"
  by (simp add: unique_on_def)

lemma unique_onD:
  assumes "unique_on P key rows" "x \<in> set rows" "y \<in> set rows" "P x" "P y" "key x = key y"
  shows "x = y"
  using assms by (auto simp: unique_on_def dest: distinct_map_eq)

lemma fk_ok_append [simp]:
  "fk_ok ref (rows @ [r]) pks \<longleftrightarrow>
     fk_ok ref rows pks \<and> (case ref r of None \<Rightarrow> True | Some k \<Rightarrow> k \<in> set pks)"
  by (simp add: fk_ok_def)

lemma fk_ok_mono: "fk_ok ref rows pks \<Longrightarrow> set pks \<subseteq> set pks' \<Longrightarrow> fk_ok ref rows pks'"
  by (auto simp: fk_ok_def list_all_iff split: option.splits)

lemma fk_ok_more [simp]: "fk_ok ref rows pks \<Longrightarrow> fk_ok ref rows (pks @ pks')"
  by (rule fk_ok_mono) auto

lemma fk_ok_update_where:
  assumes "fk_ok ref rows pks"
    and "\<And>r. r \<in> set rows \<Longrightarrow> P r \<Longrightarrow> ref (f r) = ref r \<or> (\<exists>k. ref (f r) = Some k \<and> k \<in> set pks) \<or> ref (f r) = None"
  shows "fk_ok ref (update_where P f rows) pks"
  using assms by (fastforce simp: fk_ok_def list_all_iff update_where_def split: option.splits)

lemma list_all_update_where:
  assumes "list_all Q rows" and "\<And>r. r \<in> set rows \<Longrightarrow> P r \<Longrightarrow> Q r \<Longrightarrow> Q (f r)"
  shows "list_all Q (update_where P f rows)"
  using assms by (auto simp: list_all_iff update_where_def)

lemma unique_on_update_where:
  assumes "unique_on Q key rows"
    and "\<And>r. r \<in> set rows \<Longrightarrow> P r \<Longrightarrow> key (f r) = key r \<and> Q (f r) = Q r"
  shows "unique_on Q key (update_where P f rows)"
proof -
  have "map key (filter Q (update_where P f rows)) = map key (filter Q rows)"
    using assms(2) by (induction rows) (auto simp: update_where_def)
  with assms(1) show ?thesis by (simp add: unique_on_def)
qed

lemma db_ok_empty: "db_ok empty_database"
  by (simp add: db_ok_def table_ok_defs empty_database_def unique_on_def fk_ok_def)

end
