(* ===== verification/Session.thy ===== *)
theory Session
  imports Domain
begin

text \<open>
  The state a service function runs in, the database session (\<open>src/app/core/session.py\<close> and
  the parts of \<open>AsyncSession\<close> the code calls) and the tenancy capability \<open>OrgScope\<close>
  (\<open>src/app/core/scope.py\<close>).

  A \<open>world\<close> holds the database as the session sees it (\<open>db\<close>), the last committed database
  (\<open>committed\<close>), the clock, the random values the run will draw (\<open>uuids\<close> for \<open>uuid4()\<close>,
  \<open>tokens\<close> for \<open>secrets.token_urlsafe\<close>), the job queue, the Redis keys and the e-mails handed
  to the mailer. Only \<open>db\<close> is transactional: a rollback leaves the other fields alone. The
  clock is constant during one run, as \<open>now()\<close> is within one Postgres transaction.

  The random values are finite lists; a run that needs more of them than it was given stops
  with \<open>EntropyExhausted\<close>, which no real run does.
\<close>

datatype job =
    ClassifyTicket uuid uuid
  | EmbedResolvedTicket uuid uuid
  | EmbedKnowledgeDocument uuid uuid
  | SendTicketEmailReply uuid uuid uuid
  | ProcessWhatsappMessage uuid string string
  | SendWhatsappReply uuid string

datatype fault = Raised error | EntropyExhausted

record world =
  db :: database
  committed :: database
  now :: int
  uuids :: "uuid list"
  tokens :: "string list"
  jobs :: "job list"
  redis :: "(string \<times> int \<times> int option) list"
  outbox :: "(string \<times> string) list"

type_synonym 'a service = "(fault, world, 'a) prog"

abbreviation throw :: "error \<Rightarrow> 'a service" where
  "throw e \<equiv> raise (Raised e)"

abbreviation throw_if :: "bool \<Rightarrow> error \<Rightarrow> unit service" where
  "throw_if b e \<equiv> raise_if b (Raised e)"

section \<open>Session operations\<close>

definition uuid4 :: "uuid service" where
  "uuid4 = (\<lambda>s. case uuids s of
      [] \<Rightarrow> (Inl EntropyExhausted, s)
    | u # us \<Rightarrow> (Inr u, s\<lparr>uuids := us\<rparr>))"

definition new_opaque_token :: "string service" where
  "new_opaque_token = (\<lambda>s. case tokens s of
      [] \<Rightarrow> (Inl EntropyExhausted, s)
    | t # ts \<Rightarrow> (Inr t, s\<lparr>tokens := ts\<rparr>))"

definition update_db :: "(database \<Rightarrow> database) \<Rightarrow> unit service" where
  "update_db f = modify (\<lambda>s. s\<lparr>db := f (db s)\<rparr>)"

definition query :: "(database \<Rightarrow> 'a) \<Rightarrow> 'a service" where
  "query f = reads (\<lambda>s. f (db s))"

text \<open>\<open>session.flush()\<close>: the database checks every constraint of the schema.\<close>

definition flush :: "unit service" where
  "flush = (\<lambda>s. if db_ok (db s) then (Inr (), s) else (Inl (Raised IntegrityError), s))"

definition commit :: "unit service" where
  "commit = andthen flush (modify (\<lambda>s. s\<lparr>committed := db s\<rparr>))"

definition rollback :: "unit service" where
  "rollback = modify (\<lambda>s. s\<lparr>db := committed s\<rparr>)"

text \<open>\<open>execute(stmt).scalar_one_or_none()\<close>.\<close>

definition one_or_none :: "(database \<Rightarrow> 'r list) \<Rightarrow> 'r option service" where
  "one_or_none q = liftE (\<lambda>s. case scalar_one_or_none (q (db s)) of
      None \<Rightarrow> Inl (Raised MultipleResultsFound) | Some r \<Rightarrow> Inr r)"

text \<open>\<open>get_session\<close>: commit when the handler returns, roll back and re-raise when it raises.\<close>

definition get_session :: "'a service \<Rightarrow> 'a service" where
  "get_session handler = try_except
     (bind handler (\<lambda>x. andthen commit (ret x)))
     (\<lambda>e. andthen rollback (raise e))"

text \<open>\<open>async with session_factory() as session\<close>: leaving the block, by return or by exception,
  discards whatever was not committed.\<close>

definition with_session :: "'a service \<Rightarrow> 'a service" where
  "with_session body = (\<lambda>s. case body s of (r, s') \<Rightarrow> (r, s'\<lparr>db := committed s'\<rparr>))"

text \<open>\<open>async with session.begin_nested()\<close>: a savepoint; the pending work is flushed before it
  is released, and any exception restores the database of the entry.\<close>

definition begin_nested :: "'a service \<Rightarrow> 'a service" where
  "begin_nested body = bind (query id) (\<lambda>saved. andthen flush
     (try_except
       (bind body (\<lambda>x. andthen flush (ret x)))
       (\<lambda>e. andthen (update_db (\<lambda>_. saved)) (raise e))))"

section \<open>OrgScope\<close>

definition SYSTEM_ACTOR_ID :: uuid where "SYSTEM_ACTOR_ID = 1"
definition ANONYMOUS_CHAT_ACTOR_ID :: uuid where "ANONYMOUS_CHAT_ACTOR_ID = 2"

record OrgScope =
  organization_id :: uuid
  user_id :: uuid
  role :: UserRole

definition from_principal :: "user \<Rightarrow> error + OrgScope" where
  "from_principal u = (case u_organization_id u of
      None \<Rightarrow> Inl (SuperAdminCannotAccessOrgDataError (u_id u))
    | Some org \<Rightarrow> Inr \<lparr>organization_id = org, user_id = u_id u, role = u_role u\<rparr>)"

definition for_new_organization :: "uuid \<Rightarrow> user \<Rightarrow> OrgScope" where
  "for_new_organization org actor = \<lparr>organization_id = org, user_id = u_id actor, role = ADMIN\<rparr>"

definition for_background_worker :: "uuid \<Rightarrow> OrgScope" where
  "for_background_worker org = \<lparr>organization_id = org, user_id = SYSTEM_ACTOR_ID, role = ADMIN\<rparr>"

definition for_anonymous_chat :: "uuid \<Rightarrow> OrgScope" where
  "for_anonymous_chat org = \<lparr>organization_id = org, user_id = ANONYMOUS_CHAT_ACTOR_ID, role = TENANT\<rparr>"

definition staff_roles :: "UserRole list" where "staff_roles = [AGENT, ADMIN]"

abbreviation is_staff :: "OrgScope \<Rightarrow> bool" where "is_staff sc \<equiv> role sc \<in> set staff_roles"

section \<open>Execution rules\<close>

lemma update_db_run [run_simps]: "update_db f s = (Inr (), s\<lparr>db := f (db s)\<rparr>)"
  by (simp add: update_db_def modify_run)

lemma bind_update_db [run_simps]: "bind (update_db f) g s = g () (s\<lparr>db := f (db s)\<rparr>)"
  by (simp add: update_db_def bind_modify)

lemma query_run [run_simps]: "query f s = (Inr (f (db s)), s)"
  by (simp add: query_def reads_run)

lemma bind_query [run_simps]: "bind (query f) g s = g (f (db s)) s"
  by (simp add: query_def bind_reads)

lemma flush_run [run_simps]:
  "flush s = (if db_ok (db s) then (Inr (), s) else (Inl (Raised IntegrityError), s))"
  by (simp add: flush_def)

lemma bind_flush [run_simps]:
  "bind flush g s = (if db_ok (db s) then g () s else (Inl (Raised IntegrityError), s))"
  by (simp add: flush_def bind_def)

lemma commit_run [run_simps]:
  "commit s = (if db_ok (db s) then (Inr (), s\<lparr>committed := db s\<rparr>) else (Inl (Raised IntegrityError), s))"
  by (simp add: commit_def run_simps)

lemma rollback_run [run_simps]: "rollback s = (Inr (), s\<lparr>db := committed s\<rparr>)"
  by (simp add: rollback_def modify_run)

lemma bind_one_or_none [run_simps]:
  "bind (one_or_none q) g s = (case scalar_one_or_none (q (db s)) of
      None \<Rightarrow> (Inl (Raised MultipleResultsFound), s) | Some r \<Rightarrow> g r s)"
  by (simp add: one_or_none_def bind_liftE split: option.splits)

lemma one_or_none_run [run_simps]:
  "one_or_none q s = (case scalar_one_or_none (q (db s)) of
      None \<Rightarrow> (Inl (Raised MultipleResultsFound), s) | Some r \<Rightarrow> (Inr r, s))"
  by (simp add: one_or_none_def liftE_run split: option.splits)

lemma uuid4_run: "uuid4 s = (case uuids s of
    [] \<Rightarrow> (Inl EntropyExhausted, s) | u # us \<Rightarrow> (Inr u, s\<lparr>uuids := us\<rparr>))"
  by (simp add: uuid4_def)

lemma bind_uuid4 [run_simps]: "bind uuid4 g s = (case uuids s of
    [] \<Rightarrow> (Inl EntropyExhausted, s) | u # us \<Rightarrow> g u (s\<lparr>uuids := us\<rparr>))"
  by (simp add: uuid4_def bind_def split: list.splits)

lemma bind_new_opaque_token [run_simps]: "bind new_opaque_token g s = (case tokens s of
    [] \<Rightarrow> (Inl EntropyExhausted, s) | u # us \<Rightarrow> g u (s\<lparr>tokens := us\<rparr>))"
  by (simp add: new_opaque_token_def bind_def split: list.splits)

lemma readonly_session [simp, intro]:
  "readonly (query f)" "readonly (one_or_none q)" "readonly flush"
  by (simp_all add: query_def one_or_none_def flush_def readonly_basic) (simp add: readonly_def)

section \<open>Transactions\<close>

lemma get_session_Inr:
  "get_session h s = (Inr x, s') \<longleftrightarrow>
     (\<exists>t. h s = (Inr x, t) \<and> db_ok (db t) \<and> s' = t\<lparr>committed := db t\<rparr>)"
  by (auto simp: get_session_def try_except_def bind_def andthen_def commit_run raise_run ret_run
        rollback_run split: prod.splits sum.splits if_splits)

lemma get_session_Inl:
  "h s = (Inl e, t) \<Longrightarrow> get_session h s = (Inl e, t\<lparr>db := committed t\<rparr>)"
  by (simp add: get_session_def try_except_def bind_def andthen_def raise_run rollback_run)

text \<open>Everything but \<open>commit\<close> leaves the committed database, and everything leaves the clock,
  as they are.\<close>

definition uncommitted :: "world \<Rightarrow> world \<Rightarrow> bool" where
  "uncommitted s s' \<longleftrightarrow> committed s' = committed s \<and> now s' = now s"

interpretation uncommitted: frame_relation uncommitted
  by unfold_locales (simp_all add: uncommitted_def)

lemma always_uncommitted [simp, intro]:
  "always uncommitted uuid4" "always uncommitted new_opaque_token" "always uncommitted (update_db f)"
  by (auto simp: always_def uncommitted_def uuid4_def new_opaque_token_def update_db_def modify_def
      split: list.splits)

lemma always_uncommitted_flush [simp, intro]: "always uncommitted flush"
  by (auto intro: uncommitted.always_readonly readonly_session)

lemmas uncommitted_rules =
  uncommitted.always_rules uncommitted.always_readonly [OF readonly_basic(1)]
  uncommitted.always_readonly [OF readonly_basic(2)] uncommitted.always_readonly [OF readonly_basic(3)]
  uncommitted.always_readonly [OF readonly_basic(5)] always_uncommitted always_uncommitted_flush

text \<open>A request ends with the session on the committed database: unchanged if the handler raised.\<close>

lemma get_session_outcome:
  assumes "always uncommitted h" and "db s = committed s" and "get_session h s = (r, s')"
  shows "db s' = committed s' \<and>
    (case r of Inl _ \<Rightarrow> db s' = db s | Inr x \<Rightarrow> (\<exists>t. h s = (Inr x, t) \<and> db_ok (db t) \<and> db s' = db t))"
proof (cases "h s")
  case (Pair q t)
  then have "committed t = committed s" using assms(1) by (auto simp: uncommitted_def dest: alwaysD)
  with assms(2,3) Pair show ?thesis
    by (auto simp: get_session_def try_except_def bind_def andthen_def commit_run raise_run ret_run
        rollback_run split: sum.splits if_splits)
qed

lemma get_session_committed_ok:
  assumes "get_session h s = (r, s')" and "\<And>x t. h s = (x, t) \<Longrightarrow> committed t = committed s"
    and "db_ok (committed s)"
  shows "db s' = committed s' \<and> db_ok (db s')"
  using assms
  by (auto simp: get_session_def try_except_def bind_def andthen_def commit_run raise_run ret_run
        rollback_run split: prod.splits sum.splits if_splits)

lemma staff_roles_iff [simp]: "r \<in> set staff_roles \<longleftrightarrow> r = AGENT \<or> r = ADMIN"
  by (simp add: staff_roles_def)

end
