(* ===== verification/Repositories.thy ===== *)
theory Repositories
  imports Session "HOL-Library.Product_Lexorder"
begin

text \<open>
  \<open>src/app/repositories/\<close>: the generic \<open>ScopedRepository\<close> and its subclasses. A repository
  is a record of what its class declares: the model's name, its table, its primary key, the
  \<open>WHERE\<close> clause its \<open>select()\<close> puts on every query, and how \<open>add()\<close> and \<open>update()\<close> treat
  \<open>organization_id\<close>. The operations of the base class are defined once over such a record.

  The locale \<open>scoped_repository\<close> states what a client may rely on, and
  \<open>direct_repository\<close> what the repositories of models with their own \<open>organization_id\<close> add
  to it; both are interpreted on the repositories of the code.
\<close>

record 'r repository =
  model_name :: string
  rows :: "database \<Rightarrow> 'r list"
  upd_rows :: "('r list \<Rightarrow> 'r list) \<Rightarrow> database \<Rightarrow> database"
  pk :: "'r \<Rightarrow> uuid"
  clause :: "OrgScope \<Rightarrow> database \<Rightarrow> 'r \<Rightarrow> bool"
  force_org :: "uuid \<Rightarrow> 'r \<Rightarrow> 'r"
  keep_org :: "'r \<Rightarrow> 'r \<Rightarrow> 'r"

section \<open>ScopedRepository\<close>

text \<open>\<open>scope_clause\<close>, join path: some row of the joined table has the referenced key and
  belongs to the scope's organization (a path of length one; no repository has a longer one).\<close>

definition join_exists_clause ::
  "('j \<Rightarrow> uuid) \<Rightarrow> ('j \<Rightarrow> uuid) \<Rightarrow> 'j list \<Rightarrow> uuid \<Rightarrow> OrgScope \<Rightarrow> bool" where
  "join_exists_clause jpk jorg joined fk sc \<longleftrightarrow>
     list_ex (\<lambda>j. jpk j = fk \<and> jorg j = organization_id sc) joined"

definition select_rows :: "'r repository \<Rightarrow> OrgScope \<Rightarrow> database \<Rightarrow> 'r list" where
  "select_rows R sc d = filter (clause R sc d) (rows R d)"

definition get_or_404 :: "'r repository \<Rightarrow> OrgScope \<Rightarrow> uuid option \<Rightarrow> 'r service" where
  "get_or_404 R sc i = bind
     (one_or_none (\<lambda>d. filter (\<lambda>r. i = Some (pk R r)) (select_rows R sc d)))
     (\<lambda>inst. case inst of None \<Rightarrow> throw (NotFoundError (model_name R) i) | Some r \<Rightarrow> ret r)"

definition insert_row :: "'r repository \<Rightarrow> 'r \<Rightarrow> unit service" where
  "insert_row R r = update_db (upd_rows R (\<lambda>rs. rs @ [r]))"

text \<open>\<open>add(**fields)\<close>: \<open>mk\<close> builds the row from the primary key \<open>uuid4\<close> draws for it.\<close>

definition add_row :: "'r repository \<Rightarrow> OrgScope \<Rightarrow> (uuid \<Rightarrow> 'r) \<Rightarrow> 'r service" where
  "add_row R sc mk = bind uuid4 (\<lambda>u.
     let r = force_org R (organization_id sc) (mk u)
     in andthen (insert_row R r) (ret r))"

text \<open>An attribute assignment on a loaded instance reaches the row with its primary key.\<close>

definition write_row :: "'r repository \<Rightarrow> uuid \<Rightarrow> ('r \<Rightarrow> 'r) \<Rightarrow> unit service" where
  "write_row R i f = update_db (upd_rows R (update_where (\<lambda>r. pk R r = i) f))"

definition update_row :: "'r repository \<Rightarrow> OrgScope \<Rightarrow> uuid \<Rightarrow> ('r \<Rightarrow> 'r) \<Rightarrow> 'r service" where
  "update_row R sc i assign = bind (get_or_404 R sc (Some i)) (\<lambda>r.
     let r' = keep_org R r (assign r)
     in andthen (write_row R i (\<lambda>_. r')) (ret r'))"

definition delete_row :: "'r repository \<Rightarrow> OrgScope \<Rightarrow> uuid \<Rightarrow> unit service" where
  "delete_row R sc i = bind (get_or_404 R sc (Some i)) (\<lambda>_.
     update_db (upd_rows R (delete_where (\<lambda>r. pk R r = i))))"

section \<open>The repositories\<close>

definition UserRepository :: "user repository" where
  "UserRepository = \<lparr> model_name = ''User'', rows = users, upd_rows = users_update, pk = u_id,
     clause = (\<lambda>sc d r. u_organization_id r = Some (organization_id sc)),
     force_org = (\<lambda>org r. r\<lparr>u_organization_id := Some org\<rparr>),
     keep_org = (\<lambda>old r. r\<lparr>u_organization_id := u_organization_id old\<rparr>) \<rparr>"

definition PropertyRepository :: "property repository" where
  "PropertyRepository = \<lparr> model_name = ''Property'', rows = properties, upd_rows = properties_update,
     pk = p_id,
     clause = (\<lambda>sc d r. p_organization_id r = organization_id sc \<and> p_deleted_at r = None),
     force_org = (\<lambda>org r. r\<lparr>p_organization_id := org\<rparr>),
     keep_org = (\<lambda>old r. r\<lparr>p_organization_id := p_organization_id old\<rparr>) \<rparr>"

definition ContractRepository :: "contract repository" where
  "ContractRepository = \<lparr> model_name = ''Contract'', rows = contracts, upd_rows = contracts_update,
     pk = c_id,
     clause = (\<lambda>sc d r. join_exists_clause p_id p_organization_id (properties d) (c_property_id r) sc),
     force_org = (\<lambda>org r. r), keep_org = (\<lambda>old r. r) \<rparr>"

definition CategoryRepository :: "category repository" where
  "CategoryRepository = \<lparr> model_name = ''Category'', rows = categories, upd_rows = categories_update,
     pk = cat_id,
     clause = (\<lambda>sc d r. cat_organization_id r = organization_id sc),
     force_org = (\<lambda>org r. r\<lparr>cat_organization_id := org\<rparr>),
     keep_org = (\<lambda>old r. r\<lparr>cat_organization_id := cat_organization_id old\<rparr>) \<rparr>"

definition UrgencyLevelRepository :: "urgency_level repository" where
  "UrgencyLevelRepository = \<lparr> model_name = ''UrgencyLevel'', rows = urgency_levels,
     upd_rows = urgency_levels_update, pk = ul_id,
     clause = (\<lambda>sc d r. ul_organization_id r = organization_id sc),
     force_org = (\<lambda>org r. r\<lparr>ul_organization_id := org\<rparr>),
     keep_org = (\<lambda>old r. r\<lparr>ul_organization_id := ul_organization_id old\<rparr>) \<rparr>"

text \<open>\<open>TicketRepository.select\<close> fuses the organization with the visibility rule of the role
  (soft-deleted properties still count for their owner).\<close>

definition own_contract :: "OrgScope \<Rightarrow> database \<Rightarrow> ticket \<Rightarrow> bool" where
  "own_contract sc d t \<longleftrightarrow>
     list_ex (\<lambda>c. Some (c_id c) = t_contract_id t \<and> c_tenant_id c = user_id sc) (contracts d)"

definition own_property :: "OrgScope \<Rightarrow> database \<Rightarrow> ticket \<Rightarrow> bool" where
  "own_property sc d t \<longleftrightarrow>
     list_ex (\<lambda>p. Some (p_id p) = t_property_id t \<and> p_owner_id p = user_id sc) (properties d)"

definition ticket_visible :: "OrgScope \<Rightarrow> database \<Rightarrow> ticket \<Rightarrow> bool" where
  "ticket_visible sc d t \<longleftrightarrow>
     t_organization_id t = organization_id sc \<and>
     (case role sc of
        AGENT \<Rightarrow> True
      | ADMIN \<Rightarrow> True
      | TENANT \<Rightarrow> t_user_id t = user_id sc \<or> own_contract sc d t
      | OWNER \<Rightarrow> own_property sc d t)"

definition TicketRepository :: "ticket repository" where
  "TicketRepository = \<lparr> model_name = ''Ticket'', rows = tickets, upd_rows = tickets_update, pk = t_id,
     clause = ticket_visible,
     force_org = (\<lambda>org r. r\<lparr>t_organization_id := org\<rparr>),
     keep_org = (\<lambda>old r. r\<lparr>t_organization_id := t_organization_id old\<rparr>) \<rparr>"

definition ticket_join :: "OrgScope \<Rightarrow> database \<Rightarrow> uuid \<Rightarrow> bool" where
  "ticket_join sc d fk \<longleftrightarrow> join_exists_clause t_id t_organization_id (tickets d) fk sc"

definition MessageRepository :: "message repository" where
  "MessageRepository = \<lparr> model_name = ''Message'', rows = messages, upd_rows = messages_update, pk = m_id,
     clause = (\<lambda>sc d r. ticket_join sc d (m_ticket_id r)),
     force_org = (\<lambda>org r. r), keep_org = (\<lambda>old r. r) \<rparr>"

definition ClassificationRepository :: "classification repository" where
  "ClassificationRepository = \<lparr> model_name = ''Classification'', rows = classifications,
     upd_rows = classifications_update, pk = cl_id,
     clause = (\<lambda>sc d r. ticket_join sc d (cl_ticket_id r)),
     force_org = (\<lambda>org r. r), keep_org = (\<lambda>old r. r) \<rparr>"

definition SlaEventRepository :: "sla_event repository" where
  "SlaEventRepository = \<lparr> model_name = ''SlaEvent'', rows = sla_events, upd_rows = sla_events_update,
     pk = se_id,
     clause = (\<lambda>sc d r. se_organization_id r = organization_id sc),
     force_org = (\<lambda>org r. r\<lparr>se_organization_id := org\<rparr>),
     keep_org = (\<lambda>old r. r\<lparr>se_organization_id := se_organization_id old\<rparr>) \<rparr>"

definition NotificationRepository :: "notification repository" where
  "NotificationRepository = \<lparr> model_name = ''Notification'', rows = notifications,
     upd_rows = notifications_update, pk = n_id,
     clause = (\<lambda>sc d r. n_organization_id r = organization_id sc),
     force_org = (\<lambda>org r. r\<lparr>n_organization_id := org\<rparr>),
     keep_org = (\<lambda>old r. r\<lparr>n_organization_id := n_organization_id old\<rparr>) \<rparr>"

definition ChatSessionRepository :: "chat_session repository" where
  "ChatSessionRepository = \<lparr> model_name = ''ChatSession'', rows = chat_sessions,
     upd_rows = chat_sessions_update, pk = cs_id,
     clause = (\<lambda>sc d r. cs_organization_id r = organization_id sc),
     force_org = (\<lambda>org r. r\<lparr>cs_organization_id := org\<rparr>),
     keep_org = (\<lambda>old r. r\<lparr>cs_organization_id := cs_organization_id old\<rparr>) \<rparr>"

definition ChatMessageRepository :: "chat_message repository" where
  "ChatMessageRepository = \<lparr> model_name = ''ChatMessage'', rows = chat_messages,
     upd_rows = chat_messages_update, pk = cm_id,
     clause = (\<lambda>sc d r. join_exists_clause cs_id cs_organization_id (chat_sessions d) (cm_chat_session_id r) sc),
     force_org = (\<lambda>org r. r), keep_org = (\<lambda>old r. r) \<rparr>"

definition KnowledgeBaseRepository :: "knowledge_base repository" where
  "KnowledgeBaseRepository = \<lparr> model_name = ''KnowledgeBase'', rows = knowledge_bases,
     upd_rows = knowledge_bases_update, pk = kb_id,
     clause = (\<lambda>sc d r. kb_organization_id r = organization_id sc),
     force_org = (\<lambda>org r. r\<lparr>kb_organization_id := org\<rparr>),
     keep_org = (\<lambda>old r. r\<lparr>kb_organization_id := kb_organization_id old\<rparr>) \<rparr>"

definition KnowledgeChunkRepository :: "knowledge_chunk repository" where
  "KnowledgeChunkRepository = \<lparr> model_name = ''KnowledgeChunk'', rows = knowledge_chunks,
     upd_rows = knowledge_chunks_update, pk = kc_id,
     clause = (\<lambda>sc d r. kc_organization_id r = organization_id sc),
     force_org = (\<lambda>org r. r\<lparr>kc_organization_id := org\<rparr>),
     keep_org = (\<lambda>old r. r\<lparr>kc_organization_id := kc_organization_id old\<rparr>) \<rparr>"

definition DailyMetricRepository :: "daily_metric repository" where
  "DailyMetricRepository = \<lparr> model_name = ''DailyMetric'', rows = daily_metrics,
     upd_rows = daily_metrics_update, pk = dm_id,
     clause = (\<lambda>sc d r. dm_organization_id r = organization_id sc),
     force_org = (\<lambda>org r. r\<lparr>dm_organization_id := org\<rparr>),
     keep_org = (\<lambda>old r. r\<lparr>dm_organization_id := dm_organization_id old\<rparr>) \<rparr>"

lemmas repository_defs =
  UserRepository_def PropertyRepository_def ContractRepository_def CategoryRepository_def
  UrgencyLevelRepository_def TicketRepository_def MessageRepository_def
  ClassificationRepository_def SlaEventRepository_def NotificationRepository_def
  ChatSessionRepository_def ChatMessageRepository_def KnowledgeBaseRepository_def
  KnowledgeChunkRepository_def DailyMetricRepository_def

section \<open>Their queries\<close>

text \<open>An optional filter of a \<open>list()\<close> method.\<close>

definition opt_where :: "'a option \<Rightarrow> 'a \<Rightarrow> bool" where
  "opt_where f x \<longleftrightarrow> (case f of None \<Rightarrow> True | Some v \<Rightarrow> x = v)"

definition opt_where_null :: "'a option \<Rightarrow> 'a option \<Rightarrow> bool" where
  "opt_where_null f x \<longleftrightarrow> (case f of None \<Rightarrow> True | Some v \<Rightarrow> x = Some v)"

definition user_list :: "OrgScope \<Rightarrow> UserRole option \<Rightarrow> UserStatus option \<Rightarrow> database \<Rightarrow> user list" where
  "user_list sc rl st d = filter (\<lambda>u. opt_where rl (u_role u) \<and> opt_where st (u_status u))
     (select_rows UserRepository sc d)"

definition category_list :: "OrgScope \<Rightarrow> bool option \<Rightarrow> database \<Rightarrow> category list" where
  "category_list sc act d = filter (\<lambda>c. opt_where act (cat_active c)) (select_rows CategoryRepository sc d)"

definition urgency_list :: "OrgScope \<Rightarrow> bool option \<Rightarrow> database \<Rightarrow> urgency_level list" where
  "urgency_list sc act d = sort_key ul_sort_order
     (filter (\<lambda>u. opt_where act (ul_active u)) (select_rows UrgencyLevelRepository sc d))"

definition ticket_list :: "OrgScope \<Rightarrow> TicketStatus option \<Rightarrow> uuid option \<Rightarrow> uuid option \<Rightarrow>
    uuid option \<Rightarrow> uuid option \<Rightarrow> database \<Rightarrow> ticket list" where
  "ticket_list sc st cat urg agent prop d = filter (\<lambda>t.
     opt_where st (t_status t) \<and> opt_where_null cat (t_category_id t) \<and>
     opt_where_null urg (t_urgency_id t) \<and> opt_where_null agent (t_agent_id t) \<and>
     opt_where_null prop (t_property_id t))
     (select_rows TicketRepository sc d)"

definition ticket_list_pending :: "OrgScope \<Rightarrow> int \<Rightarrow> database \<Rightarrow> ticket list" where
  "ticket_list_pending sc older_than d = filter (\<lambda>t.
     t_classification_status t = PENDING \<and> t_created_at t < older_than)
     (select_rows TicketRepository sc d)"

definition sla_event_list_for_ticket :: "OrgScope \<Rightarrow> uuid \<Rightarrow> database \<Rightarrow> sla_event list" where
  "sla_event_list_for_ticket sc tid d = sort_key se_occurred_at
     (filter (\<lambda>e. se_ticket_id e = tid) (select_rows SlaEventRepository sc d))"

definition for_recipient :: "OrgScope \<Rightarrow> uuid \<Rightarrow> database \<Rightarrow> notification list" where
  "for_recipient sc uid d = rev (sort_key (\<lambda>n. (n_sent_at n, n_id n))
     (filter (\<lambda>n. n_user_id n = uid) (select_rows NotificationRepository sc d)))"

definition chat_list_for_session :: "OrgScope \<Rightarrow> uuid \<Rightarrow> database \<Rightarrow> chat_message list" where
  "chat_list_for_session sc sid d = sort_key (\<lambda>m. (cm_created_at m, cm_id m))
     (filter (\<lambda>m. cm_chat_session_id m = sid) (select_rows ChatMessageRepository sc d))"

definition metric_series :: "OrgScope \<Rightarrow> string \<Rightarrow> int \<Rightarrow> int \<Rightarrow> database \<Rightarrow> daily_metric list" where
  "metric_series sc key start_date end_date d = sort_key dm_metric_date
     (filter (\<lambda>m. dm_metric_key m = key \<and> start_date \<le> dm_metric_date m \<and> dm_metric_date m \<le> end_date)
       (select_rows DailyMetricRepository sc d))"

definition delete_for_knowledge_base :: "OrgScope \<Rightarrow> uuid \<Rightarrow> unit service" where
  "delete_for_knowledge_base sc kbid = update_db (knowledge_chunks_update
     (delete_where (\<lambda>c. kc_organization_id c = organization_id sc \<and> kc_knowledge_base_id c = kbid)))"

text \<open>\<open>ClassificationRepository\<close>: the upsert on the unique \<open>ticket_id\<close> (an existing row keeps
  its id, creation time and \<open>human_corrected\<close>), the correction flag (an unscoped \<open>UPDATE\<close>)
  and the lookup.\<close>

definition classification_upsert :: "uuid \<Rightarrow> string option \<Rightarrow> real option \<Rightarrow> string option \<Rightarrow>
    real option \<Rightarrow> string option \<Rightarrow> unit service" where
  "classification_upsert tid pcat conf purg uconf model = bind uuid4 (\<lambda>u. bind (reads now) (\<lambda>ts.
     update_db (classifications_update (\<lambda>rs.
       if list_ex (\<lambda>r. cl_ticket_id r = tid) rs
       then update_where (\<lambda>r. cl_ticket_id r = tid)
              (\<lambda>r. r\<lparr>cl_predicted_category := pcat, cl_confidence := conf, cl_predicted_urgency := purg,
                     cl_urgency_confidence := uconf, cl_model_used := model\<rparr>) rs
       else rs @ [\<lparr>cl_id = u, cl_created_at = ts, cl_ticket_id = tid, cl_predicted_category = pcat,
                   cl_confidence = conf, cl_human_corrected = False, cl_model_used = model,
                   cl_predicted_urgency = purg, cl_urgency_confidence = uconf\<rparr>]))))"

definition mark_human_corrected :: "uuid \<Rightarrow> unit service" where
  "mark_human_corrected tid = update_db (classifications_update
     (update_where (\<lambda>r. cl_ticket_id r = tid) (\<lambda>r. r\<lparr>cl_human_corrected := True\<rparr>)))"

definition get_by_ticket_id :: "OrgScope \<Rightarrow> uuid \<Rightarrow> classification option service" where
  "get_by_ticket_id sc tid = one_or_none (\<lambda>d.
     filter (\<lambda>r. cl_ticket_id r = tid) (select_rows ClassificationRepository sc d))"

text \<open>\<open>OrganizationRepository\<close>: the one unscoped repository.\<close>

definition organization_get_or_404 :: "uuid \<Rightarrow> organization service" where
  "organization_get_or_404 i = bind
     (one_or_none (\<lambda>d. filter (\<lambda>r. o_id r = i) (organizations d)))
     (\<lambda>inst. case inst of None \<Rightarrow> throw (NotFoundError ''Organization'' (Some i)) | Some r \<Rightarrow> ret r)"

definition organization_add :: "(uuid \<Rightarrow> organization) \<Rightarrow> organization service" where
  "organization_add mk = bind uuid4 (\<lambda>u.
     let r = mk u in andthen (update_db (organizations_update (\<lambda>rs. rs @ [r]))) (ret r))"

definition organization_update :: "uuid \<Rightarrow> (organization \<Rightarrow> organization) \<Rightarrow> organization service" where
  "organization_update i f = bind (organization_get_or_404 i) (\<lambda>r. andthen
     (update_db (organizations_update (update_where (\<lambda>x. o_id x = i) (\<lambda>_. f r)))) (ret (f r)))"

definition organization_list :: "database \<Rightarrow> organization list" where
  "organization_list d = organizations d"

definition get_by_whatsapp_phone_number_id :: "string \<Rightarrow> organization option service" where
  "get_by_whatsapp_phone_number_id phone = one_or_none (\<lambda>d.
     filter (\<lambda>r. o_whatsapp_phone_number_id r = Some phone) (organizations d))"

definition get_by_support_email_address :: "string \<Rightarrow> organization option service" where
  "get_by_support_email_address email = one_or_none (\<lambda>d.
     filter (\<lambda>r. map_option py_lower (o_support_email_address r) = Some (py_lower email)) (organizations d))"

section \<open>Looking rows up\<close>

lemma get_or_404_Inr:
  "get_or_404 R sc i s = (Inr r, s') \<longleftrightarrow>
     s' = s \<and> filter (\<lambda>r. i = Some (pk R r)) (select_rows R sc (db s)) = [r]"
  by (auto simp: get_or_404_def bind_one_or_none ret_run raise_run split: option.splits)

lemma get_or_404_not_found:
  "filter (\<lambda>r. i = Some (pk R r)) (select_rows R sc (db s)) = [] \<Longrightarrow>
     get_or_404 R sc i s = (Inl (Raised (NotFoundError (model_name R) i)), s)"
  by (simp add: get_or_404_def bind_one_or_none scalar_one_or_none_def raise_run)

lemma get_or_404_state: "snd (get_or_404 R sc i s) = s"
  by (simp add: get_or_404_def bind_one_or_none ret_run raise_run split: option.splits)

lemma readonly_get_or_404 [simp, intro]: "readonly (get_or_404 R sc i)"
  by (simp add: readonly_def get_or_404_state)

lemma readonly_organization_get [simp, intro]: "readonly (organization_get_or_404 i)"
  unfolding organization_get_or_404_def by (intro readonly_rules readonly_session)

lemma get_or_404_found:
  assumes "get_or_404 R sc i s = (Inr r, s')"
  shows "s' = s \<and> r \<in> set (rows R (db s)) \<and> clause R sc (db s) r \<and> i = Some (pk R r)"
proof -
  from assms have s: "s' = s" and f: "filter (\<lambda>r. i = Some (pk R r)) (select_rows R sc (db s)) = [r]"
    by (auto simp: get_or_404_Inr)
  from f have "r \<in> set (filter (\<lambda>r. i = Some (pk R r)) (select_rows R sc (db s)))" by simp
  with s show ?thesis by (simp add: select_rows_def)
qed

text \<open>With unique primary keys the lookup returns exactly the visible row with that key.\<close>

lemma filter_pk_singleton:
  assumes "distinct (map (pk R) (rows R d))" and "r \<in> set (rows R d)" and "clause R sc d r"
  shows "filter (\<lambda>x. Some (pk R r) = Some (pk R x)) (select_rows R sc d) = [r]"
proof -
  have "filter (\<lambda>x. pk R x = pk R r) (rows R d) = [r]"
    using assms(1,2) by (rule distinct_map_inj_filter)
  then have "filter (clause R sc d) (filter (\<lambda>x. pk R x = pk R r) (rows R d)) = [r]"
    using assms(3) by simp
  then show ?thesis
    by (simp add: select_rows_def conj_commute eq_commute)
qed

lemma get_or_404_visible:
  assumes "distinct (map (pk R) (rows R (db s)))" "r \<in> set (rows R (db s))" "clause R sc (db s) r"
  shows "get_or_404 R sc (Some (pk R r)) s = (Inr r, s)"
  using filter_pk_singleton [OF assms] by (simp add: get_or_404_Inr)

lemma get_or_404_cases:
  assumes "distinct (map (pk R) (rows R (db s)))"
  shows "get_or_404 R sc (Some i) s =
    (case find (\<lambda>r. pk R r = i \<and> clause R sc (db s) r) (rows R (db s)) of
       None \<Rightarrow> (Inl (Raised (NotFoundError (model_name R) (Some i))), s)
     | Some r \<Rightarrow> (Inr r, s))"
proof (cases "find (\<lambda>r. pk R r = i \<and> clause R sc (db s) r) (rows R (db s))")
  case None
  then have "filter (\<lambda>r. Some i = Some (pk R r)) (select_rows R sc (db s)) = []"
    by (auto simp: find_None_iff select_rows_def filter_empty_conv)
  with None show ?thesis by (simp add: get_or_404_not_found)
next
  case (Some r)
  then have "r \<in> set (rows R (db s))" "pk R r = i" "clause R sc (db s) r"
    by (auto simp: find_Some_iff)
  with assms Some show ?thesis using get_or_404_visible by fastforce
qed

lemma uncommitted_repository [simp, intro]:
  "always uncommitted (get_or_404 R sc i)" "always uncommitted (add_row R sc mk)"
  "always uncommitted (write_row R j f)" "always uncommitted (update_row R sc j f)"
  "always uncommitted (delete_row R sc j)"
  unfolding add_row_def write_row_def update_row_def delete_row_def insert_row_def Let_def
  by (intro uncommitted_rules uncommitted.always_readonly [OF readonly_get_or_404])+

section \<open>What a scoped repository promises\<close>

locale scoped_repository =
  fixes R :: "'r repository" and in_org :: "database \<Rightarrow> uuid \<Rightarrow> 'r \<Rightarrow> bool"
  assumes rows_upd: "rows R (upd_rows R f d) = f (rows R d)"
    and clause_in_org: "clause R sc d r \<Longrightarrow> in_org d (organization_id sc) r"
    and pk_force: "pk R (force_org R org r) = pk R r"
    and pk_keep: "pk R (keep_org R old r) = pk R r"
begin

lemma select_in_org: "r \<in> set (select_rows R sc d) \<Longrightarrow> in_org d (organization_id sc) r"
  by (auto simp: select_rows_def dest: clause_in_org)

lemma get_in_org:
  "get_or_404 R sc i s = (Inr r, s') \<Longrightarrow> in_org (db s) (organization_id sc) r"
  by (auto dest!: get_or_404_found clause_in_org)

text \<open>A row of another organization is answered exactly like a row that does not exist.\<close>

lemma get_foreign_not_found:
  assumes "distinct (map (pk R) (rows R (db s)))" and "r \<in> set (rows R (db s))"
    and "\<not> in_org (db s) (organization_id sc) r"
  shows "get_or_404 R sc (Some (pk R r)) s =
    (Inl (Raised (NotFoundError (model_name R) (Some (pk R r)))), s)"
proof (rule get_or_404_not_found)
  show "filter (\<lambda>x. Some (pk R r) = Some (pk R x)) (select_rows R sc (db s)) = []"
    using assms by (auto simp: filter_empty_conv select_rows_def dest: clause_in_org distinct_map_eq)
qed

lemma update_row_Inr:
  assumes "update_row R sc i f s = (Inr r', s')"
  obtains r where "get_or_404 R sc (Some i) s = (Inr r, s)" "r' = keep_org R r (f r)"
    "s' = s\<lparr>db := upd_rows R (update_where (\<lambda>x. pk R x = i) (\<lambda>_. r')) (db s)\<rparr>"
proof -
  from assms obtain r t where g: "get_or_404 R sc (Some i) s = (Inr r, t)"
    and k: "(let r'' = keep_org R r (f r) in andthen (write_row R i (\<lambda>_. r'')) (ret r'')) t = (Inr r', s')"
    unfolding update_row_def by (rule bind_InrE)
  from g have "t = s" by (simp add: get_or_404_Inr)
  with g k show ?thesis
    by (intro that [of r]) (auto simp: Let_def write_row_def run_simps)
qed

lemma add_row_Inr:
  assumes "add_row R sc mk s = (Inr r, s')"
  obtains u us where "uuids s = u # us" "r = force_org R (organization_id sc) (mk u)"
    "s' = s\<lparr>uuids := us, db := upd_rows R (\<lambda>rs. rs @ [r]) (db s)\<rparr>"
  using assms by (auto simp: add_row_def Let_def insert_row_def run_simps split: list.splits)

lemma update_row_stored:
  assumes "update_row R sc i f s = (Inr r', s')"
  shows "r' \<in> set (rows R (db s'))"
  using assms
proof (rule update_row_Inr)
  fix r assume g: "get_or_404 R sc (Some i) s = (Inr r, s)"
    and s': "s' = s\<lparr>db := upd_rows R (update_where (\<lambda>x. pk R x = i) (\<lambda>_. r')) (db s)\<rparr>"
  from get_or_404_found [OF g] have "r \<in> set (rows R (db s))" "pk R r = i" by auto
  with s' show ?thesis by (auto simp: rows_upd set_update_where image_iff)
qed

end

text \<open>Models with their own \<open>organization_id\<close> column.\<close>

locale direct_repository =
  scoped_repository R "\<lambda>d org r. owner r = Some org" for R :: "'r repository" and owner :: "'r \<Rightarrow> uuid option" +
  assumes force_owner: "owner (force_org R org r) = Some org"
    and keep_owner: "owner (keep_org R old r) = owner old"
begin

abbreviation foreign_rows :: "uuid \<Rightarrow> 'r list \<Rightarrow> 'r list" where
  "foreign_rows org rs \<equiv> filter (\<lambda>r. owner r \<noteq> Some org) rs"

lemma add_row_owner: "add_row R sc mk s = (Inr r, s') \<Longrightarrow> owner r = Some (organization_id sc)"
  by (erule add_row_Inr) (simp add: force_owner)

lemma add_row_foreign:
  "add_row R sc mk s = (Inr r, s') \<Longrightarrow>
     foreign_rows (organization_id sc) (rows R (db s')) = foreign_rows (organization_id sc) (rows R (db s))"
  by (erule add_row_Inr) (simp add: rows_upd force_owner)

lemma write_foreign:
  assumes "distinct (map (pk R) (rows R (db s)))" "r \<in> set (rows R (db s))"
    "owner r = Some org" "\<And>x. x \<in> set (rows R (db s)) \<Longrightarrow> pk R x = pk R r \<Longrightarrow> owner (f x) = Some org"
  shows "foreign_rows org (update_where (\<lambda>x. pk R x = pk R r) f (rows R (db s))) =
    foreign_rows org (rows R (db s))"
  using assms by (intro filter_update_where) (auto dest: distinct_map_eq)

lemma update_row_foreign:
  assumes "distinct (map (pk R) (rows R (db s)))" "update_row R sc i f s = (Inr r', s')"
  shows "foreign_rows (organization_id sc) (rows R (db s')) =
    foreign_rows (organization_id sc) (rows R (db s))"
  using assms(2)
proof (rule update_row_Inr)
  fix r assume g: "get_or_404 R sc (Some i) s = (Inr r, s)" and r': "r' = keep_org R r (f r)"
    and s': "s' = s\<lparr>db := upd_rows R (update_where (\<lambda>x. pk R x = i) (\<lambda>_. r')) (db s)\<rparr>"
  from get_or_404_found [OF g] have m: "r \<in> set (rows R (db s))" "pk R r = i" by auto
  have "owner r = Some (organization_id sc)" using get_in_org [OF g] .
  then have "foreign_rows (organization_id sc) (update_where (\<lambda>x. pk R x = pk R r) (\<lambda>_. r') (rows R (db s))) =
    foreign_rows (organization_id sc) (rows R (db s))"
    using assms(1) m by (intro write_foreign) (auto simp: r' keep_owner)
  with m(2) show ?thesis by (simp add: s' rows_upd)
qed

end

text \<open>The repositories of the code.\<close>

interpretation user_repo: direct_repository UserRepository u_organization_id
  by unfold_locales (auto simp: UserRepository_def)

interpretation property_repo: direct_repository PropertyRepository "\<lambda>r. Some (p_organization_id r)"
  by unfold_locales (auto simp: PropertyRepository_def)

interpretation category_repo: direct_repository CategoryRepository "\<lambda>r. Some (cat_organization_id r)"
  by unfold_locales (auto simp: CategoryRepository_def)

interpretation urgency_repo: direct_repository UrgencyLevelRepository "\<lambda>r. Some (ul_organization_id r)"
  by unfold_locales (auto simp: UrgencyLevelRepository_def)

interpretation ticket_repo: direct_repository TicketRepository "\<lambda>r. Some (t_organization_id r)"
  by unfold_locales (auto simp: TicketRepository_def ticket_visible_def)

interpretation sla_event_repo: direct_repository SlaEventRepository "\<lambda>r. Some (se_organization_id r)"
  by unfold_locales (auto simp: SlaEventRepository_def)

interpretation notification_repo: direct_repository NotificationRepository "\<lambda>r. Some (n_organization_id r)"
  by unfold_locales (auto simp: NotificationRepository_def)

interpretation chat_session_repo: direct_repository ChatSessionRepository "\<lambda>r. Some (cs_organization_id r)"
  by unfold_locales (auto simp: ChatSessionRepository_def)

interpretation knowledge_base_repo: direct_repository KnowledgeBaseRepository "\<lambda>r. Some (kb_organization_id r)"
  by unfold_locales (auto simp: KnowledgeBaseRepository_def)

interpretation knowledge_chunk_repo: direct_repository KnowledgeChunkRepository "\<lambda>r. Some (kc_organization_id r)"
  by unfold_locales (auto simp: KnowledgeChunkRepository_def)

interpretation daily_metric_repo: direct_repository DailyMetricRepository "\<lambda>r. Some (dm_organization_id r)"
  by unfold_locales (auto simp: DailyMetricRepository_def)

text \<open>The join-scoped ones: the organization of a row is that of the row it references.\<close>

interpretation contract_repo: scoped_repository ContractRepository
  "\<lambda>d org r. \<exists>p\<in>set (properties d). p_id p = c_property_id r \<and> p_organization_id p = org"
  by unfold_locales (auto simp: ContractRepository_def join_exists_clause_def list_ex_iff)

interpretation message_repo: scoped_repository MessageRepository
  "\<lambda>d org r. \<exists>t\<in>set (tickets d). t_id t = m_ticket_id r \<and> t_organization_id t = org"
  by unfold_locales (auto simp: MessageRepository_def ticket_join_def join_exists_clause_def list_ex_iff)

interpretation classification_repo: scoped_repository ClassificationRepository
  "\<lambda>d org r. \<exists>t\<in>set (tickets d). t_id t = cl_ticket_id r \<and> t_organization_id t = org"
  by unfold_locales (auto simp: ClassificationRepository_def ticket_join_def join_exists_clause_def list_ex_iff)

interpretation chat_message_repo: scoped_repository ChatMessageRepository
  "\<lambda>d org r. \<exists>c\<in>set (chat_sessions d). cs_id c = cm_chat_session_id r \<and> cs_organization_id c = org"
  by unfold_locales (auto simp: ChatMessageRepository_def join_exists_clause_def list_ex_iff)

lemma ticket_clause_iff [simp]: "clause TicketRepository = ticket_visible"
  by (simp add: TicketRepository_def)

lemma ticket_repo_simps [simp]:
  "rows TicketRepository = tickets" "pk TicketRepository = t_id" "model_name TicketRepository = ''Ticket''"
  "upd_rows TicketRepository = tickets_update"
  by (simp_all add: TicketRepository_def)

end
