(* ===== verification/Tenancy.thy ===== *)
theory Tenancy
  imports Repositories
begin

text \<open>
  What another organization can observe of a run. \<open>foreign_view org d\<close> is the part of the
  database that does not belong to \<open>org\<close>: rows with their own \<open>organization_id\<close> by that
  column, the others through the row they reference (contracts through properties, messages
  and classifications through tickets, chat messages through chat sessions, tokens through
  users). \<open>tenant_frame org\<close> relates two states when the second leaves that part untouched; a
  service function ensures it when every statement it issues does, by the rules of
  \<open>frame_relation\<close>.

  The frame is conditional on \<open>ids_ok\<close>: primary keys are unique in every table and the values
  \<open>uuid4\<close> will draw are new. That condition is itself preserved.
\<close>

definition pk_lists :: "database \<Rightarrow> uuid list list" where
  "pk_lists d =
    [map o_id (organizations d), map u_id (users d), map p_id (properties d), map c_id (contracts d),
     map cat_id (categories d), map ul_id (urgency_levels d), map t_id (tickets d),
     map m_id (messages d), map cl_id (classifications d), map se_id (sla_events d),
     map n_id (notifications d), map rt_id (refresh_tokens d), map it_id (invite_tokens d),
     map cs_id (chat_sessions d), map cm_id (chat_messages d), map kb_id (knowledge_bases d),
     map kc_id (knowledge_chunks d), map te_id (ticket_embeddings d), map dm_id (daily_metrics d)]"

definition ids_ok :: "world \<Rightarrow> bool" where
  "ids_ok s \<longleftrightarrow>
     list_all distinct (pk_lists (db s)) \<and> distinct (uuids s) \<and>
     list_all (\<lambda>l. \<not> list_ex (\<lambda>u. u \<in> set (uuids s)) l) (pk_lists (db s))"

definition foreign_view :: "uuid \<Rightarrow> database \<Rightarrow> database" where
  "foreign_view org d =
    (let us = filter (\<lambda>r. u_organization_id r \<noteq> Some org) (users d);
         ps = filter (\<lambda>r. p_organization_id r \<noteq> org) (properties d);
         ts = filter (\<lambda>r. t_organization_id r \<noteq> org) (tickets d);
         ss = filter (\<lambda>r. cs_organization_id r \<noteq> org) (chat_sessions d)
     in \<lparr> organizations = filter (\<lambda>r. o_id r \<noteq> org) (organizations d),
          users = us,
          properties = ps,
          contracts = filter (\<lambda>r. c_property_id r \<in> set (map p_id ps)) (contracts d),
          categories = filter (\<lambda>r. cat_organization_id r \<noteq> org) (categories d),
          urgency_levels = filter (\<lambda>r. ul_organization_id r \<noteq> org) (urgency_levels d),
          tickets = ts,
          messages = filter (\<lambda>r. m_ticket_id r \<in> set (map t_id ts)) (messages d),
          classifications = filter (\<lambda>r. cl_ticket_id r \<in> set (map t_id ts)) (classifications d),
          sla_events = filter (\<lambda>r. se_organization_id r \<noteq> org) (sla_events d),
          notifications = filter (\<lambda>r. n_organization_id r \<noteq> org) (notifications d),
          refresh_tokens = filter (\<lambda>r. rt_user_id r \<in> set (map u_id us)) (refresh_tokens d),
          invite_tokens = filter (\<lambda>r. it_user_id r \<in> set (map u_id us)) (invite_tokens d),
          chat_sessions = ss,
          chat_messages = filter (\<lambda>r. cm_chat_session_id r \<in> set (map cs_id ss)) (chat_messages d),
          knowledge_bases = filter (\<lambda>r. kb_organization_id r \<noteq> org) (knowledge_bases d),
          knowledge_chunks = filter (\<lambda>r. kc_organization_id r \<noteq> org) (knowledge_chunks d),
          ticket_embeddings = filter (\<lambda>r. te_organization_id r \<noteq> org) (ticket_embeddings d),
          daily_metrics = filter (\<lambda>r. dm_organization_id r \<noteq> org) (daily_metrics d) \<rparr>)"

definition tenant_frame :: "uuid \<Rightarrow> world \<Rightarrow> world \<Rightarrow> bool" where
  "tenant_frame org s s' \<longleftrightarrow>
     (ids_ok s \<longrightarrow> ids_ok s' \<and> foreign_view org (db s') = foreign_view org (db s) \<and>
       committed s' = committed s)"

interpretation tenant: frame_relation "tenant_frame org" for org
  by unfold_locales (auto simp: tenant_frame_def)

section \<open>Primary keys\<close>

lemma ids_okD:
  assumes "ids_ok s"
  shows "distinct (map o_id (organizations (db s)))" "distinct (map u_id (users (db s)))"
    "distinct (map p_id (properties (db s)))" "distinct (map c_id (contracts (db s)))"
    "distinct (map cat_id (categories (db s)))" "distinct (map ul_id (urgency_levels (db s)))"
    "distinct (map t_id (tickets (db s)))" "distinct (map n_id (notifications (db s)))"
    "distinct (map cs_id (chat_sessions (db s)))" "distinct (map m_id (messages (db s)))"
    "distinct (map se_id (sla_events (db s)))" "distinct (map cl_id (classifications (db s)))"
    "distinct (map kb_id (knowledge_bases (db s)))"
  using assms by (simp_all add: ids_ok_def pk_lists_def)

lemma ids_ok_uuids:
  "ids_ok s \<Longrightarrow> uuids s = u # us \<Longrightarrow> ids_ok (s\<lparr>uuids := us\<rparr>)"
  by (auto simp: ids_ok_def list_all_iff list_ex_iff)

section \<open>Repositories inside the frame\<close>

text \<open>
  A tenant repository is a direct repository whose table is table number \<open>idx\<close> of the schema
  and whose rows belong to an organization in the sense of \<open>foreign_view\<close>.
\<close>

locale tenant_repository =
  direct_repository R owner for R :: "'r repository" and owner :: "'r \<Rightarrow> uuid option" +
  fixes idx :: nat
  assumes pk_lists_upd: "pk_lists (upd_rows R f d) = (pk_lists d)[idx := map (pk R) (f (rows R d))]"
    and idx_bound: "idx < 19"
    and pk_lists_nth: "pk_lists d ! idx = map (pk R) (rows R d)"
    and foreign_view_upd:
      "filter (\<lambda>r. owner r \<noteq> Some org) (f (rows R d)) = filter (\<lambda>r. owner r \<noteq> Some org) (rows R d) \<Longrightarrow>
         foreign_view org (upd_rows R f d) = foreign_view org d"
begin

lemma length_pk_lists: "length (pk_lists d) = 19"
  by (simp add: pk_lists_def)

lemma rows_distinct: "ids_ok s \<Longrightarrow> distinct (map (pk R) (rows R (db s)))"
  using idx_bound
  by (auto simp: ids_ok_def list_all_length length_pk_lists simp flip: pk_lists_nth)

lemma rows_fresh: "ids_ok s \<Longrightarrow> u \<in> set (uuids s) \<Longrightarrow> u \<notin> pk R ` set (rows R (db s))"
proof
  assume "ids_ok s" "u \<in> set (uuids s)" "u \<in> pk R ` set (rows R (db s))"
  moreover have "pk_lists (db s) ! idx \<in> set (pk_lists (db s))"
    using idx_bound by (simp add: length_pk_lists)
  ultimately show False
    by (auto simp: ids_ok_def list_all_iff list_ex_iff pk_lists_nth)
qed

lemma ids_ok_upd:
  assumes "ids_ok s" and "distinct (map (pk R) (f (rows R (db s))))"
    and "distinct us" "set us \<subseteq> set (uuids s)" "set us \<inter> pk R ` set (f (rows R (db s))) = {}"
  shows "ids_ok (s\<lparr>uuids := us, db := upd_rows R f (db s)\<rparr>)"
proof -
  let ?new = "map (pk R) (f (rows R (db s)))"
  have sub: "l = ?new \<or> l \<in> set (pk_lists (db s))" if "l \<in> set (pk_lists (upd_rows R f (db s)))" for l
    using that set_update_subset_insert [of "pk_lists (db s)" idx ?new] by (auto simp: pk_lists_upd)
  have "distinct l \<and> set l \<inter> set us = {}" if "l \<in> set (pk_lists (upd_rows R f (db s)))" for l
    using sub [OF that]
  proof
    assume "l = ?new"
    with assms(2,5) show ?thesis by auto
  next
    assume "l \<in> set (pk_lists (db s))"
    with assms(1,4) show ?thesis by (auto simp: ids_ok_def list_all_iff list_ex_iff)
  qed
  then show ?thesis using assms(3) by (auto simp: ids_ok_def list_all_iff list_ex_iff)
qed

lemma ids_ok_same_pks:
  assumes "ids_ok s" and "map (pk R) (f (rows R (db s))) = map (pk R) (rows R (db s))"
  shows "ids_ok (s\<lparr>db := upd_rows R f (db s)\<rparr>)"
proof -
  have "pk_lists (upd_rows R f (db s)) = pk_lists (db s)"
    using assms(2) by (simp add: pk_lists_upd list_update_id flip: pk_lists_nth)
  with assms(1) show ?thesis by (simp add: ids_ok_def)
qed

lemma tenant_frame_insert:
  assumes u: "uuids s = u # us" and r: "pk R r = u" "owner r = Some org"
  shows "tenant_frame org s (s\<lparr>uuids := us, db := upd_rows R (\<lambda>rs. rs @ [r]) (db s)\<rparr>)"
proof -
  let ?s = "s\<lparr>uuids := us, db := upd_rows R (\<lambda>rs. rs @ [r]) (db s)\<rparr>"
  have "ids_ok ?s" if ok: "ids_ok s"
  proof -
    have "u \<notin> pk R ` set (rows R (db s))" using rows_fresh [OF ok] u by simp
    moreover have "set us \<inter> pk R ` set (rows R (db s)) = {}" using rows_fresh [OF ok] u by auto
    moreover have "distinct (u # us)" using ok u by (simp add: ids_ok_def)
    ultimately show ?thesis using rows_distinct [OF ok] u
      by (intro ids_ok_upd [OF ok]) (auto simp: r)
  qed
  moreover have "foreign_view org (db ?s) = foreign_view org (db s)"
    by (simp add: foreign_view_upd r)
  ultimately show ?thesis by (simp add: tenant_frame_def)
qed

lemma ensures_add_row:
  assumes "\<And>u. pk R (mk u) = u"
  shows "ensures (tenant_frame (organization_id sc)) (add_row R sc mk)"
  by (rule ensuresI, erule add_row_Inr)
    (auto intro!: tenant_frame_insert simp: pk_force force_owner assms)

lemma tenant_frame_write:
  assumes ok: "ids_ok s" and g: "r \<in> set (rows R (db s))" "owner r = Some org"
    and f: "\<And>x. x \<in> set (rows R (db s)) \<Longrightarrow> pk R x = pk R r \<Longrightarrow> owner (f x) = Some org \<and> pk R (f x) = pk R x"
  shows "tenant_frame org s (s\<lparr>db := upd_rows R (update_where (\<lambda>x. pk R x = pk R r) f) (db s)\<rparr>)"
proof -
  have "map (pk R) (update_where (\<lambda>x. pk R x = pk R r) f (rows R (db s))) = map (pk R) (rows R (db s))"
    using f by (simp add: update_where_def)
  then have "ids_ok (s\<lparr>db := upd_rows R (update_where (\<lambda>x. pk R x = pk R r) f) (db s)\<rparr>)"
    by (intro ids_ok_same_pks [OF ok])
  moreover have "filter (\<lambda>r. owner r \<noteq> Some org) (update_where (\<lambda>x. pk R x = pk R r) f (rows R (db s))) =
      filter (\<lambda>r. owner r \<noteq> Some org) (rows R (db s))"
    using f by (intro write_foreign [OF rows_distinct [OF ok] g]) auto
  ultimately show ?thesis by (simp add: tenant_frame_def foreign_view_upd)
qed

lemma ensures_update_row:
  assumes "\<And>r. pk R (f r) = pk R r"
  shows "ensures (tenant_frame (organization_id sc)) (update_row R sc i f)"
proof (rule ensuresI)
  fix s r' s' assume "update_row R sc i f s = (Inr r', s')"
  then show "tenant_frame (organization_id sc) s s'"
  proof (rule update_row_Inr)
    fix r assume g: "get_or_404 R sc (Some i) s = (Inr r, s)" and r': "r' = keep_org R r (f r)"
      and s': "s' = s\<lparr>db := upd_rows R (update_where (\<lambda>x. pk R x = i) (\<lambda>_. r')) (db s)\<rparr>"
    from get_or_404_found [OF g] have m: "r \<in> set (rows R (db s))" "pk R r = i" by auto
    have o: "owner r = Some (organization_id sc)" using get_in_org [OF g] .
    show ?thesis
    proof (cases "ids_ok s")
      case True
      show ?thesis unfolding s' m(2) [symmetric]
        by (rule tenant_frame_write [OF True m(1) o]) (simp add: r' keep_owner o pk_keep assms)
    qed (simp add: tenant_frame_def)
  qed
qed

end

lemmas tenant_upd_defs = pk_lists_def foreign_view_def Let_def

interpretation tenant_users: tenant_repository UserRepository u_organization_id 1
  by unfold_locales (auto simp: UserRepository_def tenant_upd_defs)

interpretation tenant_properties: tenant_repository PropertyRepository "\<lambda>r. Some (p_organization_id r)" 2
  by unfold_locales (auto simp: PropertyRepository_def tenant_upd_defs)

interpretation tenant_categories: tenant_repository CategoryRepository "\<lambda>r. Some (cat_organization_id r)" 4
  by unfold_locales (auto simp: CategoryRepository_def tenant_upd_defs)

interpretation tenant_urgency: tenant_repository UrgencyLevelRepository "\<lambda>r. Some (ul_organization_id r)" 5
  by unfold_locales (auto simp: UrgencyLevelRepository_def tenant_upd_defs)

interpretation tenant_tickets: tenant_repository TicketRepository "\<lambda>r. Some (t_organization_id r)" 6
  by unfold_locales (auto simp: TicketRepository_def tenant_upd_defs)

interpretation tenant_sla_events: tenant_repository SlaEventRepository "\<lambda>r. Some (se_organization_id r)" 9
  by unfold_locales (auto simp: SlaEventRepository_def tenant_upd_defs)

interpretation tenant_notifications: tenant_repository NotificationRepository "\<lambda>r. Some (n_organization_id r)" 10
  by unfold_locales (auto simp: NotificationRepository_def tenant_upd_defs)

interpretation tenant_chat_sessions: tenant_repository ChatSessionRepository "\<lambda>r. Some (cs_organization_id r)" 13
  by unfold_locales (auto simp: ChatSessionRepository_def tenant_upd_defs)

interpretation tenant_knowledge: tenant_repository KnowledgeBaseRepository "\<lambda>r. Some (kb_organization_id r)" 15
  by unfold_locales (auto simp: KnowledgeBaseRepository_def tenant_upd_defs)

lemma tenant_frame_draw: "uuids s = u # us \<Longrightarrow> tenant_frame org s (s\<lparr>uuids := us\<rparr>)"
  by (simp add: tenant_frame_def ids_ok_uuids)

lemma ensures_uuid4 [frame_intros]: "ensures (tenant_frame org) uuid4"
  by (auto simp: ensures_def uuid4_def tenant_frame_draw split: list.splits)

lemma ensures_query [frame_intros]: "ensures (tenant_frame org) (query f)"
  by (simp add: query_def tenant.ensures_reads)

text \<open>Rows that hang on a ticket: nothing foreign changes when only rows of an own ticket do.\<close>

lemma own_ticket_not_foreign:
  assumes "distinct (map t_id (tickets d))" "t \<in> set (tickets d)" "t_organization_id t = org"
  shows "t_id t \<notin> set (map t_id (filter (\<lambda>r. t_organization_id r \<noteq> org) (tickets d)))"
  using assms by (auto dest: distinct_map_eq)

lemma foreign_view_classifications:
  assumes "distinct (map t_id (tickets d))" "t \<in> set (tickets d)" "t_organization_id t = org"
    and "\<And>P. (\<And>r. P r \<Longrightarrow> cl_ticket_id r \<noteq> t_id t) \<Longrightarrow> filter P (f (classifications d)) = filter P (classifications d)"
  shows "foreign_view org (classifications_update f d) = foreign_view org d"
proof -
  let ?P = "\<lambda>r. cl_ticket_id r \<in> set (map t_id (filter (\<lambda>r. t_organization_id r \<noteq> org) (tickets d)))"
  have "filter ?P (f (classifications d)) = filter ?P (classifications d)"
    using own_ticket_not_foreign [OF assms(1-3)] by (intro assms(4)) auto
  then show ?thesis by (simp add: foreign_view_def Let_def)
qed

lemma tenant_frame_mark_human_corrected:
  assumes "t \<in> set (tickets (db s))" "t_organization_id t = org" "mark_human_corrected (t_id t) s = (Inr x, s')"
  shows "tenant_frame org s s'"
proof -
  let ?f = "update_where (\<lambda>r. cl_ticket_id r = t_id t) (\<lambda>r. r\<lparr>cl_human_corrected := True\<rparr>)"
  have s': "s' = s\<lparr>db := classifications_update ?f (db s)\<rparr>"
    using assms(3) by (simp add: mark_human_corrected_def update_db_run)
  have keep: "filter P (?f rs) = filter P rs" if P: "\<And>r. P r \<Longrightarrow> cl_ticket_id r \<noteq> t_id t" for P and rs :: "classification list"
  proof (rule filter_update_where)
    fix r :: classification assume "cl_ticket_id r = t_id t"
    then show "\<not> P r" "\<not> P (r\<lparr>cl_human_corrected := True\<rparr>)"
      using P [of r] P [of "r\<lparr>cl_human_corrected := True\<rparr>"] by auto
  qed
  have "foreign_view org (classifications_update ?f (db s)) = foreign_view org (db s)" if "ids_ok s"
    using that assms(1,2) by (intro foreign_view_classifications [of _ t] keep) (auto simp: ids_okD)
  moreover have "pk_lists (classifications_update ?f (db s)) = pk_lists (db s)"
    by (simp add: pk_lists_def map_update_where)
  ultimately show ?thesis by (auto simp: s' tenant_frame_def ids_ok_def)
qed

lemma ensures_one_or_none [frame_intros]: "ensures (tenant_frame org) (one_or_none q)"
  by (simp add: one_or_none_def tenant.ensures_liftE)

lemma ensures_flush [frame_intros]: "ensures (tenant_frame org) flush"
  by (simp add: ensures_def flush_def tenant_frame_def)

lemma ensures_get_or_404 [frame_intros]: "ensures (tenant_frame org) (get_or_404 R sc i)"
  by (auto simp: ensures_def tenant_frame_def dest!: get_or_404_found)

lemma ensures_organization_get [frame_intros]:
  "ensures (tenant_frame org) (organization_get_or_404 i)"
  by (auto simp: organization_get_or_404_def intro!: tenant.ensures_rules frame_intros)

lemmas tenant_rules =
  tenant.ensures_rules frame_intros

section \<open>Requests\<close>

text \<open>A request whose handler stays inside the organization leaves everything foreign as it was,
  whether it returns or raises.\<close>

lemma request_isolated:
  assumes "ensures (tenant_frame org) h" "always uncommitted h"
    and "ids_ok s" "db s = committed s" "get_session h s = (r, s')"
  shows "foreign_view org (db s') = foreign_view org (db s)"
  using get_session_outcome [OF assms(2,4,5)] assms(1,3)
  by (cases r) (auto simp: tenant_frame_def dest: ensuresD)

end
