(* ===== verification/Sla.thy ===== *)
theory Sla
  imports Tenancy
begin

text \<open>
  \<open>src/app/services/sla.py\<close>: the SLA due-at computation, the validation of a business-hours
  payload and \<open>resolve_sla_due_at\<close>, with the constants of \<open>src/app/core/sla_defaults.py\<close>.

  A time zone (\<open>zoneinfo.ZoneInfo\<close>, whose data is not part of the program) is a parameter: the
  two conversions the code uses, from an instant to a wall clock reading with its \<open>fold\<close>, and
  back. \<open>zones name\<close> is \<open>ZoneInfo(name)\<close>, \<open>None\<close> when there is no such zone. Two datetimes
  with the same \<open>tzinfo\<close> are compared by their wall clock readings, as Python does.

  \<open>time.fromisoformat\<close> is modelled for the documented ISO formats (basic and extended, with
  optional seconds, fraction and UTC offset).
\<close>

section \<open>Constants\<close>

definition MAX_WALK_DAYS :: nat where "MAX_WALK_DAYS = 366"

definition DAY_KEYS :: "string list" where
  "DAY_KEYS = [''mon'', ''tue'', ''wed'', ''thu'', ''fri'', ''sat'', ''sun'']"

definition DEFAULT_TIMEZONE :: string where
  "DEFAULT_TIMEZONE = ''America/Argentina/Buenos_Aires''"

definition DEFAULT_BUSINESS_HOURS :: json where
  "DEFAULT_BUSINESS_HOURS =
     (let nine_to_six = JArr [JArr [JStr ''09:00'', JStr ''18:00'']]
      in JObj [(''mon'', nine_to_six), (''tue'', nine_to_six), (''wed'', nine_to_six),
               (''thu'', nine_to_six), (''fri'', nine_to_six)])"

definition day_us :: int where "day_us = 86400 * us_per_second"

section \<open>time.fromisoformat\<close>

definition digit_val :: "char \<Rightarrow> int" where "digit_val c = of_char c - 48"

fun parse2 :: "string \<Rightarrow> (int \<times> string) option" where
  "parse2 (a # b # r) = (if is_digit a \<and> is_digit b then Some (10 * digit_val a + digit_val b, r) else None)"
| "parse2 _ = None"

definition digits_val :: "string \<Rightarrow> int" where
  "digits_val ds = foldl (\<lambda>n c. 10 * n + digit_val c) 0 ds"

definition parse_fraction :: "string \<Rightarrow> int option" where
  "parse_fraction r = (case r of [] \<Rightarrow> Some 0
     | c # ds \<Rightarrow> if (c = CHR ''.'' \<or> c = CHR '','') \<and> ds \<noteq> [] \<and> list_all is_digit ds
                then Some (digits_val (take 6 (ds @ ''000000''))) else None)"

definition clock :: "int \<Rightarrow> int \<Rightarrow> int \<Rightarrow> int \<Rightarrow> int option" where
  "clock h m sec us = (if h < 24 \<and> m < 60 \<and> sec < 60
     then Some ((h * 3600 + m * 60 + sec) * us_per_second + us) else None)"

definition parse_clock :: "string \<Rightarrow> int option" where
  "parse_clock str = (case parse2 str of None \<Rightarrow> None | Some (h, r) \<Rightarrow>
     (case r of [] \<Rightarrow> clock h 0 0 0 | c # r' \<Rightarrow>
        let ext = (c = CHR '':'') in
        (case parse2 (if ext then r' else r) of None \<Rightarrow> None | Some (m, r2) \<Rightarrow>
          (case r2 of [] \<Rightarrow> clock h m 0 0 | c2 # r2' \<Rightarrow>
             if ext \<and> c2 \<noteq> CHR '':'' then None else
             (case parse2 (if ext then r2' else r2) of None \<Rightarrow> None | Some (sec, r3) \<Rightarrow>
               (case parse_fraction r3 of None \<Rightarrow> None | Some us \<Rightarrow> clock h m sec us))))))"

text \<open>A \<open>datetime.time\<close>: microseconds after midnight and the UTC offset, if it has one.\<close>

type_synonym pytime = "int \<times> int option"

definition is_sign :: "char \<Rightarrow> bool" where
  "is_sign c \<longleftrightarrow> c = CHR ''+'' \<or> c = CHR ''-'' \<or> c = CHR ''Z''"

definition time_fromisoformat :: "string \<Rightarrow> pytime option" where
  "time_fromisoformat str =
    (let body = (case str of c # r \<Rightarrow> if c = CHR ''T'' then r else str | [] \<Rightarrow> str);
         hd_part = takeWhile (\<lambda>c. \<not> is_sign c) body;
         tz_part = dropWhile (\<lambda>c. \<not> is_sign c) body
     in case parse_clock hd_part of None \<Rightarrow> None | Some us \<Rightarrow>
        (case tz_part of
           [] \<Rightarrow> Some (us, None)
         | c # off \<Rightarrow>
             if c = CHR ''Z'' then (if off = [] then Some (us, Some 0) else None)
             else map_option (\<lambda>w. (us, Some (if c = CHR ''-'' then - w else w))) (parse_clock off)))"

definition iso_time :: "json \<Rightarrow> error + pytime" where
  "iso_time v = (case v of
      JStr str \<Rightarrow> (case time_fromisoformat str of None \<Rightarrow> Inl ValueError | Some t \<Rightarrow> Inr t)
    | _ \<Rightarrow> Inl TypeError)"

text \<open>Comparing a naive with an aware time raises \<open>TypeError\<close>.\<close>

definition time_less :: "pytime \<Rightarrow> pytime \<Rightarrow> error + bool" where
  "time_less a b = (case (a, b) of
      ((x, None), (y, None)) \<Rightarrow> Inr (x < y)
    | ((x, Some p), (y, Some q)) \<Rightarrow> Inr (x - p < y - q)
    | _ \<Rightarrow> Inl TypeError)"

section \<open>Python values\<close>

fun falsy :: "json \<Rightarrow> bool" where
  "falsy JNull = True"
| "falsy (JBool b) = (\<not> b)"
| "falsy (JInt n) = (n = 0)"
| "falsy (JFloat x) = (x = 0)"
| "falsy (JStr x) = (x = [])"
| "falsy (JArr xs) = (xs = [])"
| "falsy (JObj m) = (m = [])"

text \<open>Iterating a value, and unpacking it into two variables.\<close>

fun iterate :: "json \<Rightarrow> error + json list" where
  "iterate (JArr xs) = Inr xs"
| "iterate (JStr x) = Inr (map (\<lambda>c. JStr [c]) x)"
| "iterate (JObj m) = Inr (map (\<lambda>(k, v). JStr k) m)"
| "iterate _ = Inl TypeError"

definition unpack2 :: "json \<Rightarrow> error + (json \<times> json)" where
  "unpack2 v = (case iterate v of Inl e \<Rightarrow> Inl e
     | Inr [a, b] \<Rightarrow> Inr (a, b) | Inr _ \<Rightarrow> Inl ValueError)"

section \<open>compute_sla_due_at\<close>

text \<open>A local datetime: wall clock reading in microseconds, and \<open>fold\<close>.\<close>

type_synonym ldt = "int \<times> bool"

record zone =
  to_local :: "int \<Rightarrow> ldt"
  to_utc :: "ldt \<Rightarrow> int"

abbreviation wall :: "ldt \<Rightarrow> int" where "wall \<equiv> fst"

definition date_of :: "ldt \<Rightarrow> int" where "date_of c = wall c div day_us"

text \<open>1970-01-01 was a Thursday; Monday is 0.\<close>

definition weekday :: "int \<Rightarrow> nat" where "weekday date = nat ((date + 3) mod 7)"

definition combine :: "int \<Rightarrow> int \<Rightarrow> ldt" where "combine date us = (date * day_us + us, False)"

definition windows_of :: "json \<Rightarrow> nat \<Rightarrow> error + json list" where
  "windows_of bh wd = (case bh of
      JObj m \<Rightarrow> (case map_of m (DAY_KEYS ! wd) of
          None \<Rightarrow> Inr []
        | Some v \<Rightarrow> if falsy v then Inr [] else iterate v)
    | _ \<Rightarrow> Inl TypeError)"

fun walk_windows :: "zone \<Rightarrow> json list \<Rightarrow> ldt \<Rightarrow> int \<Rightarrow> error + (int + ldt \<times> int)" where
  "walk_windows z [] cursor remaining = Inr (Inr (cursor, remaining))"
| "walk_windows z (w # ws) cursor remaining =
    (case unpack2 w of Inl e \<Rightarrow> Inl e | Inr (start, end_) \<Rightarrow>
     (case iso_time start of Inl e \<Rightarrow> Inl e | Inr (start_us, _) \<Rightarrow>
      (case iso_time end_ of Inl e \<Rightarrow> Inl e | Inr (end_us, _) \<Rightarrow>
        let window_start = combine (date_of cursor) start_us;
            window_end = combine (date_of cursor) end_us
        in if wall cursor \<ge> wall window_end then walk_windows z ws cursor remaining
           else let effective_start = (if wall window_start > wall cursor then window_start else cursor);
                    available = to_utc z window_end - to_utc z effective_start
                in if remaining \<le> available then Inr (Inl (to_utc z effective_start + remaining))
                   else walk_windows z ws window_end (remaining - available))))"

fun walk_days :: "zone \<Rightarrow> json \<Rightarrow> nat \<Rightarrow> ldt \<Rightarrow> int \<Rightarrow> error + int" where
  "walk_days z bh 0 cursor remaining = Inl BusinessHoursExhaustedError"
| "walk_days z bh (Suc n) cursor remaining =
    (case windows_of bh (weekday (date_of cursor)) of Inl e \<Rightarrow> Inl e | Inr ws \<Rightarrow>
     (case walk_windows z ws cursor remaining of
        Inl e \<Rightarrow> Inl e
      | Inr (Inl due) \<Rightarrow> Inr due
      | Inr (Inr (cursor', remaining')) \<Rightarrow>
          walk_days z bh n (combine (date_of cursor' + 1) 0) remaining'))"

definition compute_sla_due_at ::
  "(string \<Rightarrow> zone option) \<Rightarrow> int \<Rightarrow> int \<Rightarrow> bool \<Rightarrow> string \<Rightarrow> json \<Rightarrow> error + int" where
  "compute_sla_due_at zones from_timestamp sla_hours respects_business_hours timezone_name business_hours =
    (if \<not> respects_business_hours then Inr (from_timestamp + hours sla_hours)
     else case zones timezone_name of
        None \<Rightarrow> Inl ZoneInfoNotFoundError
      | Some z \<Rightarrow> walk_days z business_hours MAX_WALK_DAYS (to_local z from_timestamp) (hours sla_hours))"

section \<open>parse_business_hours\<close>

text \<open>One day's pairs, in order; the result is the list of its intervals.\<close>

fun parse_pairs :: "json list \<Rightarrow> error + (pytime \<times> pytime) list" where
  "parse_pairs [] = Inr []"
| "parse_pairs (pair # ps) =
    (case pair of
       JArr [start, end_] \<Rightarrow>
         (case iso_time start of Inl _ \<Rightarrow> Inl InvalidBusinessHoursError | Inr start_time \<Rightarrow>
          (case iso_time end_ of Inl _ \<Rightarrow> Inl InvalidBusinessHoursError | Inr end_time \<Rightarrow>
           (case time_less start_time end_time of
              Inl e \<Rightarrow> Inl e
            | Inr False \<Rightarrow> Inl InvalidBusinessHoursError
            | Inr True \<Rightarrow> (case parse_pairs ps of Inl e \<Rightarrow> Inl e | Inr is \<Rightarrow> Inr ((start_time, end_time) # is)))))
     | _ \<Rightarrow> Inl InvalidBusinessHoursError)"

text \<open>\<open>a_start < b_end and b_start < a_end\<close>, short-circuiting.\<close>

definition intervals_overlap :: "pytime \<times> pytime \<Rightarrow> pytime \<times> pytime \<Rightarrow> error + bool" where
  "intervals_overlap a b = (case time_less (fst a) (snd b) of
      Inl e \<Rightarrow> Inl e | Inr False \<Rightarrow> Inr False | Inr True \<Rightarrow> time_less (fst b) (snd a))"

fun overlap_with :: "pytime \<times> pytime \<Rightarrow> (pytime \<times> pytime) list \<Rightarrow> error + unit" where
  "overlap_with a [] = Inr ()"
| "overlap_with a (b # bs) = (case intervals_overlap a b of
     Inl e \<Rightarrow> Inl e | Inr True \<Rightarrow> Inl InvalidBusinessHoursError | Inr False \<Rightarrow> overlap_with a bs)"

fun check_overlaps :: "(pytime \<times> pytime) list \<Rightarrow> error + unit" where
  "check_overlaps [] = Inr ()"
| "check_overlaps (a # as) = (case overlap_with a as of Inl e \<Rightarrow> Inl e | Inr _ \<Rightarrow> check_overlaps as)"

fun parse_day_items :: "(string \<times> json) list \<Rightarrow> bool \<Rightarrow> error + bool" where
  "parse_day_items [] has_any = Inr has_any"
| "parse_day_items ((day_key, pairs) # rest) has_any =
    (if day_key \<notin> set DAY_KEYS then Inl InvalidBusinessHoursError
     else case iterate pairs of Inl e \<Rightarrow> Inl e | Inr ps \<Rightarrow>
      (case parse_pairs ps of Inl e \<Rightarrow> Inl e | Inr intervals \<Rightarrow>
       (case check_overlaps intervals of Inl e \<Rightarrow> Inl e | Inr _ \<Rightarrow>
          parse_day_items rest (has_any \<or> intervals \<noteq> []))))"

definition parse_business_hours :: "json \<Rightarrow> error + unit" where
  "parse_business_hours raw = (case raw of
      JObj items \<Rightarrow> (case parse_day_items items False of
          Inl e \<Rightarrow> Inl e | Inr True \<Rightarrow> Inr () | Inr False \<Rightarrow> Inl InvalidBusinessHoursError)
    | _ \<Rightarrow> Inl TypeError)"

section \<open>resolve_sla_due_at\<close>

definition resolve_sla_due_at ::
  "(string \<Rightarrow> zone option) \<Rightarrow> uuid \<Rightarrow> urgency_level \<Rightarrow> int \<Rightarrow> int service" where
  "resolve_sla_due_at zones org urgency from_timestamp = bind (organization_get_or_404 org) (\<lambda>organization.
     case compute_sla_due_at zones from_timestamp (ul_sla_hours urgency)
            (ul_respects_business_hours urgency) (o_timezone organization) (o_business_hours organization) of
       Inl e \<Rightarrow> throw e | Inr due \<Rightarrow> ret due)"

lemma readonly_resolve_sla_due_at [simp, intro]: "readonly (resolve_sla_due_at zones org urgency ts)"
  unfolding resolve_sla_due_at_def by (intro readonly_rules readonly_organization_get)

end
