(* ===== verification/BusinessHours.thy ===== *)
theory BusinessHours
  imports Sla
begin

text \<open>
  What \<open>compute_sla_due_at\<close> computes, stated without the walk: the instants at which a business
  hours configuration is open (\<open>open_at\<close>), and the open time between two instants
  (\<open>accrued\<close>, the number of open microseconds). For a zone with a constant offset and windows
  listed in order, the due instant is the one at which exactly \<open>sla_hours\<close> of open time have
  accrued, and the walk ends with a result whenever the week's open time is large enough.
\<close>

section \<open>Schedules\<close>

definition window_us :: "json \<Rightarrow> (int \<times> int) option" where
  "window_us w = (case unpack2 w of Inl _ \<Rightarrow> None | Inr (a, b) \<Rightarrow>
     (case iso_time a of Inl _ \<Rightarrow> None | Inr (x, _) \<Rightarrow>
     (case iso_time b of Inl _ \<Rightarrow> None | Inr (y, _) \<Rightarrow> Some (x, y))))"

definition schedule :: "json \<Rightarrow> nat \<Rightarrow> (int \<times> int) list" where
  "schedule bh wd = (case windows_of bh wd of Inl _ \<Rightarrow> [] | Inr ws \<Rightarrow> map (\<lambda>w. the (window_us w)) ws)"

text \<open>Windows of a day listed in order and not overlapping.\<close>

fun in_order :: "int \<Rightarrow> (int \<times> int) list \<Rightarrow> bool" where
  "in_order lo [] \<longleftrightarrow> True"
| "in_order lo ((s, e) # ws) \<longleftrightarrow> lo \<le> s \<and> s < e \<and> e < day_us \<and> in_order e ws"

definition readable_day :: "json \<Rightarrow> nat \<Rightarrow> bool" where
  "readable_day bh wd \<longleftrightarrow> (case windows_of bh wd of Inl _ \<Rightarrow> False
     | Inr ws \<Rightarrow> list_all (\<lambda>w. window_us w \<noteq> None) ws \<and> in_order 0 (map (\<lambda>w. the (window_us w)) ws))"

definition ordered_hours :: "json \<Rightarrow> bool" where
  "ordered_hours bh \<longleftrightarrow> list_all (readable_day bh) [0, 1, 2, 3, 4, 5, 6]"

definition fixed_zone :: "int \<Rightarrow> zone" where
  "fixed_zone off = \<lparr>to_local = (\<lambda>t. (t + off, False)), to_utc = (\<lambda>(w, _). w - off)\<rparr>"

section \<open>Open time\<close>

definition in_windows :: "int \<Rightarrow> (int \<times> int) list \<Rightarrow> int \<Rightarrow> bool" where
  "in_windows date ws t \<longleftrightarrow> list_ex (\<lambda>(s, e). date * day_us + s \<le> t \<and> t < date * day_us + e) ws"

definition open_wall :: "json \<Rightarrow> int \<Rightarrow> bool" where
  "open_wall bh t \<longleftrightarrow> in_windows (t div day_us) (schedule bh (weekday (t div day_us))) t"

definition open_at :: "json \<Rightarrow> int \<Rightarrow> int \<Rightarrow> bool" where
  "open_at bh off t \<longleftrightarrow> open_wall bh (t + off)"

definition accrued :: "json \<Rightarrow> int \<Rightarrow> int \<Rightarrow> int \<Rightarrow> int" where
  "accrued bh off a b = int (card {t. a \<le> t \<and> t < b \<and> open_at bh off t})"

definition weekly_open :: "json \<Rightarrow> int" where
  "weekly_open bh = sum_list (map (\<lambda>wd. sum_list (map (\<lambda>(s, e). e - s) (schedule bh wd))) [0, 1, 2, 3, 4, 5, 6])"

section \<open>Counting instants\<close>

lemma day_us_pos [simp]: "0 < day_us"
  by (simp add: day_us_def us_per_second_def)

lemma day_us_nonzero [simp]: "day_us \<noteq> 0"
  using day_us_pos by linarith

definition count :: "(int \<Rightarrow> bool) \<Rightarrow> int \<Rightarrow> int \<Rightarrow> int" where
  "count P a b = int (card {t. a \<le> t \<and> t < b \<and> P t})"

lemma finite_count [simp]: "finite {t::int. a \<le> t \<and> t < b \<and> P t}"
  by (rule finite_subset [of _ "{a..<b}"]) auto

lemma count_cong: "(\<And>t. a \<le> t \<Longrightarrow> t < b \<Longrightarrow> P t = Q t) \<Longrightarrow> count P a b = count Q a b"
  unfolding count_def by (rule arg_cong [where f = "\<lambda>A. int (card A)"]) auto

lemma count_none: "(\<And>t. a \<le> t \<Longrightarrow> t < b \<Longrightarrow> \<not> P t) \<Longrightarrow> count P a b = 0"
proof -
  assume "\<And>t. a \<le> t \<Longrightarrow> t < b \<Longrightarrow> \<not> P t"
  then have "{t. a \<le> t \<and> t < b \<and> P t} = {}" by auto
  then show ?thesis by (simp add: count_def)
qed

lemma count_all: "a \<le> b \<Longrightarrow> (\<And>t. a \<le> t \<Longrightarrow> t < b \<Longrightarrow> P t) \<Longrightarrow> count P a b = b - a"
proof -
  assume "a \<le> b" and "\<And>t. a \<le> t \<Longrightarrow> t < b \<Longrightarrow> P t"
  then have "{t. a \<le> t \<and> t < b \<and> P t} = {a..<b}" by auto
  with \<open>a \<le> b\<close> show ?thesis by (simp add: count_def)
qed

lemma count_split: "a \<le> m \<Longrightarrow> m \<le> b \<Longrightarrow> count P a b = count P a m + count P m b"
proof -
  assume "a \<le> m" "m \<le> b"
  then have "{t. a \<le> t \<and> t < b \<and> P t} = {t. a \<le> t \<and> t < m \<and> P t} \<union> {t. m \<le> t \<and> t < b \<and> P t}"
    by auto
  moreover have "{t. a \<le> t \<and> t < m \<and> P t} \<inter> {t. m \<le> t \<and> t < b \<and> P t} = {}" by auto
  ultimately show ?thesis by (simp add: count_def card_Un_disjoint)
qed

lemma count_nonneg: "0 \<le> count P a b"
  by (simp add: count_def)

section \<open>One day\<close>

lemma in_windows_after:
  "in_order lo ws \<Longrightarrow> in_windows d ws t \<Longrightarrow> d * day_us + lo \<le> t \<and> t < d * day_us + day_us"
  by (induction lo ws rule: in_order.induct) (fastforce simp: in_windows_def)+

lemma count_skip:
  "d * day_us + e \<le> a \<Longrightarrow> count (in_windows d ((s, e) # ws)) a b = count (in_windows d ws) a b"
  by (rule count_cong) (auto simp: in_windows_def)

lemma count_first:
  assumes "a < d * day_us + e" "in_order e ws" "x = max a (d * day_us + s)" "x \<le> b" "b \<le> d * day_us + e"
  shows "count (in_windows d ((s, e) # ws)) a b = b - x"
proof -
  have "count (in_windows d ((s, e) # ws)) a x = 0"
    using assms in_windows_after [OF assms(2), of d] by (intro count_none) (fastforce simp: in_windows_def)
  moreover have "count (in_windows d ((s, e) # ws)) x b = b - x"
    using assms by (intro count_all) (auto simp: in_windows_def)
  ultimately show ?thesis using count_split [of a x b] assms by simp
qed

lemma count_rest:
  assumes "a < d * day_us + e" "s < e" "in_order e ws" "x = max a (d * day_us + s)" "d * day_us + e \<le> b"
  shows "count (in_windows d ((s, e) # ws)) a b =
    (d * day_us + e - x) + count (in_windows d ws) (d * day_us + e) b"
proof -
  have "count (in_windows d ((s, e) # ws)) a (d * day_us + e) = d * day_us + e - x"
    using assms by (intro count_first [OF assms(1,3,4)]) auto
  moreover have "count (in_windows d ((s, e) # ws)) (d * day_us + e) b =
      count (in_windows d ws) (d * day_us + e) b"
    by (rule count_skip) simp
  ultimately show ?thesis using count_split [of a "d * day_us + e" b] assms by simp
qed

text \<open>The invariant of the window loop, for the rest \<open>ws\<close> of a day's windows.\<close>

definition day_result :: "int \<Rightarrow> int \<Rightarrow> (int \<times> int) list \<Rightarrow> int \<Rightarrow> int \<Rightarrow> error + (int + ldt \<times> int) \<Rightarrow> bool" where
  "day_result off d ws c remaining res \<longleftrightarrow> (case res of
      Inl _ \<Rightarrow> False
    | Inr (Inl due) \<Rightarrow> c < due + off \<and> due + off < (d + 1) * day_us \<and>
        count (in_windows d ws) c (due + off) = remaining \<and> in_windows d ws (due + off - 1)
    | Inr (Inr (cur, remaining')) \<Rightarrow> 0 < remaining' \<and> date_of cur = d \<and>
        remaining = remaining' + count (in_windows d ws) c ((d + 1) * day_us))"

lemma div_day: "0 \<le> x \<Longrightarrow> x < day_us \<Longrightarrow> (d * day_us + x) div day_us = d"
  by (simp add: div_add1_eq)

lemma date_of_eq: "d * day_us \<le> wall c \<Longrightarrow> wall c < (d + 1) * day_us \<Longrightarrow> date_of c = d"
  using div_day [of "wall c - d * day_us" d] by (simp add: date_of_def algebra_simps)

lemma date_of_bounds: "date_of c * day_us \<le> wall c" "wall c < (date_of c + 1) * day_us"
proof -
  have "wall c = date_of c * day_us + wall c mod day_us" by (simp add: date_of_def)
  moreover have "0 \<le> wall c mod day_us" "wall c mod day_us < day_us" by simp_all
  ultimately show "date_of c * day_us \<le> wall c" "wall c < (date_of c + 1) * day_us"
    unfolding distrib_right by linarith+
qed

lemma to_utc_fixed [simp]: "to_utc (fixed_zone off) c = wall c - off"
  by (cases c) (simp add: fixed_zone_def)

lemma window_us_Some:
  "window_us w = Some (s, e) \<Longrightarrow>
     \<exists>a b x y. unpack2 w = Inr (a, b) \<and> iso_time a = Inr (s, x) \<and> iso_time b = Inr (e, y)"
  by (auto simp: window_us_def split: sum.splits prod.splits)

lemma walk_windows_step:
  assumes "window_us w = Some (s, e)" "date_of cur = d"
  shows "walk_windows (fixed_zone off) (w # js) cur remaining =
    (let E = d * day_us + e; x = max (wall cur) (d * day_us + s)
     in if E \<le> wall cur then walk_windows (fixed_zone off) js cur remaining
        else if remaining \<le> E - x then Inr (Inl (x - off + remaining))
        else walk_windows (fixed_zone off) js (E, False) (remaining - (E - x)))"
proof -
  from window_us_Some [OF assms(1)] obtain a b x y
    where "unpack2 w = Inr (a, b)" "iso_time a = Inr (s, x)" "iso_time b = Inr (e, y)" by blast
  then show ?thesis by (simp add: assms(2) combine_def Let_def max_def algebra_simps)
qed

lemma walk_windows_day:
  assumes "list_all2 (\<lambda>w p. window_us w = Some p) js ws" "in_order lo ws" "0 \<le> lo"
    "d * day_us \<le> wall cur" "wall cur < (d + 1) * day_us" "0 < remaining"
  shows "day_result off d ws (wall cur) remaining (walk_windows (fixed_zone off) js cur remaining)"
  using assms
proof (induction js ws arbitrary: cur remaining lo rule: list_all2_induct)
  case Nil
  have "date_of cur = d" using Nil.prems by (intro date_of_eq)
  with Nil.prems show ?case by (simp add: day_result_def count_none in_windows_def)
next
  case (Cons w js p ws)
  obtain s e where p: "p = (s, e)" by force
  with Cons.prems have ord: "lo \<le> s" "s < e" "e < day_us" "in_order e ws" by auto
  have d: "date_of cur = d" using Cons.prems by (intro date_of_eq)
  let ?E = "d * day_us + e" and ?x = "max (wall cur) (d * day_us + s)"
  have E: "d * day_us \<le> ?E" "?E < (d + 1) * day_us" using ord Cons.prems(2) by (auto simp: algebra_simps)
  have step: "walk_windows (fixed_zone off) (w # js) cur remaining =
      (if ?E \<le> wall cur then walk_windows (fixed_zone off) js cur remaining
       else if remaining \<le> ?E - ?x then Inr (Inl (?x - off + remaining))
       else walk_windows (fixed_zone off) js (?E, False) (remaining - (?E - ?x)))"
    using walk_windows_step [OF _ d] Cons.hyps(1) p by (simp add: Let_def)
  show ?case
  proof (cases "?E \<le> wall cur")
    case True
    have "day_result off d ws (wall cur) remaining (walk_windows (fixed_zone off) js cur remaining)"
      using Cons.prems ord by (intro Cons.IH [of e]) auto
    with True show ?thesis unfolding step p
      by (auto simp: day_result_def count_skip in_windows_def split: sum.splits)
  next
    case False
    show ?thesis
    proof (cases "remaining \<le> ?E - ?x")
      case True
      have "count (in_windows d ((s, e) # ws)) (wall cur) (?x + remaining) = ?x + remaining - ?x"
        using False True ord Cons.prems by (intro count_first) auto
      moreover have "in_windows d ((s, e) # ws) (?x + remaining - 1)"
        using True Cons.prems ord by (auto simp: in_windows_def)
      ultimately show ?thesis using True False Cons.prems E unfolding step p
        by (auto simp: day_result_def max_def)
    next
      case short: False
      let ?r = "remaining - (?E - ?x)"
      have IH: "day_result off d ws ?E ?r (walk_windows (fixed_zone off) js (?E, False) ?r)"
        using Cons.IH [of e "(?E, False)" ?r] short ord Cons.prems E by auto
      have rest: "count (in_windows d ((s, e) # ws)) (wall cur) b = (?E - ?x) + count (in_windows d ws) ?E b"
        if "?E \<le> b" for b using False ord that by (intro count_rest) auto
      show ?thesis using IH short False E rest unfolding step p
        by (auto simp: day_result_def in_windows_def split: sum.splits)
    qed
  qed
qed

section \<open>Many days\<close>

lemma weekday_lt: "weekday d < 7"
  by (simp add: weekday_def nat_less_iff)

lemma readable_weekday:
  assumes "ordered_hours bh"
  shows "\<exists>js. windows_of bh (weekday d) = Inr js \<and>
    list_all2 (\<lambda>w p. window_us w = Some p) js (schedule bh (weekday d)) \<and>
    in_order 0 (schedule bh (weekday d))"
proof -
  have "weekday d \<in> set [0, 1, 2, 3, 4, 5, 6]" using weekday_lt [of d] by auto
  with assms have "readable_day bh (weekday d)" by (auto simp: ordered_hours_def list_all_iff)
  then show ?thesis
    by (auto simp: readable_day_def schedule_def list_all2_conv_all_nth list_all_length
        split: sum.splits)
qed

text \<open>Inside day \<open>d\<close> the configuration is open exactly in the windows of that weekday.\<close>

lemma count_open_day:
  assumes "d * day_us \<le> a" "b \<le> (d + 1) * day_us"
  shows "count (open_wall bh) a b = count (in_windows d (schedule bh (weekday d))) a b"
proof (rule count_cong)
  fix t assume "a \<le> t" "t < b"
  with assms have "t div day_us = d" using date_of_eq [of d "(t, False)"] by (simp add: date_of_def)
  then show "open_wall bh t = in_windows d (schedule bh (weekday d)) t" by (simp add: open_wall_def)
qed

definition walk_result :: "json \<Rightarrow> int \<Rightarrow> int \<Rightarrow> int \<Rightarrow> error + int \<Rightarrow> bool" where
  "walk_result bh off c remaining res \<longleftrightarrow> (case res of
      Inl e \<Rightarrow> e = BusinessHoursExhaustedError
    | Inr due \<Rightarrow> c < due + off \<and> count (open_wall bh) c (due + off) = remaining \<and>
        open_wall bh (due + off - 1))"

lemma walk_days_step:
  assumes ord: "ordered_hours bh" and pos: "0 < remaining"
  obtains (due) due where "walk_days (fixed_zone off) bh (Suc n) cur remaining = Inr due"
      "walk_result bh off (wall cur) remaining (Inr due)"
    | (next_day) remaining' where "0 < remaining'"
      "remaining = remaining' + count (open_wall bh) (wall cur) ((date_of cur + 1) * day_us)"
      "walk_days (fixed_zone off) bh (Suc n) cur remaining =
         walk_days (fixed_zone off) bh n ((date_of cur + 1) * day_us, False) remaining'"
proof -
  define d where "d = date_of cur"
  let ?ws = "schedule bh (weekday d)"
  obtain js where js: "windows_of bh (weekday d) = Inr js"
    "list_all2 (\<lambda>w p. window_us w = Some p) js ?ws" "in_order 0 ?ws"
    using readable_weekday [OF ord] by blast
  have d: "d * day_us \<le> wall cur" "wall cur < (d + 1) * day_us"
    using date_of_bounds [of cur] by (simp_all add: d_def)
  have day: "day_result off d ?ws (wall cur) remaining (walk_windows (fixed_zone off) js cur remaining)"
    using walk_windows_day [OF js(2,3) _ d pos] by simp
  have run: "walk_days (fixed_zone off) bh (Suc n) cur remaining =
      (case walk_windows (fixed_zone off) js cur remaining of Inl e \<Rightarrow> Inl e | Inr (Inl due) \<Rightarrow> Inr due
       | Inr (Inr (c, r)) \<Rightarrow> walk_days (fixed_zone off) bh n (combine (date_of c + 1) 0) r)"
    using js(1) by (simp flip: d_def)
  consider e where "walk_windows (fixed_zone off) js cur remaining = Inl e"
    | t where "walk_windows (fixed_zone off) js cur remaining = Inr (Inl t)"
    | c r where "walk_windows (fixed_zone off) js cur remaining = Inr (Inr (c, r))"
    by (metis old.sum.exhaust surj_pair)
  then show thesis
  proof cases
    case 1 with day show thesis by (simp add: day_result_def)
  next
    case (2 t)
    with day have t: "wall cur < t + off" "t + off < (d + 1) * day_us"
      "count (in_windows d ?ws) (wall cur) (t + off) = remaining" "in_windows d ?ws (t + off - 1)"
      by (simp_all add: day_result_def)
    have "(t + off - 1) div day_us = d"
      using t d date_of_eq [of d "(t + off - 1, False)"] by (simp add: date_of_def)
    then have "walk_result bh off (wall cur) remaining (Inr t)"
      using t d count_open_day [of d "wall cur" "t + off" bh]
      by (simp add: walk_result_def open_wall_def)
    with 2 run show thesis by (intro due) simp_all
  next
    case (3 c r)
    with day have "0 < r" "date_of c = d" "remaining = r + count (in_windows d ?ws) (wall cur) ((d + 1) * day_us)"
      by (simp_all add: day_result_def)
    with 3 run show thesis
      using count_open_day [OF d(1), of "(d + 1) * day_us" bh]
      by (intro next_day [of r]) (simp_all add: combine_def d_def)
  qed
qed

lemma walk_days_result:
  assumes "ordered_hours bh" "0 < remaining"
  shows "walk_result bh off (wall cur) remaining (walk_days (fixed_zone off) bh n cur remaining)"
  using assms(2)
proof (induction n arbitrary: cur remaining)
  case 0 then show ?case by (simp add: walk_result_def)
next
  case (Suc n)
  show ?case
  proof (rule walk_days_step [OF assms(1) Suc.prems, of off n cur])
    fix due assume "walk_days (fixed_zone off) bh (Suc n) cur remaining = Inr due"
      "walk_result bh off (wall cur) remaining (Inr due)"
    then show ?thesis by simp
  next
    fix r assume r: "0 < r"
      "remaining = r + count (open_wall bh) (wall cur) ((date_of cur + 1) * day_us)"
      "walk_days (fixed_zone off) bh (Suc n) cur remaining =
         walk_days (fixed_zone off) bh n ((date_of cur + 1) * day_us, False) r"
    let ?m = "(date_of cur + 1) * day_us"
    have "wall cur \<le> ?m" using date_of_bounds(2) [of cur] by simp
    moreover have "walk_result bh off ?m r (walk_days (fixed_zone off) bh n (?m, False) r)"
      using Suc.IH [OF r(1), of "(?m, False)"] by simp
    moreover have "count (open_wall bh) (wall cur) b = count (open_wall bh) (wall cur) ?m + count (open_wall bh) ?m b"
      if "?m < b" for b using \<open>wall cur \<le> ?m\<close> that by (intro count_split) auto
    ultimately show ?thesis unfolding r(3) using r(2)
      by (cases "walk_days (fixed_zone off) bh n (?m, False) r") (auto simp: walk_result_def)
  qed
qed

section \<open>Enough open time\<close>

lemma walk_days_exhausted:
  assumes "ordered_hours bh" "0 < remaining"
    and "walk_days (fixed_zone off) bh (Suc n) cur remaining = Inl e"
  shows "count (open_wall bh) (wall cur) ((date_of cur + 1 + int n) * day_us) < remaining"
  using assms(2,3)
proof (induction n arbitrary: cur remaining)
  case 0
  show ?case
  proof (rule walk_days_step [OF assms(1) 0(1), of off 0 cur])
    fix due assume "walk_days (fixed_zone off) bh (Suc 0) cur remaining = Inr due"
    with 0(2) show ?thesis by simp
  qed simp
next
  case (Suc n)
  show ?case
  proof (rule walk_days_step [OF assms(1) Suc.prems(1), of off "Suc n" cur])
    fix due assume "walk_days (fixed_zone off) bh (Suc (Suc n)) cur remaining = Inr due"
    with Suc.prems(2) show ?thesis by simp
  next
    fix r assume r: "0 < r"
      "remaining = r + count (open_wall bh) (wall cur) ((date_of cur + 1) * day_us)"
      "walk_days (fixed_zone off) bh (Suc (Suc n)) cur remaining =
         walk_days (fixed_zone off) bh (Suc n) ((date_of cur + 1) * day_us, False) r"
    let ?m = "(date_of cur + 1) * day_us"
    have "date_of (?m, False) = date_of cur + 1" by (simp add: date_of_def)
    then have IH: "count (open_wall bh) ?m ((date_of cur + 1 + 1 + int n) * day_us) < r"
      using Suc.IH [OF r(1), of "(?m, False)"] Suc.prems(2) r(3) by simp
    have "?m \<le> (date_of cur + 1 + 1 + int n) * day_us"
      by (intro mult_right_mono) (auto simp: less_imp_le)
    moreover have "wall cur \<le> ?m" using date_of_bounds(2) [of cur] by simp
    ultimately have "count (open_wall bh) (wall cur) ((date_of cur + 1 + 1 + int n) * day_us) < remaining"
      using IH r(2) count_split [of "wall cur" ?m "(date_of cur + 1 + 1 + int n) * day_us" "open_wall bh"]
      by simp
    then show ?thesis by (simp add: algebra_simps)
  qed
qed

definition day_open :: "json \<Rightarrow> nat \<Rightarrow> int" where
  "day_open bh wd = sum_list (map (\<lambda>(s, e). e - s) (schedule bh wd))"

lemma count_in_order:
  "in_order lo ws \<Longrightarrow> lo < day_us \<Longrightarrow>
     count (in_windows d ws) (d * day_us + lo) ((d + 1) * day_us) = sum_list (map (\<lambda>(s, e). e - s) ws)"
proof (induction lo ws rule: in_order.induct)
  case (1 lo) then show ?case by (simp add: count_none in_windows_def)
next
  case (2 lo s e ws)
  then have "count (in_windows d ((s, e) # ws)) (d * day_us + lo) ((d + 1) * day_us) =
      (d * day_us + e - (d * day_us + s)) + count (in_windows d ws) (d * day_us + e) ((d + 1) * day_us)"
    by (intro count_rest) (auto simp: distrib_right)
  with 2 show ?case by simp
qed

lemma count_day:
  assumes "ordered_hours bh"
  shows "count (open_wall bh) (d * day_us) ((d + 1) * day_us) = day_open bh (weekday d)"
  using readable_weekday [OF assms, of d] count_in_order [of 0 "schedule bh (weekday d)" d]
    count_open_day [of d "d * day_us" "(d + 1) * day_us" bh]
  by (auto simp: day_open_def)

lemma weekday_add: "weekday (d + int k) = (weekday d + k) mod 7"
proof -
  have "(d + int k + 3) mod 7 = ((d + 3) mod 7 + int k) mod 7"
    unfolding mod_add_left_eq by (simp add: algebra_simps)
  then have "int (weekday (d + int k)) = int ((weekday d + k) mod 7)"
    by (simp add: weekday_def zmod_int)
  then show ?thesis by (rule of_nat_eq_iff [THEN iffD1])
qed

lemma sum_week:
  fixes f :: "nat \<Rightarrow> int"
  assumes "w < 7"
  shows "(\<Sum>j<7. f ((w + j) mod 7)) = f 0 + f 1 + f 2 + f 3 + f 4 + f 5 + f 6"
proof -
  have seven: "{..<7::nat} = {0, 1, 2, 3, 4, 5, 6}" by auto
  from assms have "w = 0 \<or> w = 1 \<or> w = 2 \<or> w = 3 \<or> w = 4 \<or> w = 5 \<or> w = 6" by linarith
  then show ?thesis unfolding seven by (elim disjE) (simp_all add: numeral_2_eq_2)
qed

lemma weekly_open_days:
  "weekly_open bh = day_open bh 0 + day_open bh 1 + day_open bh 2 + day_open bh 3 + day_open bh 4 +
     day_open bh 5 + day_open bh 6"
  by (simp add: weekly_open_def day_open_def)

lemma count_week:
  assumes "ordered_hours bh"
  shows "count (open_wall bh) (d * day_us) ((d + 7) * day_us) = weekly_open bh"
proof -
  have days: "count (open_wall bh) (d * day_us) ((d + int k) * day_us) =
      (\<Sum>j<k. day_open bh ((weekday d + j) mod 7))" for k
  proof (induction k)
    case 0 then show ?case by (simp add: count_none)
  next
    case (Suc k)
    have "count (open_wall bh) (d * day_us) ((d + int (Suc k)) * day_us) =
        count (open_wall bh) (d * day_us) ((d + int k) * day_us) +
        count (open_wall bh) ((d + int k) * day_us) ((d + int (Suc k)) * day_us)"
      by (intro count_split mult_right_mono) (auto simp: less_imp_le)
    then show ?case using Suc count_day [OF assms, of "d + int k"]
      by (simp add: weekday_add algebra_simps)
  qed
  show ?thesis
    using days [of 7] sum_week [OF weekday_lt, of "day_open bh" d] by (simp add: weekly_open_days)
qed

lemma count_weeks:
  assumes "ordered_hours bh"
  shows "count (open_wall bh) (d * day_us) ((d + 7 * int n) * day_us) = int n * weekly_open bh"
proof (induction n)
  case 0 then show ?case by (simp add: count_none)
next
  case (Suc n)
  have "count (open_wall bh) (d * day_us) ((d + 7 * int (Suc n)) * day_us) =
      count (open_wall bh) (d * day_us) ((d + 7 * int n) * day_us) +
      count (open_wall bh) ((d + 7 * int n) * day_us) ((d + 7 * int (Suc n)) * day_us)"
    by (intro count_split mult_right_mono) (auto simp: less_imp_le)
  then show ?case using Suc count_week [OF assms, of "d + 7 * int n"]
    by (simp add: algebra_simps)
qed

text \<open>366 days from an instant contain 52 full weeks.\<close>

lemma walk_days_returns:
  assumes "ordered_hours bh" "0 < remaining" "remaining \<le> 52 * weekly_open bh"
  shows "\<exists>due. walk_days (fixed_zone off) bh MAX_WALK_DAYS cur remaining = Inr due"
proof (rule ccontr)
  assume "\<not> ?thesis"
  then obtain e where "walk_days (fixed_zone off) bh (Suc 365) cur remaining = Inl e"
    by (auto simp: MAX_WALK_DAYS_def) (metis old.sum.exhaust)
  then have less: "count (open_wall bh) (wall cur) ((date_of cur + 366) * day_us) < remaining"
    using walk_days_exhausted [OF assms(1,2), of off 365 cur e] by (simp add: add.commute)
  let ?m = "(date_of cur + 1) * day_us" and ?e = "(date_of cur + 1 + 7 * int 52) * day_us"
  let ?l = "(date_of cur + 366) * day_us"
  have "count (open_wall bh) (wall cur) ?l =
      count (open_wall bh) (wall cur) ?m + (count (open_wall bh) ?m ?e + count (open_wall bh) ?e ?l)"
    using date_of_bounds(2) [of cur] count_split [of "wall cur" ?m ?l "open_wall bh"]
      count_split [of ?m ?e ?l "open_wall bh"] by (simp add: mult_right_mono)
  then have "52 * weekly_open bh \<le> count (open_wall bh) (wall cur) ?l"
    using count_weeks [OF assms(1), of "date_of cur + 1" 52]
      count_nonneg [of "open_wall bh" "wall cur" ?m] count_nonneg [of "open_wall bh" ?e ?l] by simp
  with less assms(3) show False by simp
qed

lemma accrued_count: "accrued bh off a b = count (open_wall bh) (a + off) (b + off)"
proof -
  have "{t. a + off \<le> t \<and> t < b + off \<and> open_wall bh t} =
      (\<lambda>t. t + off) ` {t. a \<le> t \<and> t < b \<and> open_at bh off t}"
    by (force simp: open_at_def image_iff intro: exI [of _ "x - off" for x])
  then show ?thesis
    by (simp add: accrued_def count_def card_image inj_on_def)
qed

section \<open>What is proved of the SLA computation\<close>

definition one_zone :: "string \<Rightarrow> int \<Rightarrow> string \<Rightarrow> zone option" where
  "one_zone name off = (\<lambda>n. if n = name then Some (fixed_zone off) else None)"

text \<open>C3: with an urgency level that respects business hours, in a zone of constant offset and
  with windows listed in order, the due instant is the one at which exactly \<open>sla_hours\<close> of open
  time have accrued since the start: the open microseconds in \<open>[from, due)\<close> add up to the SLA,
  and the last of them is open. When the clock never pauses, it is the start plus the SLA.\<close>

theorem compute_sla_due_at_accrues:
  assumes "zones tz = Some (fixed_zone off)" "ordered_hours bh" "0 < sla_hours"
    and "compute_sla_due_at zones from sla_hours pauses tz bh = Inr due"
  shows "from < due \<and>
    (if pauses then accrued bh off from due = hours sla_hours \<and> open_at bh off (due - 1)
     else due = from + hours sla_hours)"
proof (cases pauses)
  case True
  have pos: "0 < hours sla_hours" using assms(3) by (simp add: time_defs)
  have "walk_days (fixed_zone off) bh MAX_WALK_DAYS (from + off, False) (hours sla_hours) = Inr due"
    using assms(1,4) True by (simp add: compute_sla_due_at_def fixed_zone_def)
  then have "walk_result bh off (from + off) (hours sla_hours) (Inr due)"
    using walk_days_result [OF assms(2) pos, of off "(from + off, False)" MAX_WALK_DAYS] by simp
  with True show ?thesis by (simp add: walk_result_def accrued_count open_at_def algebra_simps)
next
  case False
  with assms show ?thesis by (auto simp: compute_sla_due_at_def time_defs)
qed

theorem compute_sla_due_at_accrues_witness:
  "\<exists>due. compute_sla_due_at (one_zone ''UTC'' 0) 0 9 True ''UTC'' DEFAULT_BUSINESS_HOURS = Inr due \<and>
     accrued DEFAULT_BUSINESS_HOURS 0 0 due = hours 9"
proof -
  have "compute_sla_due_at (one_zone ''UTC'' 0) 0 9 True ''UTC'' DEFAULT_BUSINESS_HOURS = Inr (hours 18)"
    by code_simp
  moreover have "ordered_hours DEFAULT_BUSINESS_HOURS" by code_simp
  ultimately show ?thesis
    using compute_sla_due_at_accrues [of "one_zone ''UTC'' 0" "''UTC''" 0 DEFAULT_BUSINESS_HOURS 9 0 True "hours 18"]
    by (simp add: one_zone_def)
qed

text \<open>C9: for a zone with a constant offset (\<open>fixed_zone\<close>) and a week whose every day's windows are readable and listed
  in order without overlap (\<open>ordered_hours\<close>), the walk ends with a due instant, never with \<open>BusinessHoursExhaustedError\<close>,
  when the SLA is positive and at most 52 times the week's open time (366 days contain 52 whole weeks). Both hypotheses matter:
  a day whose windows are listed out of order loses the time of every window that ends before the one listed ahead of it,
  so the walk can run out of days although the listed time would suffice.\<close>

theorem compute_sla_due_at_returns:
  assumes "zones tz = Some (fixed_zone off)" "ordered_hours bh" "0 < sla_hours"
    and "hours sla_hours \<le> 52 * weekly_open bh"
  shows "\<exists>due. compute_sla_due_at zones from sla_hours pauses tz bh = Inr due"
proof (cases pauses)
  case True
  have "0 < hours sla_hours" using assms(3) by (simp add: time_defs)
  then show ?thesis
    using walk_days_returns [OF assms(2) _ assms(4), of off "to_local (fixed_zone off) from"] assms(1) True
    by (simp add: compute_sla_due_at_def)
qed (simp add: compute_sla_due_at_def)

theorem compute_sla_due_at_returns_witness:
  "\<exists>due. compute_sla_due_at (one_zone ''UTC'' (- hours 3)) 1704110400000000 120 True ''UTC'' DEFAULT_BUSINESS_HOURS
     = Inr due"
proof -
  have "ordered_hours DEFAULT_BUSINESS_HOURS" by code_simp
  moreover have "hours 120 \<le> 52 * weekly_open DEFAULT_BUSINESS_HOURS" by code_simp
  ultimately show ?thesis
    by (intro compute_sla_due_at_returns) (simp_all add: one_zone_def)
qed

text \<open>The bound is reached by configurations \<open>parse_business_hours\<close> accepts: with one open
  hour a week, the default low-urgency SLA of 120 hours exhausts the walk.\<close>

definition one_hour_a_week :: json where
  "one_hour_a_week = JObj [(''mon'', JArr [JArr [JStr ''09:00'', JStr ''10:00'']])]"

theorem valid_hours_can_exhaust:
  "parse_business_hours one_hour_a_week = Inr () \<and>
   compute_sla_due_at (one_zone ''UTC'' 0) 0 120 True ''UTC'' one_hour_a_week = Inl BusinessHoursExhaustedError"
  by code_simp

text \<open>\<open>parse_business_hours\<close> accepts windows listed out of order, but the walk only moves
  forward, so a window listed after a later one is skipped: with the morning and afternoon of
  Thursday exchanged, an 8 hour SLA opened on Thursday morning is due a week later instead of
  the same afternoon.\<close>

definition split_day :: "bool \<Rightarrow> json" where
  "split_day morning_first =
    (let am = JArr [JStr ''09:00'', JStr ''13:00'']; pm = JArr [JStr ''14:00'', JStr ''18:00'']
     in JObj [(''thu'', JArr (if morning_first then [am, pm] else [pm, am]))])"

theorem window_order_changes_due:
  "parse_business_hours (split_day False) = Inr () \<and>
   compute_sla_due_at (one_zone ''UTC'' 0) (hours 9) 8 True ''UTC'' (split_day True) = Inr (hours 18) \<and>
   compute_sla_due_at (one_zone ''UTC'' 0) (hours 9) 8 True ''UTC'' (split_day False) = Inr (days 7 + hours 18)"
  by code_simp

end
