(* ===== verification/Fixtures.thy ===== *)
theory Fixtures
  imports BusinessHours
begin

text \<open>
  A small concrete installation, used to evaluate the model: organizations 10 and 20 with their
  people, a property let to tenant 13, two urgency levels and two tickets.
\<close>

definition org_a :: organization where
  "org_a = \<lparr>o_id = 10, o_created_at = 0, o_name = ''Acme'', o_chat_widget_key = ''wk-a'',
     o_whatsapp_phone_number_id = None, o_whatsapp_access_token_encrypted = None,
     o_support_email_address = Some ''help@acme.test'', o_timezone = ''UTC'',
     o_business_hours = DEFAULT_BUSINESS_HOURS\<rparr>"

definition org_b :: organization where
  "org_b = org_a\<lparr>o_id := 20, o_name := ''Bolt'', o_chat_widget_key := ''wk-b'', o_support_email_address := None\<rparr>"

definition mk_user :: "uuid \<Rightarrow> uuid \<Rightarrow> string \<Rightarrow> UserRole \<Rightarrow> user" where
  "mk_user i org email rl = \<lparr>u_id = i, u_created_at = 0, u_organization_id = Some org, u_name = email,
     u_email = email, u_role = rl, u_password_hash = Some (''hash-'' @ email), u_status = USER_ACTIVE,
     u_phone_number = None, u_auto_provisioned_channel = None\<rparr>"

definition mk_category :: "uuid \<Rightarrow> uuid \<Rightarrow> category" where
  "mk_category i org = \<lparr>cat_id = i, cat_created_at = 0, cat_organization_id = org, cat_name = ''Billing'',
     cat_description = None, cat_active = True\<rparr>"

definition mk_urgency :: "uuid \<Rightarrow> uuid \<Rightarrow> string \<Rightarrow> int \<Rightarrow> bool \<Rightarrow> urgency_level" where
  "mk_urgency i org name sla pauses = \<lparr>ul_id = i, ul_created_at = 0, ul_organization_id = org, ul_name = name,
     ul_description = None, ul_sla_hours = sla, ul_sort_order = 0, ul_active = True,
     ul_respects_business_hours = pauses\<rparr>"

definition mk_ticket :: "uuid \<Rightarrow> uuid \<Rightarrow> uuid \<Rightarrow> ticket" where
  "mk_ticket i org reporter = \<lparr>t_id = i, t_created_at = 0, t_organization_id = org, t_user_id = reporter,
     t_property_id = None, t_contract_id = None, t_title = ''No heating'', t_description = None,
     t_category_id = None, t_urgency_id = None, t_channel = WEB, t_status = OPEN,
     t_classification_status = PENDING, t_agent_id = None, t_sla_due_at = None, t_closed_at = None,
     t_channel_metadata = None\<rparr>"

definition property_a :: property where
  "property_a = \<lparr>p_id = 30, p_created_at = 0, p_organization_id = 10, p_owner_id = 14,
     p_address = ''1 High St'', p_type = HOUSE, p_deleted_at = None\<rparr>"

definition contract_a :: contract where
  "contract_a = \<lparr>c_id = 31, c_created_at = 0, c_property_id = 30, c_tenant_id = 13, c_start_date = 0,
     c_end_date = 365, c_status = CONTRACT_ACTIVE\<rparr>"

definition demo_db :: database where
  "demo_db = empty_database\<lparr>
     organizations := [org_a, org_b],
     users := [mk_user 11 10 ''admin@acme.test'' ADMIN, mk_user 12 10 ''agent@acme.test'' AGENT,
               mk_user 13 10 ''tenant@acme.test'' TENANT, mk_user 14 10 ''owner@acme.test'' OWNER,
               mk_user 15 10 ''other@acme.test'' TENANT, mk_user 21 20 ''admin@bolt.test'' ADMIN],
     properties := [property_a],
     contracts := [contract_a, contract_a\<lparr>c_id := 32, c_tenant_id := 15, c_status := CONTRACT_EXPIRED\<rparr>],
     categories := [mk_category 40 10, mk_category 41 20],
     urgency_levels := [mk_urgency 50 10 ''High'' 24 False, mk_urgency 51 10 ''Medium'' 48 True],
     tickets := [(mk_ticket 60 10 13)\<lparr>t_property_id := Some 30, t_contract_id := Some 31\<rparr>, mk_ticket 61 20 21]\<rparr>"

definition demo_world :: world where
  "demo_world = \<lparr>db = demo_db, committed = demo_db, now = hours 10, uuids = [100, 101, 102, 103, 104, 105],
     tokens = [''tok-0'', ''tok-1'', ''tok-2''], jobs = [], redis = [], outbox = []\<rparr>"

abbreviation demo_scope :: "uuid \<Rightarrow> UserRole \<Rightarrow> OrgScope" where
  "demo_scope uid rl \<equiv> \<lparr>organization_id = 10, user_id = uid, role = rl\<rparr>"

abbreviation demo_zones :: "string \<Rightarrow> zone option" where
  "demo_zones \<equiv> one_zone ''UTC'' 0"

lemma demo_db_ok: "db_ok demo_db"
  by code_simp

lemma demo_ids_ok: "ids_ok demo_world"
  by code_simp

lemma demo_db_eq [simp]: "db demo_world = demo_db" "committed demo_world = demo_db"
  by (simp_all add: demo_world_def)

end
