(* ===== verification/Tickets.thy ===== *)
theory Tickets
  imports Fixtures
begin

text \<open>
  \<open>src/app/services/ticket_service.py\<close> and \<open>src/app/services/sla_event_service.py\<close>: listing,
  reading, creating (Rule A) and updating (Rule B) tickets, and the writers of \<open>sla_events\<close>.
  The keyword arguments of the Python functions are the arguments here, in the same order;
  \<open>zones\<close> is the time zone database \<open>resolve_sla_due_at\<close> needs. An instance attribute the
  service stashes on the returned ORM object is a component of the returned pair.
\<close>

section \<open>sla_event_service\<close>

definition record_once :: "OrgScope \<Rightarrow> uuid \<Rightarrow> SlaEventType \<Rightarrow> int option \<Rightarrow> uuid option service" where
  "record_once sc tid event due = bind uuid4 (\<lambda>u. bind (reads now) (\<lambda>ts.
     bind (query (\<lambda>d. once_event event \<and>
             list_ex (\<lambda>r. se_ticket_id r = tid \<and> se_event r = event) (sla_events d))) (\<lambda>conflict.
     if conflict then ret None
     else andthen (update_db (sla_events_update (\<lambda>rs. rs @
            [\<lparr>se_id = u, se_organization_id = organization_id sc, se_ticket_id = tid, se_event = event,
              se_occurred_at = ts, se_sla_due_at = due\<rparr>])))
          (andthen flush (ret (Some u))))))"

definition record_resolved :: "OrgScope \<Rightarrow> uuid \<Rightarrow> int option \<Rightarrow> uuid service" where
  "record_resolved sc tid due = bind (reads now) (\<lambda>ts.
     bind (add_row SlaEventRepository sc (\<lambda>u.
       \<lparr>se_id = u, se_organization_id = organization_id sc, se_ticket_id = tid,
        se_event = SLA_EVENT_RESOLVED, se_occurred_at = ts, se_sla_due_at = due\<rparr>)) (\<lambda>r.
     andthen flush (ret (se_id r))))"

section \<open>Reading tickets\<close>

definition list_tickets :: "OrgScope \<Rightarrow> TicketStatus option \<Rightarrow> uuid option \<Rightarrow> uuid option \<Rightarrow>
    uuid option \<Rightarrow> uuid option \<Rightarrow> ticket list service" where
  "list_tickets sc st cat urg agent prop = query (ticket_list sc st cat urg agent prop)"

record ticket_metadata =
  md_predicted_category :: "string option"
  md_confidence :: "real option"
  md_predicted_urgency :: "string option"
  md_urgency_confidence :: "real option"
  md_model_used :: "string option"

definition metadata_of :: "classification option \<Rightarrow> ticket_metadata" where
  "metadata_of c =
    \<lparr>md_predicted_category = Option.bind c cl_predicted_category,
     md_confidence = Option.bind c cl_confidence,
     md_predicted_urgency = Option.bind c cl_predicted_urgency,
     md_urgency_confidence = Option.bind c cl_urgency_confidence,
     md_model_used = Option.bind c cl_model_used\<rparr>"

definition get_ticket :: "OrgScope \<Rightarrow> uuid \<Rightarrow> (ticket \<times> ticket_metadata) service" where
  "get_ticket sc tid = bind (get_or_404 TicketRepository sc (Some tid)) (\<lambda>ticket.
     bind (get_by_ticket_id sc tid) (\<lambda>classification. ret (ticket, metadata_of classification)))"

section \<open>create_ticket\<close>

definition optional_lookup :: "'r repository \<Rightarrow> OrgScope \<Rightarrow> uuid option \<Rightarrow> 'r option service" where
  "optional_lookup R sc i = (case i of None \<Rightarrow> ret None
     | Some _ \<Rightarrow> bind (get_or_404 R sc i) (\<lambda>r. ret (Some r)))"

text \<open>The taxonomy lookups run only when both ids are given.\<close>

definition active_taxonomy :: "OrgScope \<Rightarrow> uuid option \<Rightarrow> uuid option \<Rightarrow> urgency_level option service" where
  "active_taxonomy sc category_id urgency_id =
    (if category_id \<noteq> None \<and> urgency_id \<noteq> None
     then bind (get_or_404 CategoryRepository sc category_id) (\<lambda>category.
          andthen (throw_if (\<not> cat_active category) CategoryInactiveError)
          (bind (get_or_404 UrgencyLevelRepository sc urgency_id) (\<lambda>urgency.
          andthen (throw_if (\<not> ul_active urgency) UrgencyInactiveError) (ret (Some urgency)))))
     else ret None)"

definition create_ticket :: "(string \<Rightarrow> zone option) \<Rightarrow> OrgScope \<Rightarrow> uuid option \<Rightarrow> uuid option \<Rightarrow> string \<Rightarrow>
    string option \<Rightarrow> uuid option \<Rightarrow> uuid option \<Rightarrow> TicketChannel \<Rightarrow> ticket service" where
  "create_ticket zones sc property_id contract_id title description category_id urgency_id channel =
    bind (optional_lookup PropertyRepository sc property_id) (\<lambda>prop.
    bind (optional_lookup ContractRepository sc contract_id) (\<lambda>contract.
    andthen (throw_if (case (prop, contract) of (Some p, Some c) \<Rightarrow> c_property_id c \<noteq> p_id p | _ \<Rightarrow> False)
               ContractPropertyMismatchError)
    (andthen (throw_if (case contract of Some c \<Rightarrow> c_status c \<noteq> CONTRACT_ACTIVE | None \<Rightarrow> False)
               ContractNotActiveError)
    (bind (active_taxonomy sc category_id urgency_id) (\<lambda>urgency.
    andthen (throw_if (case contract of Some c \<Rightarrow> role sc = TENANT \<and> c_tenant_id c \<noteq> user_id sc | None \<Rightarrow> False)
               (NotFoundError ''Contract'' contract_id))
    (bind (reads now) (\<lambda>anchor.
    bind (case urgency of None \<Rightarrow> ret None
          | Some ul \<Rightarrow> bind (resolve_sla_due_at zones (organization_id sc) ul anchor) (\<lambda>due. ret (Some due))) (\<lambda>due.
    bind (add_row TicketRepository sc (\<lambda>u.
      \<lparr>t_id = u, t_created_at = anchor, t_organization_id = organization_id sc, t_user_id = user_id sc,
       t_property_id = property_id, t_contract_id = contract_id, t_title = title,
       t_description = description, t_category_id = category_id, t_urgency_id = urgency_id,
       t_channel = channel, t_status = OPEN, t_classification_status = PENDING, t_agent_id = None,
       t_sla_due_at = due, t_closed_at = None, t_channel_metadata = None\<rparr>)) (\<lambda>ticket.
    andthen flush (ret ticket))))))))))"

section \<open>update_ticket\<close>

definition terminal :: "TicketStatus \<Rightarrow> bool" where
  "terminal st \<longleftrightarrow> st = RESOLVED \<or> st = CLOSED"

definition agent_change :: "OrgScope \<Rightarrow> uuid option \<Rightarrow> (ticket \<Rightarrow> ticket) service" where
  "agent_change sc agent_id = (case agent_id of None \<Rightarrow> ret id
     | Some a \<Rightarrow> bind (get_or_404 UserRepository sc (Some a)) (\<lambda>agent.
         andthen (throw_if (u_role agent \<notin> set staff_roles) InvalidAgentError)
                 (ret (\<lambda>t. t\<lparr>t_agent_id := Some a\<rparr>))))"

definition status_change :: "TicketStatus option \<Rightarrow> int \<Rightarrow> ticket \<Rightarrow> ticket" where
  "status_change st ts t = (case st of None \<Rightarrow> t
     | Some x \<Rightarrow> t\<lparr>t_status := x, t_closed_at := (if x = CLOSED then Some ts else None)\<rparr>)"

definition taxonomy_change :: "(string \<Rightarrow> zone option) \<Rightarrow> OrgScope \<Rightarrow> ticket \<Rightarrow> uuid \<Rightarrow> uuid option \<Rightarrow>
    uuid option \<Rightarrow> (ticket \<Rightarrow> ticket) service" where
  "taxonomy_change zones sc ticket tid category_id urgency_id =
    (if category_id \<noteq> None \<or> urgency_id \<noteq> None
     then let effective_urgency_id = (if urgency_id \<noteq> None then urgency_id else t_urgency_id ticket)
          in bind (get_or_404 UrgencyLevelRepository sc effective_urgency_id) (\<lambda>urgency.
             bind (resolve_sla_due_at zones (organization_id sc) urgency (t_created_at ticket)) (\<lambda>due.
             andthen (mark_human_corrected tid)
               (ret (\<lambda>t. t\<lparr>t_category_id := (if category_id \<noteq> None then category_id else t_category_id ticket),
                           t_urgency_id := effective_urgency_id, t_sla_due_at := Some due\<rparr>))))
     else ret id)"

definition update_ticket :: "(string \<Rightarrow> zone option) \<Rightarrow> OrgScope \<Rightarrow> uuid \<Rightarrow> TicketStatus option \<Rightarrow>
    uuid option \<Rightarrow> uuid option \<Rightarrow> uuid option \<Rightarrow> (ticket \<times> bool) service" where
  "update_ticket zones sc tid status agent_id category_id urgency_id =
    andthen (throw_if (agent_id \<noteq> None \<and> \<not> is_staff sc) ForbiddenError)
    (andthen (throw_if (status \<in> {Some RESOLVED, Some CLOSED} \<and> \<not> is_staff sc) ForbiddenError)
    (andthen (throw_if ((category_id \<noteq> None \<or> urgency_id \<noteq> None) \<and> \<not> is_staff sc) ForbiddenError)
    (bind (get_or_404 TicketRepository sc (Some tid)) (\<lambda>ticket.
    bind (agent_change sc agent_id) (\<lambda>set_agent.
    bind (reads now) (\<lambda>ts.
    bind (taxonomy_change zones sc ticket tid category_id urgency_id) (\<lambda>set_taxonomy.
    bind (update_row TicketRepository sc tid
            (\<lambda>t. set_taxonomy (status_change status ts (set_agent t)))) (\<lambda>updated.
    let entered = (case status of None \<Rightarrow> False | Some x \<Rightarrow> terminal x \<and> t_status ticket \<noteq> x)
    in if entered
       then andthen (record_resolved sc (t_id updated) (t_sla_due_at updated)) (ret (updated, True))
       else ret (updated, False)))))))))"

section \<open>Read-only parts\<close>

lemma readonly_optional_lookup [simp, intro]: "readonly (optional_lookup R sc i)"
  unfolding optional_lookup_def by (intro readonly_rules readonly_get_or_404)

lemma readonly_active_taxonomy [simp, intro]: "readonly (active_taxonomy sc cat urg)"
  unfolding active_taxonomy_def by (intro readonly_rules readonly_get_or_404)

lemma readonly_agent_change [simp, intro]: "readonly (agent_change sc a)"
  unfolding agent_change_def by (intro readonly_rules readonly_get_or_404)

lemma readonly_list_tickets: "readonly (list_tickets sc st cat urg agent prop)"
  unfolding list_tickets_def by (intro readonly_session)

lemma readonly_get_ticket: "readonly (get_ticket sc tid)"
  unfolding get_ticket_def get_by_ticket_id_def
  by (intro readonly_rules readonly_get_or_404 readonly_session)

section \<open>Writes stay inside the organization\<close>

lemma ensures_record_once: "ensures (tenant_frame (organization_id sc)) (record_once sc tid event due)"
proof (rule ensuresI)
  fix s x s' assume run: "record_once sc tid event due s = (Inr x, s')"
  then obtain u us where u: "uuids s = u # us"
    by (cases "uuids s") (auto simp: record_once_def run_simps)
  let ?r = "\<lparr>se_id = u, se_organization_id = organization_id sc, se_ticket_id = tid, se_event = event,
              se_occurred_at = now s, se_sla_due_at = due\<rparr>"
  have "s' = s\<lparr>uuids := us\<rparr> \<or>
      s' = s\<lparr>uuids := us, db := upd_rows SlaEventRepository (\<lambda>rs. rs @ [?r]) (db s)\<rparr>"
    using run u by (auto simp: record_once_def run_simps SlaEventRepository_def split: if_splits)
  then show "tenant_frame (organization_id sc) s s'"
    using tenant_frame_draw [OF u] tenant_sla_events.tenant_frame_insert [OF u, of ?r]
    by (auto simp: SlaEventRepository_def)
qed

lemma ensures_record_resolved:
  "ensures (tenant_frame (organization_id sc)) (record_resolved sc tid due)"
  unfolding record_resolved_def
  by (intro tenant_rules tenant_sla_events.ensures_add_row) (simp add: SlaEventRepository_def)

lemma ensures_create_ticket:
  "ensures (tenant_frame (organization_id sc))
     (create_ticket zones sc property_id contract_id title description category_id urgency_id channel)"
  unfolding create_ticket_def
  by (intro tenant_rules tenant.ensures_readonly readonly_optional_lookup readonly_active_taxonomy
      readonly_resolve_sla_due_at tenant_tickets.ensures_add_row) simp_all

lemma t_id_agent_change: "agent_change sc a s = (Inr f, s') \<Longrightarrow> t_id (f t) = t_id t"
  by (auto simp: agent_change_def run_simps elim!: bind_InrE split: option.splits if_splits)

lemma t_id_status_change [simp]: "t_id (status_change st ts t) = t_id t"
  by (simp add: status_change_def split: option.splits)

lemma t_id_taxonomy_change:
  "taxonomy_change zones sc ticket tid cat urg s = (Inr f, s') \<Longrightarrow> t_id (f t) = t_id t"
  by (auto simp: taxonomy_change_def Let_def run_simps elim!: bind_InrE split: if_splits)

text \<open>A run of \<open>update_ticket\<close> that returns went through these steps.\<close>

lemma update_ticket_InrE:
  assumes "update_ticket zones sc tid status agent_id category_id urgency_id s = (Inr (updated, entered), s')"
  obtains ticket set_agent set_taxonomy s1 s2 where
    "agent_id = None \<or> is_staff sc" "status \<in> {Some RESOLVED, Some CLOSED} \<longrightarrow> is_staff sc"
    "category_id \<noteq> None \<or> urgency_id \<noteq> None \<longrightarrow> is_staff sc"
    "get_or_404 TicketRepository sc (Some tid) s = (Inr ticket, s)"
    "agent_change sc agent_id s = (Inr set_agent, s)"
    "taxonomy_change zones sc ticket tid category_id urgency_id s = (Inr set_taxonomy, s1)"
    "update_row TicketRepository sc tid
       (\<lambda>t. set_taxonomy (status_change status (now s) (set_agent t))) s1 = (Inr updated, s2)"
    "entered = (case status of None \<Rightarrow> False | Some x \<Rightarrow> terminal x \<and> t_status ticket \<noteq> x)"
    "if entered then (\<exists>e. record_resolved sc (t_id updated) (t_sla_due_at updated) s2 = (Inr e, s')) else s' = s2"
proof -
  note steps = assms [unfolded update_ticket_def]
  from steps have gates: "agent_id = None \<or> is_staff sc" "status \<in> {Some RESOLVED, Some CLOSED} \<longrightarrow> is_staff sc"
    "category_id \<noteq> None \<or> urgency_id \<noteq> None \<longrightarrow> is_staff sc"
    by (auto dest!: andthen_raise_if_InrD)
  note body = steps [THEN andthen_raise_if_InrD, THEN conjunct2, THEN andthen_raise_if_InrD, THEN conjunct2,
      THEN andthen_raise_if_InrD, THEN conjunct2]
  from body show thesis
    apply (rule bind_readonly_InrE, intro readonly_get_or_404)
    apply (erule bind_readonly_InrE, rule readonly_agent_change)
    apply (drule bind_reads_InrD)
    apply (erule bind_InrE)
    apply (erule bind_InrE)
    apply (rule that [OF gates], assumption+)
     apply (auto simp: Let_def andthen_run ret_run elim!: bind_InrE split: if_splits)
    done
qed

lemma ensures_update_ticket:
  "ensures (tenant_frame (organization_id sc))
     (update_ticket zones sc tid status agent_id category_id urgency_id)"
proof (rule ensuresI)
  fix s x s' assume "update_ticket zones sc tid status agent_id category_id urgency_id s = (Inr x, s')"
  then obtain updated entered
    where run: "update_ticket zones sc tid status agent_id category_id urgency_id s = (Inr (updated, entered), s')"
    by (cases x) auto
  show "tenant_frame (organization_id sc) s s'"
    using run
  proof (rule update_ticket_InrE)
    fix ticket set_agent set_taxonomy s1 s2
    assume g: "get_or_404 TicketRepository sc (Some tid) s = (Inr ticket, s)"
      and a: "agent_change sc agent_id s = (Inr set_agent, s)"
      and t: "taxonomy_change zones sc ticket tid category_id urgency_id s = (Inr set_taxonomy, s1)"
      and u: "update_row TicketRepository sc tid
        (\<lambda>t. set_taxonomy (status_change status (now s) (set_agent t))) s1 = (Inr updated, s2)"
      and e: "if entered then (\<exists>e. record_resolved sc (t_id updated) (t_sla_due_at updated) s2 = (Inr e, s')) else s' = s2"
    have own: "ticket \<in> set (tickets (db s))" "t_organization_id ticket = organization_id sc" "t_id ticket = tid"
      using get_or_404_found [OF g] by (auto simp: ticket_visible_def)
    have "tenant_frame (organization_id sc) s s1"
      using t own tenant_frame_mark_human_corrected [of ticket s "organization_id sc"]
      by (auto simp: taxonomy_change_def Let_def andthen_run ret_run elim!: bind_InrE split: if_splits
          dest!: readonlyD [OF readonly_get_or_404] readonlyD [OF readonly_resolve_sla_due_at]
          intro: tenant.refl)
    moreover have "tenant_frame (organization_id sc) s1 s2"
      using t_id_agent_change [OF a] t_id_taxonomy_change [OF t]
      by (intro ensuresD [OF tenant_tickets.ensures_update_row u]) simp
    moreover have "tenant_frame (organization_id sc) s2 s'"
      using e ensuresD [OF ensures_record_resolved] by (auto intro: tenant.refl split: if_splits)
    ultimately show ?thesis by (blast intro: tenant.trans)
  qed
qed

lemma uncommitted_sla_events [simp, intro]:
  "always uncommitted (record_once sc tid event due)" "always uncommitted (record_resolved sc tid due)"
  unfolding record_once_def record_resolved_def
  by (intro uncommitted_rules uncommitted.always_readonly [OF readonly_session(1)] uncommitted_repository)+

lemma uncommitted_create_ticket [simp, intro]:
  "always uncommitted (create_ticket zones sc property_id contract_id title description category_id urgency_id channel)"
  unfolding create_ticket_def
  by (intro uncommitted_rules uncommitted_repository uncommitted.always_readonly [OF readonly_optional_lookup]
      uncommitted.always_readonly [OF readonly_active_taxonomy]
      uncommitted.always_readonly [OF readonly_resolve_sla_due_at])

lemma uncommitted_update_ticket [simp, intro]:
  "always uncommitted (update_ticket zones sc tid status agent_id category_id urgency_id)"
  unfolding update_ticket_def taxonomy_change_def mark_human_corrected_def Let_def
  by (intro uncommitted_rules uncommitted_repository uncommitted.always_readonly [OF readonly_agent_change]
      uncommitted.always_readonly [OF readonly_resolve_sla_due_at] uncommitted_sla_events)

section \<open>What Rule A accepts\<close>

text \<open>The conditions of \<open>create_ticket\<close>'s docstring, as statements about the database.\<close>

definition rule_a_property :: "OrgScope \<Rightarrow> uuid \<Rightarrow> property \<Rightarrow> bool" where
  "rule_a_property sc pid p \<longleftrightarrow> p_id p = pid \<and> p_organization_id p = organization_id sc \<and> p_deleted_at p = None"

definition rule_a_contract :: "OrgScope \<Rightarrow> database \<Rightarrow> uuid option \<Rightarrow> uuid \<Rightarrow> contract \<Rightarrow> bool" where
  "rule_a_contract sc d pid cid c \<longleftrightarrow> c_id c = cid \<and>
     (\<exists>p\<in>set (properties d). p_id p = c_property_id c \<and> p_organization_id p = organization_id sc) \<and>
     (pid = None \<or> pid = Some (c_property_id c)) \<and> c_status c = CONTRACT_ACTIVE \<and>
     (role sc = TENANT \<longrightarrow> c_tenant_id c = user_id sc)"

definition rule_a_taxonomy :: "OrgScope \<Rightarrow> database \<Rightarrow> uuid \<Rightarrow> uuid \<Rightarrow> urgency_level \<Rightarrow> bool" where
  "rule_a_taxonomy sc d cat urg ul \<longleftrightarrow>
     (\<exists>k\<in>set (categories d). cat_id k = cat \<and> cat_organization_id k = organization_id sc \<and> cat_active k) \<and>
     ul_id ul = urg \<and> ul_organization_id ul = organization_id sc \<and> ul_active ul"

definition rule_a :: "OrgScope \<Rightarrow> uuid option \<Rightarrow> uuid option \<Rightarrow> uuid option \<Rightarrow> uuid option \<Rightarrow> database \<Rightarrow> bool" where
  "rule_a sc pid cid cat urg d \<longleftrightarrow>
     (\<forall>i. pid = Some i \<longrightarrow> (\<exists>p\<in>set (properties d). rule_a_property sc i p)) \<and>
     (\<forall>i. cid = Some i \<longrightarrow> (\<exists>c\<in>set (contracts d). rule_a_contract sc d pid i c)) \<and>
     (\<forall>c u. cat = Some c \<longrightarrow> urg = Some u \<longrightarrow> (\<exists>ul\<in>set (urgency_levels d). rule_a_taxonomy sc d c u ul))"

definition new_ticket :: "OrgScope \<Rightarrow> uuid \<Rightarrow> int \<Rightarrow> uuid option \<Rightarrow> uuid option \<Rightarrow> string \<Rightarrow> string option \<Rightarrow>
    uuid option \<Rightarrow> uuid option \<Rightarrow> TicketChannel \<Rightarrow> int option \<Rightarrow> ticket" where
  "new_ticket sc u ts pid cid title descr cat urg ch due =
    \<lparr>t_id = u, t_created_at = ts, t_organization_id = organization_id sc, t_user_id = user_id sc,
     t_property_id = pid, t_contract_id = cid, t_title = title, t_description = descr,
     t_category_id = cat, t_urgency_id = urg, t_channel = ch, t_status = OPEN,
     t_classification_status = PENDING, t_agent_id = None, t_sla_due_at = due, t_closed_at = None,
     t_channel_metadata = None\<rparr>"

lemma property_found_iff:
  "get_or_404 PropertyRepository sc (Some i) s = (Inr p, s') \<Longrightarrow>
     s' = s \<and> p \<in> set (properties (db s)) \<and> rule_a_property sc i p"
  by (drule get_or_404_found) (auto simp: PropertyRepository_def rule_a_property_def)

lemma contract_found_iff:
  "get_or_404 ContractRepository sc (Some i) s = (Inr c, s') \<Longrightarrow>
     s' = s \<and> c \<in> set (contracts (db s)) \<and> c_id c = i \<and>
     (\<exists>p\<in>set (properties (db s)). p_id p = c_property_id c \<and> p_organization_id p = organization_id sc)"
  by (drule get_or_404_found) (auto simp: ContractRepository_def join_exists_clause_def list_ex_iff)

lemma taxonomy_found:
  assumes "active_taxonomy sc (Some c) (Some u) s = (Inr ul, s')"
  shows "\<exists>x\<in>set (urgency_levels (db s)). ul = Some x \<and> rule_a_taxonomy sc (db s) c u x"
  using assms
  by (auto simp: active_taxonomy_def rule_a_taxonomy_def run_simps CategoryRepository_def
      UrgencyLevelRepository_def elim!: bind_InrE dest!: get_or_404_found split: if_splits) blast

lemma optional_lookup_InrE:
  assumes "optional_lookup R sc i s = (Inr r, s')"
  obtains (none) "i = None" "r = None" "s' = s"
    | (some) k x where "i = Some k" "r = Some x" "get_or_404 R sc (Some k) s = (Inr x, s)" "s' = s"
proof (cases i)
  case None
  with assms none show thesis by (simp add: optional_lookup_def ret_run)
next
  case (Some k)
  with assms have "bind (get_or_404 R sc (Some k)) (\<lambda>r. ret (Some r)) s = (Inr r, s')"
    by (simp add: optional_lookup_def)
  then obtain x where "get_or_404 R sc (Some k) s = (Inr x, s)" "r = Some x" "s' = s"
    by (auto simp: ret_run elim!: bind_readonly_InrE [OF _ readonly_get_or_404])
  with Some some show thesis by simp
qed

text \<open>A run of \<open>create_ticket\<close> that returns went through these steps.\<close>

lemma create_ticket_InrE:
  assumes "create_ticket zones sc pid cid title descr cat urg ch s = (Inr t, s')"
  obtains pr contract urgency due u us where
    "optional_lookup PropertyRepository sc pid s = (Inr pr, s)"
    "optional_lookup ContractRepository sc cid s = (Inr contract, s)"
    "\<not> (case (pr, contract) of (Some p, Some c) \<Rightarrow> c_property_id c \<noteq> p_id p | _ \<Rightarrow> False)"
    "\<not> (case contract of Some c \<Rightarrow> c_status c \<noteq> CONTRACT_ACTIVE | None \<Rightarrow> False)"
    "active_taxonomy sc cat urg s = (Inr urgency, s)"
    "\<not> (case contract of Some c \<Rightarrow> role sc = TENANT \<and> c_tenant_id c \<noteq> user_id sc | None \<Rightarrow> False)"
    "(case urgency of None \<Rightarrow> due = None
      | Some ul \<Rightarrow> \<exists>x. resolve_sla_due_at zones (organization_id sc) ul (now s) s = (Inr x, s) \<and> due = Some x)"
    "uuids s = u # us" "t = new_ticket sc u (now s) pid cid title descr cat urg ch due"
    "s' = s\<lparr>uuids := us, db := (db s)\<lparr>tickets := tickets (db s) @ [t]\<rparr>\<rparr>" "db_ok (db s')"
  using assms unfolding create_ticket_def
  apply (rule bind_readonly_InrE, intro readonly_optional_lookup)
  apply (erule bind_readonly_InrE, intro readonly_optional_lookup)
  apply (drule andthen_raise_if_InrD, erule conjE)
  apply (drule andthen_raise_if_InrD, erule conjE)
  apply (erule bind_readonly_InrE, intro readonly_active_taxonomy)
  apply (drule andthen_raise_if_InrD, erule conjE)
  apply (drule bind_reads_InrD)
  apply (erule bind_readonly_InrE, intro readonly_rules readonly_resolve_sla_due_at)
  apply (erule bind_InrE)
  apply (erule ticket_repo.add_row_Inr)
  apply (rule that, assumption+)
      apply (auto simp: ret_run andthen_run bind_flush new_ticket_def TicketRepository_def
        elim!: bind_readonly_InrE [OF _ readonly_resolve_sla_due_at] split: option.splits if_splits)
  done

lemma create_ticket_rule_a:
  assumes "create_ticket zones sc pid cid title descr cat urg ch s = (Inr t, s')"
  shows "rule_a sc pid cid cat urg (db s)"
  using assms
proof (rule create_ticket_InrE)
  fix pr contract urgency due u us
  assume p: "optional_lookup PropertyRepository sc pid s = (Inr pr, s)"
    and c: "optional_lookup ContractRepository sc cid s = (Inr contract, s)"
    and chk: "\<not> (case (pr, contract) of (Some p, Some c) \<Rightarrow> c_property_id c \<noteq> p_id p | _ \<Rightarrow> False)"
      "\<not> (case contract of Some c \<Rightarrow> c_status c \<noteq> CONTRACT_ACTIVE | None \<Rightarrow> False)"
      "\<not> (case contract of Some c \<Rightarrow> role sc = TENANT \<and> c_tenant_id c \<noteq> user_id sc | None \<Rightarrow> False)"
    and tax: "active_taxonomy sc cat urg s = (Inr urgency, s)"
  have P: "\<exists>x. pr = Some x \<and> x \<in> set (properties (db s)) \<and> rule_a_property sc i x" if "pid = Some i" for i
    using p that by (elim optional_lookup_InrE) (auto dest!: property_found_iff)
  have N: "pr = None" if "pid = None" using p that by (elim optional_lookup_InrE) auto
  have "\<exists>x\<in>set (contracts (db s)). rule_a_contract sc (db s) pid i x" if "cid = Some i" for i
  proof -
    from c that obtain x where x: "contract = Some x" "get_or_404 ContractRepository sc (Some i) s = (Inr x, s)"
      by (elim optional_lookup_InrE) auto
    from contract_found_iff [OF x(2)] chk x(1) P N show ?thesis
      by (cases pid) (auto simp: rule_a_contract_def rule_a_property_def intro!: bexI [of _ x])
  qed
  moreover have "\<exists>ul\<in>set (urgency_levels (db s)). rule_a_taxonomy sc (db s) k v ul"
    if "cat = Some k" "urg = Some v" for k v
    using tax that by (auto dest!: taxonomy_found)
  moreover have "\<exists>x\<in>set (properties (db s)). rule_a_property sc i x" if "pid = Some i" for i
    using P [OF that] by blast
  ultimately show ?thesis by (simp add: rule_a_def)
qed

section \<open>Rule A is enough\<close>

lemma db_ok_distinct:
  assumes "db_ok d"
  shows "distinct (map p_id (properties d))" "distinct (map c_id (contracts d))"
    "distinct (map cat_id (categories d))" "distinct (map ul_id (urgency_levels d))"
    "distinct (map t_id (tickets d))" "distinct (map o_id (organizations d))" "distinct (map u_id (users d))"
  using assms by (simp_all add: db_ok_def table_ok_defs)

lemma db_ok_insert_ticket:
  assumes "db_ok d" "ticket_row_ok t" "t_id t \<notin> set (ticket_pks d)"
    "t_organization_id t \<in> set (org_pks d)" "t_user_id t \<in> set (user_pks d)"
    "t_agent_id t = None"
    "\<forall>k. t_property_id t = Some k \<longrightarrow> k \<in> set (property_pks d)"
    "\<forall>k. t_contract_id t = Some k \<longrightarrow> k \<in> set (contract_pks d)"
    "\<forall>k. t_category_id t = Some k \<longrightarrow> k \<in> set (category_pks d)"
    "\<forall>k. t_urgency_id t = Some k \<longrightarrow> k \<in> set (urgency_pks d)"
  shows "db_ok (tickets_update (\<lambda>rs. rs @ [t]) d)"
proof -
  have "tickets_ok (tickets_update (\<lambda>rs. rs @ [t]) d)"
    using assms by (simp add: db_ok_def tickets_ok_def split: option.splits)
  with assms(1) show ?thesis
    by (simp add: db_ok_def table_ok_defs)
qed

lemma optional_property:
  assumes "db_ok (db s)" "\<forall>i. pid = Some i \<longrightarrow> (\<exists>p\<in>set (properties (db s)). rule_a_property sc i p)"
  obtains pr where "optional_lookup PropertyRepository sc pid s = (Inr pr, s)" "map_option p_id pr = pid"
proof (cases pid)
  case None with that [of None] show thesis by (simp add: optional_lookup_def ret_run)
next
  case (Some i)
  with assms(2) obtain p where p: "p \<in> set (properties (db s))" "rule_a_property sc i p" by auto
  have "get_or_404 PropertyRepository sc (Some (pk PropertyRepository p)) s = (Inr p, s)"
    using p db_ok_distinct(1) [OF assms(1)]
    by (intro get_or_404_visible) (auto simp: PropertyRepository_def rule_a_property_def)
  with p Some that [of "Some p"] show thesis
    by (simp add: optional_lookup_def bind_Inr ret_run PropertyRepository_def rule_a_property_def)
qed

lemma optional_contract:
  assumes "db_ok (db s)" "\<forall>i. cid = Some i \<longrightarrow> (\<exists>c\<in>set (contracts (db s)). rule_a_contract sc (db s) pid i c)"
  obtains co where "optional_lookup ContractRepository sc cid s = (Inr co, s)"
    "\<forall>c. co = Some c \<longrightarrow> (\<exists>i. rule_a_contract sc (db s) pid i c)" "map_option c_id co = cid"
proof (cases cid)
  case None with that [of None] show thesis by (simp add: optional_lookup_def ret_run)
next
  case (Some i)
  with assms(2) obtain c where c: "c \<in> set (contracts (db s))" "rule_a_contract sc (db s) pid i c" by auto
  have "get_or_404 ContractRepository sc (Some (pk ContractRepository c)) s = (Inr c, s)"
    using c db_ok_distinct(2) [OF assms(1)]
    by (intro get_or_404_visible)
      (auto simp: ContractRepository_def rule_a_contract_def join_exists_clause_def list_ex_iff)
  with c Some that [of "Some c"] show thesis
    by (auto simp: optional_lookup_def bind_Inr ret_run ContractRepository_def rule_a_contract_def)
qed

lemma active_taxonomy_found:
  assumes "db_ok (db s)" "ul \<in> set (urgency_levels (db s))" "rule_a_taxonomy sc (db s) c u ul"
  shows "active_taxonomy sc (Some c) (Some u) s = (Inr (Some ul), s)"
proof -
  from assms(3) obtain k where k: "k \<in> set (categories (db s))" "cat_id k = c" "cat_active k"
    "cat_organization_id k = organization_id sc" by (auto simp: rule_a_taxonomy_def)
  have "get_or_404 CategoryRepository sc (Some (pk CategoryRepository k)) s = (Inr k, s)"
    using k db_ok_distinct(3) [OF assms(1)] by (intro get_or_404_visible) (auto simp: CategoryRepository_def)
  moreover have "get_or_404 UrgencyLevelRepository sc (Some (pk UrgencyLevelRepository ul)) s = (Inr ul, s)"
    using assms db_ok_distinct(4) [OF assms(1)]
    by (intro get_or_404_visible) (auto simp: UrgencyLevelRepository_def rule_a_taxonomy_def)
  ultimately show ?thesis using assms(3) k
    by (simp add: active_taxonomy_def bind_Inr ret_run andthen_run bind_raise_if CategoryRepository_def
        UrgencyLevelRepository_def rule_a_taxonomy_def)
qed

lemma resolve_sla_due_at_run:
  assumes "db_ok (db s)" "og \<in> set (organizations (db s))"
    and "compute_sla_due_at zones ts (ul_sla_hours ul) (ul_respects_business_hours ul)
           (o_timezone og) (o_business_hours og) = Inr due"
  shows "resolve_sla_due_at zones (o_id og) ul ts s = (Inr due, s)"
proof -
  have "filter (\<lambda>r. o_id r = o_id og) (organizations (db s)) = [og]"
    using db_ok_distinct(6) [OF assms(1)] assms(2) by (rule distinct_map_inj_filter)
  then show ?thesis
    by (simp add: resolve_sla_due_at_def organization_get_or_404_def bind_assoc bind_one_or_none bind_ret
        assms(3) ret_run)
qed

definition sla_computable :: "(string \<Rightarrow> zone option) \<Rightarrow> uuid \<Rightarrow> world \<Rightarrow> bool" where
  "sla_computable zones org s \<longleftrightarrow>
     (\<forall>ul\<in>set (urgency_levels (db s)). \<forall>og\<in>set (organizations (db s)). o_id og = org \<longrightarrow>
        (\<exists>due. compute_sla_due_at zones (now s) (ul_sla_hours ul) (ul_respects_business_hours ul)
                (o_timezone og) (o_business_hours og) = Inr due))"

lemma create_ticket_accepts:
  assumes ok: "db_ok (db s)" "ids_ok s" and fresh: "uuids s = u # us" and "not_blank title"
    and fk: "organization_id sc \<in> set (org_pks (db s))" "user_id sc \<in> set (user_pks (db s))"
    and both: "(cat = None) = (urg = None)" and sla: "sla_computable zones (organization_id sc) s"
    and A: "rule_a sc pid cid cat urg (db s)"
  shows "\<exists>t s'. create_ticket zones sc pid cid title descr cat urg ch s = (Inr t, s')"
proof -
  from A have A1: "\<forall>i. pid = Some i \<longrightarrow> (\<exists>p\<in>set (properties (db s)). rule_a_property sc i p)"
    and A2: "\<forall>i. cid = Some i \<longrightarrow> (\<exists>c\<in>set (contracts (db s)). rule_a_contract sc (db s) pid i c)"
    by (simp_all add: rule_a_def)
  obtain pr where pr: "optional_lookup PropertyRepository sc pid s = (Inr pr, s)" "map_option p_id pr = pid"
    using optional_property [OF ok(1) A1] by blast
  obtain co where co: "optional_lookup ContractRepository sc cid s = (Inr co, s)" "map_option c_id co = cid"
    "\<forall>c. co = Some c \<longrightarrow> (\<exists>i. rule_a_contract sc (db s) pid i c)"
    using optional_contract [OF ok(1) A2] by blast
  have no3: "\<not> (case (pr, co) of (Some p, Some c) \<Rightarrow> c_property_id c \<noteq> p_id p | _ \<Rightarrow> False)"
    using pr(2) co(3) by (auto simp: rule_a_contract_def split: option.splits)
  have no4: "\<not> (case co of Some c \<Rightarrow> c_status c \<noteq> CONTRACT_ACTIVE | None \<Rightarrow> False)"
    and no7: "\<not> (case co of Some c \<Rightarrow> role sc = TENANT \<and> c_tenant_id c \<noteq> user_id sc | None \<Rightarrow> False)"
    using co(3) by (auto simp: rule_a_contract_def split: option.splits)
  obtain og where og: "og \<in> set (organizations (db s))" "o_id og = organization_id sc" using fk(1) by auto
  obtain ulo due where tax: "active_taxonomy sc cat urg s = (Inr ulo, s)"
    and due: "(case ulo of None \<Rightarrow> ret None | Some ul \<Rightarrow>
      bind (resolve_sla_due_at zones (organization_id sc) ul (now s)) (\<lambda>due. ret (Some due))) s = (Inr due, s)"
    and fks: "\<forall>k. cat = Some k \<longrightarrow> k \<in> set (category_pks (db s))" "\<forall>k. urg = Some k \<longrightarrow> k \<in> set (urgency_pks (db s))"
  proof (cases cat)
    case None
    with both that [of None None] show thesis by (simp add: active_taxonomy_def ret_run)
  next
    case (Some c)
    with both obtain v where v: "urg = Some v" by auto
    with A Some obtain ul where ul: "ul \<in> set (urgency_levels (db s))" "rule_a_taxonomy sc (db s) c v ul"
      by (auto simp: rule_a_def)
    obtain x where "compute_sla_due_at zones (now s) (ul_sla_hours ul) (ul_respects_business_hours ul)
        (o_timezone og) (o_business_hours og) = Inr x"
      using sla ul(1) og by (auto simp: sla_computable_def)
    then have "resolve_sla_due_at zones (organization_id sc) ul (now s) s = (Inr x, s)"
      using resolve_sla_due_at_run [OF ok(1) og(1)] og(2) by simp
    with active_taxonomy_found [OF ok(1) ul] Some v ul show thesis
      by (intro that [of "Some ul" "Some x"]) (auto simp: bind_Inr ret_run rule_a_taxonomy_def)
  qed
  let ?t = "new_ticket sc u (now s) pid cid title descr cat urg ch due"
  have "u \<notin> set (ticket_pks (db s))"
    using tenant_tickets.rows_fresh [OF ok(2), of u] fresh by auto
  moreover have "\<forall>k. pid = Some k \<longrightarrow> k \<in> set (property_pks (db s))" "\<forall>k. cid = Some k \<longrightarrow> k \<in> set (contract_pks (db s))"
    using A1 A2 by (auto simp: rule_a_property_def rule_a_contract_def)
  ultimately have "db_ok (tickets_update (\<lambda>rs. rs @ [?t]) (db s))"
    using fk fks assms(4)
    by (intro db_ok_insert_ticket [OF ok(1)]) (simp_all add: new_ticket_def ticket_row_ok_def)
  with pr(1) co(1) no3 no4 no7 tax due fresh show ?thesis
    by (simp add: create_ticket_def bind_Inr andthen_run bind_raise_if bind_reads add_row_def
        insert_row_def Let_def bind_assoc bind_uuid4 bind_update_db bind_ret bind_flush ret_run
        TicketRepository_def new_ticket_def)
qed

section \<open>What is proved of the ticket service\<close>

text \<open>C1: \<open>create_ticket\<close> succeeds exactly on the requests Rule A allows: the property is in the
  organization and not deleted, the contract is in the organization, belongs to that property,
  is active and is the caller's when the caller is a tenant, and the category and urgency level
  are active ones of the organization. (Given a consistent database, a non-blank title, an
  existing caller and organization, taxonomy ids that come both or neither, and an SLA that can
  be computed.)\<close>

theorem create_ticket_iff_rule_a:
  assumes "db_ok (db s)" "ids_ok s" "uuids s \<noteq> []" "not_blank title"
    and "organization_id sc \<in> set (org_pks (db s))" "user_id sc \<in> set (user_pks (db s))"
    and "(cat = None) = (urg = None)" "sla_computable zones (organization_id sc) s"
  shows "(\<exists>t s'. create_ticket zones sc pid cid title descr cat urg ch s = (Inr t, s')) \<longleftrightarrow>
    rule_a sc pid cid cat urg (db s)"
proof -
  from assms(3) obtain u us where "uuids s = u # us" by (cases "uuids s") auto
  with assms show ?thesis by (blast intro: create_ticket_rule_a create_ticket_accepts)
qed

lemma demo_sla_computable: "sla_computable demo_zones 10 demo_world"
proof -
  have "ordered_hours DEFAULT_BUSINESS_HOURS" by code_simp
  moreover have "hours 48 \<le> 52 * weekly_open DEFAULT_BUSINESS_HOURS" by code_simp
  ultimately have "\<exists>due. compute_sla_due_at demo_zones (hours 10) 48 True ''UTC'' DEFAULT_BUSINESS_HOURS = Inr due"
    using walk_days_returns [of DEFAULT_BUSINESS_HOURS "hours 48" 0 "to_local (fixed_zone 0) (hours 10)"]
    by (simp add: compute_sla_due_at_def one_zone_def time_defs)
  moreover have "compute_sla_due_at zones ts h False tz bh = Inr (ts + hours h)" for zones ts h tz bh
    by (simp add: compute_sla_due_at_def)
  ultimately show ?thesis
    by (auto simp: sla_computable_def demo_world_def demo_db_def mk_urgency_def org_a_def org_b_def)
qed

theorem create_ticket_iff_rule_a_witness:
  "\<exists>t s'. create_ticket demo_zones (demo_scope 13 TENANT) (Some 30) (Some 31) ''Leak'' None (Some 40) (Some 51) WEB
     demo_world = (Inr t, s')"
proof -
  have "rule_a (demo_scope 13 TENANT) (Some 30) (Some 31) (Some 40) (Some 51) (db demo_world)"
    by (simp add: rule_a_def rule_a_property_def rule_a_contract_def rule_a_taxonomy_def demo_db_def
        property_a_def contract_a_def mk_category_def mk_urgency_def empty_database_def)
  moreover have "not_blank ''Leak''" by code_simp
  moreover have "(13::uuid) \<in> set (user_pks demo_db)" "(10::uuid) \<in> set (org_pks demo_db)"
    by (simp_all add: demo_db_def mk_user_def org_a_def)
  ultimately show ?thesis
    using create_ticket_iff_rule_a [of demo_world "''Leak''" "demo_scope 13 TENANT" "Some 40" "Some 51" demo_zones
        "Some 30" "Some 31" None WEB] demo_db_ok demo_ids_ok demo_sla_computable
    by (simp add: demo_world_def)
qed

text \<open>C8: what a successful \<open>create_ticket\<close> does: it appends one row to \<open>tickets\<close>, in the scope's
  organization, reported by the caller, open, unassigned, created now, and with the SLA due
  instant computed from the chosen urgency level and the organization's calendar when taxonomy
  was given; nothing else in the database changes. In either case the row is left
  \<open>PENDING\<close> classification, also when the taxonomy was chosen explicitly.\<close>

theorem create_ticket_effect:
  assumes "create_ticket zones sc pid cid title descr cat urg ch s = (Inr t, s')"
  shows "\<exists>u due. db s' = tickets_update (\<lambda>rs. rs @ [t]) (db s) \<and> uuids s = u # uuids s' \<and>
    t = new_ticket sc u (now s) pid cid title descr cat urg ch due \<and> t_classification_status t = PENDING \<and>
    (if cat \<noteq> None \<and> urg \<noteq> None
     then \<exists>ul\<in>set (urgency_levels (db s)). \<exists>og\<in>set (organizations (db s)). \<exists>x.
            Some (ul_id ul) = urg \<and> o_id og = organization_id sc \<and> due = Some x \<and>
            compute_sla_due_at zones (now s) (ul_sla_hours ul) (ul_respects_business_hours ul)
              (o_timezone og) (o_business_hours og) = Inr x
     else due = None)"
  using assms
proof (rule create_ticket_InrE)
  fix pr contract urgency due u us
  assume tax: "active_taxonomy sc cat urg s = (Inr urgency, s)"
    and due: "case urgency of None \<Rightarrow> due = None
      | Some ul \<Rightarrow> \<exists>x. resolve_sla_due_at zones (organization_id sc) ul (now s) s = (Inr x, s) \<and> due = Some x"
    and t: "uuids s = u # us" "t = new_ticket sc u (now s) pid cid title descr cat urg ch due"
    and s': "s' = s\<lparr>uuids := us, db := (db s)\<lparr>tickets := tickets (db s) @ [t]\<rparr>\<rparr>"
  have "if cat \<noteq> None \<and> urg \<noteq> None
     then \<exists>ul\<in>set (urgency_levels (db s)). \<exists>og\<in>set (organizations (db s)). \<exists>x.
            Some (ul_id ul) = urg \<and> o_id og = organization_id sc \<and> due = Some x \<and>
            compute_sla_due_at zones (now s) (ul_sla_hours ul) (ul_respects_business_hours ul)
              (o_timezone og) (o_business_hours og) = Inr x
     else due = None"
  proof (cases "cat \<noteq> None \<and> urg \<noteq> None")
    case True
    then obtain c v where cv: "cat = Some c" "urg = Some v" by auto
    from taxonomy_found [OF tax [unfolded cv]] obtain ul
      where ul: "ul \<in> set (urgency_levels (db s))" "urgency = Some ul" "ul_id ul = v"
      by (auto simp: rule_a_taxonomy_def)
    with due obtain x where x: "resolve_sla_due_at zones (organization_id sc) ul (now s) s = (Inr x, s)" "due = Some x"
      by auto
    then show ?thesis using ul cv True
      by (fastforce simp: resolve_sla_due_at_def organization_get_or_404_def bind_assoc bind_one_or_none
          bind_ret ret_run raise_run bind_raise split: option.splits sum.splits
          dest: arg_cong [where f = set])
  next
    case False
    then have "urgency = None" using tax by (auto simp: active_taxonomy_def ret_run split: if_splits)
    with False due show ?thesis by (simp split: if_splits)
  qed
  then show ?thesis using t s' by (intro exI [of _ u] exI [of _ due]) (auto simp: new_ticket_def)
qed

theorem create_ticket_effect_witness:
  "\<exists>t s'. create_ticket demo_zones (demo_scope 13 TENANT) (Some 30) (Some 31) ''Leak'' None (Some 40) (Some 50) WEB
     demo_world = (Inr t, s') \<and> t_sla_due_at t = Some (hours 34) \<and> t_classification_status t = PENDING"
proof -
  let ?m = "create_ticket demo_zones (demo_scope 13 TENANT) (Some 30) (Some 31) ''Leak'' None (Some 40) (Some 50) WEB"
  have "\<not> isl (fst (?m demo_world)) \<and> t_sla_due_at (projr (fst (?m demo_world))) = Some (hours 34)"
    by code_simp
  from returned [where Q = "\<lambda>t. t_sla_due_at t = Some (hours 34)", OF this]
  obtain t s' where run: "?m demo_world = (Inr t, s')" "t_sla_due_at t = Some (hours 34)" by blast
  with create_ticket_effect [OF run(1)] show ?thesis by auto
qed

text \<open>What \<open>get_ticket\<close> answers for a stored ticket, by the repository's visibility clause.\<close>

lemma get_ticket_run:
  assumes "db_ok (db s)" "t \<in> set (tickets (db s))"
  shows "if ticket_visible sc (db s) t
    then \<exists>c. get_ticket sc (t_id t) s = (Inr (t, metadata_of c), s) \<and>
           (case c of None \<Rightarrow> \<forall>x\<in>set (classifications (db s)). cl_ticket_id x \<noteq> t_id t
            | Some x \<Rightarrow> x \<in> set (classifications (db s)) \<and> cl_ticket_id x = t_id t)
    else get_ticket sc (t_id t) s = (Inl (Raised (NotFoundError ''Ticket'' (Some (t_id t)))), s)"
proof (cases "ticket_visible sc (db s) t")
  case True
  let ?sel = "filter (\<lambda>r. cl_ticket_id r = t_id t) (select_rows ClassificationRepository sc (db s))"
  have org: "ticket_join sc (db s) (t_id t)"
    using True assms(2) by (auto simp: ticket_visible_def ticket_join_def join_exists_clause_def list_ex_iff)
  then have sel: "?sel = filter (\<lambda>r. cl_ticket_id r = t_id t) (classifications (db s))"
    by (auto simp: select_rows_def ClassificationRepository_def intro!: filter_cong)
  have "unique_on (\<lambda>_. True) cl_ticket_id (classifications (db s))"
    using assms(1) by (simp add: db_ok_def table_ok_defs)
  then have uniq: "distinct (map cl_ticket_id (classifications (db s)))" by (simp add: unique_on_def)
  have get: "get_or_404 TicketRepository sc (Some (t_id t)) s = (Inr t, s)"
    using get_or_404_visible [of TicketRepository s t sc] True assms db_ok_distinct(5) by simp
  obtain c where c: "scalar_one_or_none ?sel = Some c"
    "case c of None \<Rightarrow> \<forall>x\<in>set (classifications (db s)). cl_ticket_id x \<noteq> t_id t
     | Some x \<Rightarrow> x \<in> set (classifications (db s)) \<and> cl_ticket_id x = t_id t"
  proof (cases "\<exists>x\<in>set (classifications (db s)). cl_ticket_id x = t_id t")
    case True
    then obtain x where x: "x \<in> set (classifications (db s))" "cl_ticket_id x = t_id t" by blast
    with distinct_map_inj_filter [OF uniq x(1)] sel that [of "Some x"] show thesis by simp
  next
    case False
    then have "?sel = []" unfolding sel by (simp add: filter_empty_conv)
    with False that [of None] show thesis by simp
  qed
  then have "get_ticket sc (t_id t) s = (Inr (t, metadata_of c), s)"
    using get by (simp add: get_ticket_def get_by_ticket_id_def bind_Inr bind_one_or_none ret_run)
  with True c(2) show ?thesis by auto
next
  case False
  then have "filter (\<lambda>r. Some (t_id t) = Some (pk TicketRepository r)) (select_rows TicketRepository sc (db s)) = []"
    using assms db_ok_distinct(5) [OF assms(1)]
    by (auto simp: filter_empty_conv select_rows_def dest: distinct_map_eq)
  from get_or_404_not_found [OF this] False show ?thesis by (simp add: get_ticket_def bind_Inl)
qed

lemma ticket_visible_iff:
  "ticket_visible sc d t \<longleftrightarrow> t_organization_id t = organization_id sc \<and>
     (role sc = AGENT \<or> role sc = ADMIN \<or>
      role sc = TENANT \<and> (t_user_id t = user_id sc \<or>
        (\<exists>c\<in>set (contracts d). t_contract_id t = Some (c_id c) \<and> c_tenant_id c = user_id sc)) \<or>
      role sc = OWNER \<and> (\<exists>p\<in>set (properties d). t_property_id t = Some (p_id p) \<and> p_owner_id p = user_id sc))"
  by (cases "role sc") (auto simp: ticket_visible_def own_contract_def own_property_def list_ex_iff eq_commute)

text \<open>C7: ticket visibility (Rule C). A stored ticket can be read exactly when it belongs to the caller's
  organization and the caller is staff of it, or a tenant who reported it or is the tenant of its
  contract, or the owner of its property (deleted or not); the answer is the ticket with the metadata of
  its classification. In every other case the answer is the one for an id that does not exist. The condition
  is written out over the rows, apart from the repository's clause.\<close>

theorem get_ticket_visibility:
  assumes "db_ok (db s)" "t \<in> set (tickets (db s))"
  shows "if t_organization_id t = organization_id sc \<and>
      (role sc = AGENT \<or> role sc = ADMIN \<or>
       role sc = TENANT \<and> (t_user_id t = user_id sc \<or>
         (\<exists>c\<in>set (contracts (db s)). t_contract_id t = Some (c_id c) \<and> c_tenant_id c = user_id sc)) \<or>
       role sc = OWNER \<and> (\<exists>p\<in>set (properties (db s)). t_property_id t = Some (p_id p) \<and> p_owner_id p = user_id sc))
    then \<exists>c. get_ticket sc (t_id t) s = (Inr (t, metadata_of c), s) \<and>
           (case c of None \<Rightarrow> \<forall>x\<in>set (classifications (db s)). cl_ticket_id x \<noteq> t_id t
            | Some x \<Rightarrow> x \<in> set (classifications (db s)) \<and> cl_ticket_id x = t_id t)
    else get_ticket sc (t_id t) s = (Inl (Raised (NotFoundError ''Ticket'' (Some (t_id t)))), s)"
  using get_ticket_run [OF assms, of sc] unfolding ticket_visible_iff .

theorem get_ticket_visibility_witness:
  "(\<exists>c. get_ticket (demo_scope 14 OWNER) 60 demo_world =
     (Inr ((mk_ticket 60 10 13)\<lparr>t_property_id := Some 30, t_contract_id := Some 31\<rparr>, metadata_of c), demo_world)) \<and>
   get_ticket (demo_scope 99 OWNER) 60 demo_world = (Inl (Raised (NotFoundError ''Ticket'' (Some 60))), demo_world)"
proof -
  let ?t = "(mk_ticket 60 10 13)\<lparr>t_property_id := Some 30, t_contract_id := Some 31\<rparr>"
  have t: "?t \<in> set (tickets (db demo_world))" "t_id ?t = 60" by (simp_all add: demo_db_def mk_ticket_def)
  have rows: "properties demo_db = [property_a]" "p_id property_a = 30" "p_owner_id property_a = 14"
    "t_organization_id ?t = 10" "t_property_id ?t = Some 30"
    by (simp_all add: demo_db_def property_a_def mk_ticket_def)
  show ?thesis
    using get_ticket_visibility [of demo_world ?t "demo_scope 14 OWNER"]
      get_ticket_visibility [of demo_world ?t "demo_scope 99 OWNER"] t demo_db_ok
    by (auto simp: rows)
qed

text \<open>C12: the role gates of \<open>update_ticket\<close> come before any lookup: a tenant or owner who tries to
  assign an agent, to resolve or close, or to recategorize is refused with 403 whatever the
  ticket, existing or not.\<close>

theorem update_ticket_gates:
  assumes "role sc = TENANT \<or> role sc = OWNER"
    and "agent_id \<noteq> None \<or> status = Some RESOLVED \<or> status = Some CLOSED \<or> category_id \<noteq> None \<or> urgency_id \<noteq> None"
  shows "update_ticket zones sc tid status agent_id category_id urgency_id s = (Inl (Raised ForbiddenError), s)"
  using assms by (auto simp: update_ticket_def andthen_run bind_raise_if)

theorem update_ticket_gates_witness:
  "update_ticket demo_zones (demo_scope 13 TENANT) 60 (Some CLOSED) None None None demo_world =
     (Inl (Raised ForbiddenError), demo_world)"
  by (rule update_ticket_gates) simp_all

section \<open>The effect of update_ticket\<close>

lemma agent_change_effect:
  assumes "agent_change sc agent_id s = (Inr f, s')"
  shows "f t = t\<lparr>t_agent_id := (if agent_id = None then t_agent_id t else agent_id)\<rparr> \<and>
    (\<forall>a. agent_id = Some a \<longrightarrow> (\<exists>v\<in>set (users (db s)). u_id v = a \<and>
       u_organization_id v = Some (organization_id sc) \<and> u_role v \<in> {AGENT, ADMIN}))"
  using assms
  by (cases agent_id)
    (auto simp: agent_change_def ret_run UserRepository_def andthen_run bind_raise_if
      elim!: bind_InrE dest!: get_or_404_found split: if_splits)

lemma taxonomy_change_effect:
  assumes "taxonomy_change zones sc ticket tid cat urg s = (Inr f, s')"
  shows "tickets (db s') = tickets (db s) \<and> sla_events (db s') = sla_events (db s) \<and>
    now s' = now s \<and> uuids s' = uuids s \<and>
    (if cat = None \<and> urg = None then f = id
     else \<exists>ul due. Some (ul_id ul) = (if urg = None then t_urgency_id ticket else urg) \<and>
       ul \<in> set (urgency_levels (db s)) \<and> ul_organization_id ul = organization_id sc \<and>
       resolve_sla_due_at zones (organization_id sc) ul (t_created_at ticket) s = (Inr due, s) \<and>
       f = (\<lambda>t. t\<lparr>t_category_id := (if cat = None then t_category_id ticket else cat),
                   t_urgency_id := Some (ul_id ul), t_sla_due_at := Some due\<rparr>))"
proof (cases "cat = None \<and> urg = None")
  case True with assms show ?thesis by (simp add: taxonomy_change_def ret_run)
next
  case False
  let ?e = "if urg \<noteq> None then urg else t_urgency_id ticket"
  from assms False obtain ul due where g: "get_or_404 UrgencyLevelRepository sc ?e s = (Inr ul, s)"
    and r: "resolve_sla_due_at zones (organization_id sc) ul (t_created_at ticket) s = (Inr due, s)"
    and s': "s' = s\<lparr>db := classifications_update
        (update_where (\<lambda>r. cl_ticket_id r = tid) (\<lambda>r. r\<lparr>cl_human_corrected := True\<rparr>)) (db s)\<rparr>"
    and f: "f = (\<lambda>t. t\<lparr>t_category_id := (if cat \<noteq> None then cat else t_category_id ticket),
                   t_urgency_id := ?e, t_sla_due_at := Some due\<rparr>)"
    by (auto simp: taxonomy_change_def Let_def andthen_run mark_human_corrected_def bind_update_db ret_run
        elim!: bind_readonly_InrE [OF _ readonly_get_or_404] bind_readonly_InrE [OF _ readonly_resolve_sla_due_at]
        split: if_splits)
  from get_or_404_found [OF g] have "ul \<in> set (urgency_levels (db s))" "?e = Some (ul_id ul)"
    "ul_organization_id ul = organization_id sc" by (simp_all add: UrgencyLevelRepository_def)
  with False r s' f show ?thesis by (auto split: if_splits)
qed

text \<open>The row \<open>update_ticket\<close> leaves: the given status with the matching \<open>closed_at\<close>, the given agent,
  the given or kept taxonomy with an SLA computed from the ticket's creation, and every other
  column as it was.\<close>

definition updated_ticket :: "ticket \<Rightarrow> int \<Rightarrow> TicketStatus option \<Rightarrow> uuid option \<Rightarrow> uuid option \<Rightarrow> uuid option \<Rightarrow>
    int option \<Rightarrow> ticket" where
  "updated_ticket t ts status agent cat urg due = t\<lparr>
     t_status := (case status of None \<Rightarrow> t_status t | Some x \<Rightarrow> x),
     t_closed_at := (case status of None \<Rightarrow> t_closed_at t | Some x \<Rightarrow> if x = CLOSED then Some ts else None),
     t_agent_id := (if agent = None then t_agent_id t else agent),
     t_category_id := (if cat = None then t_category_id t else cat),
     t_urgency_id := (if urg = None then t_urgency_id t else urg),
     t_sla_due_at := (if cat = None \<and> urg = None then t_sla_due_at t else due)\<rparr>"

lemma update_row_ticket:
  assumes "distinct (map t_id (tickets (db s1)))" "update_row TicketRepository sc tid f s1 = (Inr r, s2)" "t \<in> set (tickets (db s1))" "t_id t = tid"
  shows "r = (f t)\<lparr>t_organization_id := t_organization_id t\<rparr> \<and>
    s2 = s1\<lparr>db := tickets_update (update_where (\<lambda>x. t_id x = tid) (\<lambda>_. r)) (db s1)\<rparr>"
  using assms(2)
proof (rule ticket_repo.update_row_Inr)
  fix r0 assume "get_or_404 TicketRepository sc (Some tid) s1 = (Inr r0, s1)"
    and r: "r = keep_org TicketRepository r0 (f r0)"
      "s2 = s1\<lparr>db := upd_rows TicketRepository (update_where (\<lambda>x. pk TicketRepository x = tid) (\<lambda>_. r)) (db s1)\<rparr>"
  then have "r0 \<in> set (tickets (db s1))" "t_id r0 = tid" by (auto dest: get_or_404_found)
  with assms have "r0 = t" by (auto dest: distinct_map_eq)
  with r show ?thesis by (simp add: TicketRepository_def)
qed

lemma updated_ticket_row_ok:
  assumes "ticket_row_ok t" "due \<noteq> None"
  shows "ticket_row_ok (updated_ticket t ts status agent cat urg due)"
  using assms by (auto simp: ticket_row_ok_def updated_ticket_def split: option.splits)

lemma record_resolved_effect:
  assumes "record_resolved sc tid due s = (Inr i, s')"
  shows "db s' = sla_events_update (\<lambda>rs. rs @ [\<lparr>se_id = i, se_organization_id = organization_id sc,
      se_ticket_id = tid, se_event = SLA_EVENT_RESOLVED, se_occurred_at = now s, se_sla_due_at = due\<rparr>]) (db s)"
  using assms
  by (auto simp: record_resolved_def bind_reads add_row_def insert_row_def Let_def bind_assoc bind_uuid4
      bind_update_db bind_ret andthen_def bind_flush ret_run SlaEventRepository_def
      split: list.splits if_splits)

text \<open>The SLA a recategorized ticket gets.\<close>

definition recomputed_sla :: "(string \<Rightarrow> zone option) \<Rightarrow> OrgScope \<Rightarrow> world \<Rightarrow> ticket \<Rightarrow> ticket \<Rightarrow> bool" where
  "recomputed_sla zones sc s t t' \<longleftrightarrow> (\<exists>ul\<in>set (urgency_levels (db s)). \<exists>x. Some (ul_id ul) = t_urgency_id t' \<and>
     ul_organization_id ul = organization_id sc \<and> t_sla_due_at t' = Some x \<and>
     resolve_sla_due_at zones (organization_id sc) ul (t_created_at t) s = (Inr x, s))"

lemma changed_row:
  assumes a: "agent_change sc agent_id s = (Inr set_agent, s)"
    and x: "taxonomy_change zones sc t tid cat urg s = (Inr set_taxonomy, s1)"
    and t': "t' = (set_taxonomy (status_change status (now s) (set_agent t)))\<lparr>t_organization_id := t_organization_id t\<rparr>"
  shows "\<exists>due. t' = updated_ticket t (now s) status agent_id cat urg (Some due) \<and>
    (cat \<noteq> None \<or> urg \<noteq> None \<longrightarrow> recomputed_sla zones sc s t t')"
proof (cases "cat = None \<and> urg = None")
  case True
  then have "t' = updated_ticket t (now s) status agent_id cat urg (Some 0)"
    using taxonomy_change_effect [OF x] t' agent_change_effect [OF a, of t]
    by (simp add: updated_ticket_def status_change_def split: option.splits)
  with True show ?thesis by blast
next
  case False
  with taxonomy_change_effect [OF x] obtain ul d
    where ul: "Some (ul_id ul) = (if urg = None then t_urgency_id t else urg)"
      "ul \<in> set (urgency_levels (db s))" "ul_organization_id ul = organization_id sc"
      "resolve_sla_due_at zones (organization_id sc) ul (t_created_at t) s = (Inr d, s)"
      "set_taxonomy = (\<lambda>r. r\<lparr>t_category_id := (if cat = None then t_category_id t else cat),
                   t_urgency_id := Some (ul_id ul), t_sla_due_at := Some d\<rparr>)" by auto
  have row: "t' = updated_ticket t (now s) status agent_id cat urg (Some d)"
  proof -
    have ag: "set_agent t = t\<lparr>t_agent_id := (if agent_id = None then t_agent_id t else agent_id)\<rparr>"
      using agent_change_effect [OF a, of t] by blast
    show ?thesis unfolding t' ul(5) ag status_change_def updated_ticket_def ul(1) using False
      by (cases status) (auto intro!: ticket.equality)
  qed
  then have "Some (ul_id ul) = t_urgency_id t'" "t_sla_due_at t' = Some d"
    using ul(1) False by (simp_all add: updated_ticket_def)
  with row ul show ?thesis unfolding recomputed_sla_def by blast
qed

text \<open>C5: what a successful \<open>update_ticket\<close> does: the ticket was visible to the caller; its row becomes
  \<open>updated_ticket\<close>, so \<open>closed_at\<close> is set exactly when the status is \<open>CLOSED\<close> and a
  recategorized ticket gets the SLA due instant of the effective urgency level anchored at its
  creation; the other tickets are untouched; and one \<open>resolved\<close> SLA event is recorded exactly
  when the call moves the ticket into \<open>RESOLVED\<close> or \<open>CLOSED\<close> from a different status.\<close>

theorem update_ticket_effect:
  assumes ok: "db_ok (db s)"
    and run: "update_ticket zones sc tid status agent_id cat urg s = (Inr (t', entered), s')"
  shows "\<exists>t\<in>set (tickets (db s)). \<exists>due. t_id t = tid \<and> ticket_visible sc (db s) t \<and>
    t' = updated_ticket t (now s) status agent_id cat urg (Some due) \<and> ticket_row_ok t' \<and>
    (cat \<noteq> None \<or> urg \<noteq> None \<longrightarrow> recomputed_sla zones sc s t t') \<and>
    tickets (db s') = update_where (\<lambda>x. t_id x = tid) (\<lambda>_. t') (tickets (db s)) \<and>
    entered = (status \<in> {Some RESOLVED, Some CLOSED} \<and> Some (t_status t) \<noteq> status) \<and>
    (\<exists>i. sla_events (db s') = sla_events (db s) @ (if entered then
       [\<lparr>se_id = i, se_organization_id = organization_id sc, se_ticket_id = tid, se_event = SLA_EVENT_RESOLVED,
         se_occurred_at = now s, se_sla_due_at = t_sla_due_at t'\<rparr>] else []))"
  using run
proof (rule update_ticket_InrE)
  fix t set_agent set_taxonomy s1 s2
  assume g: "get_or_404 TicketRepository sc (Some tid) s = (Inr t, s)"
    and a: "agent_change sc agent_id s = (Inr set_agent, s)"
    and x: "taxonomy_change zones sc t tid cat urg s = (Inr set_taxonomy, s1)"
    and u: "update_row TicketRepository sc tid
        (\<lambda>t. set_taxonomy (status_change status (now s) (set_agent t))) s1 = (Inr t', s2)"
    and ent: "entered = (case status of None \<Rightarrow> False | Some x \<Rightarrow> terminal x \<and> t_status t \<noteq> x)"
    and rec: "if entered then \<exists>e. record_resolved sc (t_id t') (t_sla_due_at t') s2 = (Inr e, s') else s' = s2"
  from get_or_404_found [OF g] have t: "t \<in> set (tickets (db s))" "t_id t = tid" "ticket_visible sc (db s) t" by auto
  note tax = taxonomy_change_effect [OF x]
  have upd: "t' = (set_taxonomy (status_change status (now s) (set_agent t)))\<lparr>t_organization_id := t_organization_id t\<rparr>"
    "s2 = s1\<lparr>db := tickets_update (update_where (\<lambda>x. t_id x = tid) (\<lambda>_. t')) (db s1)\<rparr>"
    using update_row_ticket [OF _ u, of t] t tax db_ok_distinct(5) [OF ok] by auto
  from changed_row [OF a x upd(1)] obtain due
    where due: "t' = updated_ticket t (now s) status agent_id cat urg (Some due)"
      "cat \<noteq> None \<or> urg \<noteq> None \<longrightarrow> recomputed_sla zones sc s t t'" by blast
  have "ticket_row_ok t" using ok t(1) by (auto simp: db_ok_def tickets_ok_def list_all_iff)
  then have row: "ticket_row_ok t'" using updated_ticket_row_ok due(1) by simp
  have tid: "t_id t' = tid" using due(1) t(2) by (simp add: updated_ticket_def)
  have s2: "tickets (db s2) = update_where (\<lambda>x. t_id x = tid) (\<lambda>_. t') (tickets (db s))"
    "sla_events (db s2) = sla_events (db s)" "now s2 = now s" using upd(2) tax by simp_all
  have "tickets (db s') = tickets (db s2) \<and> (\<exists>i. sla_events (db s') = sla_events (db s2) @ (if entered then
      [\<lparr>se_id = i, se_organization_id = organization_id sc, se_ticket_id = tid, se_event = SLA_EVENT_RESOLVED,
        se_occurred_at = now s2, se_sla_due_at = t_sla_due_at t'\<rparr>] else []))"
    using rec tid by (cases entered) (auto dest!: record_resolved_effect)
  moreover have "entered = (status \<in> {Some RESOLVED, Some CLOSED} \<and> Some (t_status t) \<noteq> status)"
    using ent by (auto simp: terminal_def split: option.splits)
  ultimately show ?thesis using t due row unfolding s2 by blast
qed

theorem update_ticket_effect_witness:
  "\<exists>t' s'. update_ticket demo_zones (demo_scope 12 AGENT) 60 (Some CLOSED) (Some 12) None (Some 50) demo_world =
       (Inr (t', True), s') \<and> ticket_row_ok t' \<and> length (sla_events (db s')) = 1"
proof -
  let ?m = "update_ticket demo_zones (demo_scope 12 AGENT) 60 (Some CLOSED) (Some 12) None (Some 50)"
  have "\<not> isl (fst (?m demo_world)) \<and> snd (projr (fst (?m demo_world)))" by code_simp
  from returned [where Q = snd, OF this] obtain t' s' where run: "?m demo_world = (Inr (t', True), s')" by auto
  have "sla_events (db demo_world) = []" by (simp add: demo_db_def empty_database_def)
  with update_ticket_effect [OF _ run] demo_db_ok run show ?thesis by auto
qed

text \<open>C4: tenant isolation of the ticket endpoints. A create or update request made under an
  organization's scope, whatever its arguments and whether it succeeds or fails, leaves every
  row that belongs to another organization exactly as it was.\<close>

theorem ticket_requests_isolated:
  assumes "ids_ok s" "db s = committed s"
    and "get_session (create_ticket zones sc pid cid title descr cat urg ch) s = (r, s') \<or>
      get_session (update_ticket zones sc tid status agent cat' urg') s = (r', s')"
  shows "foreign_view (organization_id sc) (db s') = foreign_view (organization_id sc) (db s)"
  using assms(3)
proof
  assume "get_session (create_ticket zones sc pid cid title descr cat urg ch) s = (r, s')"
  then show ?thesis
    by (rule request_isolated [OF ensures_create_ticket uncommitted_create_ticket assms(1,2)])
next
  assume "get_session (update_ticket zones sc tid status agent cat' urg') s = (r', s')"
  then show ?thesis
    by (rule request_isolated [OF ensures_update_ticket uncommitted_update_ticket assms(1,2)])
qed

theorem ticket_requests_isolated_witness:
  "foreign_view 10 (db (snd (get_session (update_ticket demo_zones (demo_scope 12 AGENT) 60 (Some CLOSED) None None None)
     demo_world))) = foreign_view 10 demo_db"
proof -
  let ?m = "get_session (update_ticket demo_zones (demo_scope 12 AGENT) 60 (Some CLOSED) None None None) demo_world"
  obtain r s' where "?m = (r, s')" by (cases ?m)
  then show ?thesis
    using ticket_requests_isolated [of demo_world demo_zones "demo_scope 12 AGENT" None None "[]" None None None WEB
        undefined s' 60 "Some CLOSED" None None None r] demo_ids_ok by simp
qed

text \<open>Recategorization does not resolve \<open>category_id\<close> in the scope (only the urgency level is
  looked up), so an admin of organization 10 can attach a category of organization 20 to a
  ticket, and the request is committed.\<close>

theorem recategorize_foreign_category:
  "\<exists>t. fst (get_session (update_ticket demo_zones (demo_scope 11 ADMIN) 60 None None (Some 41) (Some 50)) demo_world)
       = Inr (t, False) \<and> t_organization_id t = 10 \<and> t_category_id t = Some 41 \<and>
     \<not> list_ex (\<lambda>c. cat_id c = 41 \<and> cat_organization_id c = 10) (categories demo_db)"
proof -
  let ?r = "fst (get_session (update_ticket demo_zones (demo_scope 11 ADMIN) 60 None None (Some 41) (Some 50)) demo_world)"
  have "\<not> isl ?r \<and> snd (projr ?r) = False \<and> t_organization_id (fst (projr ?r)) = 10 \<and>
      t_category_id (fst (projr ?r)) = Some 41" by code_simp
  from returned_value [where Q = "\<lambda>x. snd x = False \<and> t_organization_id (fst x) = 10 \<and> t_category_id (fst x) = Some 41", OF this]
  have "\<exists>t. ?r = Inr (t, False) \<and> t_organization_id t = 10 \<and> t_category_id t = Some 41" by auto
  moreover have "\<not> list_ex (\<lambda>c. cat_id c = 41 \<and> cat_organization_id c = 10) (categories demo_db)" by code_simp
  ultimately show ?thesis by blast
qed

text \<open>The ownership check of step 7 comes after steps 3 to 6, so a tenant does learn that
  another tenant's contract exists: an expired one is answered 422, an unknown id 404.\<close>

theorem tenant_learns_of_foreign_contract:
  "fst (create_ticket demo_zones (demo_scope 13 TENANT) (Some 30) (Some 32) ''Leak'' None None None WEB demo_world)
     = Inl (Raised ContractNotActiveError) \<and>
   fst (create_ticket demo_zones (demo_scope 13 TENANT) (Some 30) (Some 99) ''Leak'' None None None WEB demo_world)
     = Inl (Raised (NotFoundError ''Contract'' (Some 99)))"
proof -
  let ?m = "\<lambda>c. fst (create_ticket demo_zones (demo_scope 13 TENANT) (Some 30) (Some c) ''Leak'' None None None WEB demo_world)"
  have expired: "isl (?m 32) \<and> projl (?m 32) = Raised ContractNotActiveError" by code_simp
  have unknown: "isl (?m 99) \<and> projl (?m 99) = Raised (NotFoundError ''Contract'' (Some 99))" by code_simp
  show ?thesis using raised_value [OF expired] raised_value [OF unknown] by (rule conjI)
qed

end
