(* ===== verification/Notifications.thy ===== *)
theory Notifications
  imports Tickets "HOL-Library.Multiset"
begin

text \<open>
  \<open>src/app/services/notification_service.py\<close> (who is told about an SLA event, the fan-out, the
  recipient's inbox) and the SLA monitor of \<open>src/app/workers/sla.py\<close>, which records
  \<open>warning\<close> and \<open>breached\<close> events across all organizations.

  The monitor's \<open>SELECT\<close> multiplies an interval by the warning fraction inside Postgres; that
  multiplication is the parameter \<open>pg_scale\<close>. The same product in Python
  (\<open>timedelta * 0.8\<close>) is exact: the float's integer ratio, rounded half to even.
\<close>

section \<open>notification_service\<close>

definition resolve_recipients :: "OrgScope \<Rightarrow> ticket \<Rightarrow> user list service" where
  "resolve_recipients sc ticket =
    bind (query (user_list sc (Some ADMIN) (Some USER_ACTIVE))) (\<lambda>admins.
    let recipients = foldl (\<lambda>m v. dict_set (u_id v) v m) [] admins in
    bind (case t_agent_id ticket of None \<Rightarrow> ret None
          | Some a \<Rightarrow> one_or_none (\<lambda>d. filter (\<lambda>v. u_id v = a \<and> u_status v = USER_ACTIVE)
                         (select_rows UserRepository sc d))) (\<lambda>agent.
    ret (map snd (case agent of None \<Rightarrow> recipients | Some v \<Rightarrow> dict_set (u_id v) v recipients))))"

definition title_for :: "NotificationKind \<Rightarrow> ticket \<Rightarrow> string" where
  "title_for kind ticket = (if kind = SLA_WARNING then ''SLA warning: ticket '' @ uuid_str (t_id ticket)
     else ''SLA breached: ticket '' @ uuid_str (t_id ticket))"

definition fan_out :: "OrgScope \<Rightarrow> ticket \<Rightarrow> uuid \<Rightarrow> NotificationKind \<Rightarrow> user list service" where
  "fan_out sc ticket event_id kind = bind (resolve_recipients sc ticket) (\<lambda>recipients.
     if recipients = [] then ret []
     else bind (reads now) (\<lambda>ts.
       andthen (for_each recipients (\<lambda>recipient.
         bind (add_row NotificationRepository sc (\<lambda>u.
           \<lparr>n_id = u, n_organization_id = organization_id sc, n_user_id = u_id recipient,
            n_ticket_id = Some (t_id ticket), n_sla_event_id = Some event_id, n_kind = kind,
            n_title = title_for kind ticket, n_body = None, n_sent_at = ts, n_read_at = None\<rparr>))
         (\<lambda>_. ret ())))
       (ret recipients)))"

definition list_notifications :: "OrgScope \<Rightarrow> nat \<Rightarrow> nat \<Rightarrow> (notification list \<times> nat) service" where
  "list_notifications sc limit offset =
    bind (query (\<lambda>d. length (for_recipient sc (user_id sc) d))) (\<lambda>total.
    bind (query (\<lambda>d. take limit (drop offset (for_recipient sc (user_id sc) d)))) (\<lambda>items.
    ret (items, total)))"

definition get_notification_or_404 :: "OrgScope \<Rightarrow> uuid \<Rightarrow> notification service" where
  "get_notification_or_404 sc nid =
    bind (one_or_none (\<lambda>d. filter (\<lambda>n. n_id n = nid) (for_recipient sc (user_id sc) d))) (\<lambda>found.
    case found of None \<Rightarrow> throw (NotFoundError ''Notification'' (Some nid)) | Some n \<Rightarrow> ret n)"

definition mark_read :: "OrgScope \<Rightarrow> uuid \<Rightarrow> notification service" where
  "mark_read sc nid = bind (get_notification_or_404 sc nid) (\<lambda>n.
     if n_read_at n = None
     then bind (reads now) (\<lambda>ts. let n' = n\<lparr>n_read_at := Some ts\<rparr> in
            andthen (write_row NotificationRepository (n_id n) (\<lambda>_. n')) (andthen flush (ret n')))
     else ret n)"

section \<open>The SLA monitor\<close>

text \<open>\<open>0.8\<close> is the double 3602879701896397 / 4503599627370496.\<close>

definition divide_and_round :: "int \<Rightarrow> int \<Rightarrow> int" where
  "divide_and_round a b = (let q = a div b; r = 2 * (a mod b)
     in if r > b \<or> r = b \<and> q mod 2 = 1 then q + 1 else q)"

definition sla_warning_part :: "int \<Rightarrow> int" where
  "sla_warning_part window = divide_and_round (window * 3602879701896397) 4503599627370496"

definition warn_at :: "ticket \<Rightarrow> int \<Rightarrow> int" where
  "warn_at ticket due = t_created_at ticket + sla_warning_part (due - t_created_at ticket)"

definition candidates :: "(int \<Rightarrow> int) \<Rightarrow> int \<Rightarrow> database \<Rightarrow> ticket list" where
  "candidates pg_scale ts d = filter (\<lambda>t. \<not> terminal (t_status t) \<and>
     (case t_sla_due_at t of None \<Rightarrow> False
      | Some due \<Rightarrow> t_created_at t + pg_scale (due - t_created_at t) \<le> ts)) (tickets d)"

definition record_and_notify :: "OrgScope \<Rightarrow> ticket \<Rightarrow> int \<Rightarrow> SlaEventType \<Rightarrow> NotificationKind \<Rightarrow> unit service" where
  "record_and_notify sc ticket due event kind =
    bind (record_once sc (t_id ticket) event (Some due)) (\<lambda>eid.
    case eid of None \<Rightarrow> ret () | Some e \<Rightarrow> bind (fan_out sc ticket e kind) (\<lambda>_. ret ()))"

definition process_ticket :: "ticket \<Rightarrow> int \<Rightarrow> unit service" where
  "process_ticket ticket ts = (case t_sla_due_at ticket of
      None \<Rightarrow> throw TypeError
    | Some due \<Rightarrow>
        let sc = for_background_worker (t_organization_id ticket) in
        andthen (if warn_at ticket due \<le> ts
                 then record_and_notify sc ticket due SLA_EVENT_WARNING SLA_WARNING else ret ())
                (if due \<le> ts
                 then record_and_notify sc ticket due SLA_EVENT_BREACHED SLA_BREACHED else ret ()))"

text \<open>\<open>except Exception\<close>: log and go on.\<close>

definition log_and_continue :: "unit service \<Rightarrow> unit service" where
  "log_and_continue m = try_except m (\<lambda>e. case e of
      Raised _ \<Rightarrow> ret () | EntropyExhausted \<Rightarrow> raise EntropyExhausted)"

definition monitor_pass :: "(int \<Rightarrow> int) \<Rightarrow> unit service" where
  "monitor_pass pg_scale = bind (reads now) (\<lambda>ts.
     bind (query (candidates pg_scale ts)) (\<lambda>cs.
     for_each cs (\<lambda>ticket. log_and_continue (begin_nested (process_ticket ticket ts)))))"

definition monitor_sla :: "(int \<Rightarrow> int) \<Rightarrow> unit service" where
  "monitor_sla pg_scale = with_session (andthen (monitor_pass pg_scale) commit)"

section \<open>Recipients\<close>

definition eligible :: "OrgScope \<Rightarrow> ticket \<Rightarrow> user \<Rightarrow> bool" where
  "eligible sc ticket v \<longleftrightarrow> u_organization_id v = Some (organization_id sc) \<and> u_status v = USER_ACTIVE \<and>
     (u_role v = ADMIN \<or> t_agent_id ticket = Some (u_id v))"

lemma dict_set_new: "k \<notin> fst ` set m \<Longrightarrow> dict_set k v m = m @ [(k, v)]"
  by (induction k v m rule: dict_set.induct) auto

lemma dict_set_same: "distinct (map fst m) \<Longrightarrow> (k, v) \<in> set m \<Longrightarrow> dict_set k v m = m"
  by (induction k v m rule: dict_set.induct) (auto simp: rev_image_eqI)

lemma foldl_dict_set:
  "distinct (map u_id vs) \<Longrightarrow> fst ` set m \<inter> u_id ` set vs = {} \<Longrightarrow>
     foldl (\<lambda>m v. dict_set (u_id v) v m) m vs = m @ map (\<lambda>v. (u_id v, v)) vs"
proof (induction vs arbitrary: m)
  case (Cons v vs)
  then have "dict_set (u_id v) v m = m @ [(u_id v, v)]" by (intro dict_set_new) auto
  with Cons show ?case by auto
qed simp

text \<open>The lookup of the assigned agent finds at most one active member of the organization.\<close>

definition active_member :: "OrgScope \<Rightarrow> uuid \<Rightarrow> user \<Rightarrow> bool" where
  "active_member sc a v \<longleftrightarrow> u_id v = a \<and> u_organization_id v = Some (organization_id sc) \<and> u_status v = USER_ACTIVE"

lemma agent_lookup:
  assumes "distinct (map u_id (users d))"
  obtains (none) "filter (\<lambda>v. u_id v = a \<and> u_status v = USER_ACTIVE) (select_rows UserRepository sc d) = []"
      "\<forall>v\<in>set (users d). \<not> active_member sc a v"
    | (one) v where "filter (\<lambda>v. u_id v = a \<and> u_status v = USER_ACTIVE) (select_rows UserRepository sc d) = [v]"
      "v \<in> set (users d)" "active_member sc a v"
proof (cases "\<exists>v\<in>set (users d). active_member sc a v")
  case True
  then obtain v where v: "v \<in> set (users d)" "active_member sc a v" by blast
  have "filter (\<lambda>v. u_id v = a \<and> u_status v = USER_ACTIVE) (select_rows UserRepository sc d) =
      filter (active_member sc a) (filter (\<lambda>x. u_id x = u_id v) (users d))"
    using v by (auto simp: select_rows_def UserRepository_def active_member_def intro!: filter_cong)
  also have "\<dots> = [v]" unfolding distinct_map_inj_filter [OF assms v(1)] using v by simp
  finally show thesis using v by (rule one)
next
  case False
  then show thesis
    by (intro none) (auto simp: select_rows_def UserRepository_def filter_empty_conv active_member_def)
qed

lemma resolve_recipients_run:
  assumes dist: "distinct (map u_id (users (db s)))"
  shows "\<exists>rs. resolve_recipients sc ticket s = (Inr rs, s) \<and> distinct (map u_id rs) \<and>
    set rs = {v \<in> set (users (db s)). eligible sc ticket v}"
proof -
  let ?admins = "user_list sc (Some ADMIN) (Some USER_ACTIVE) (db s)"
  have admins: "set ?admins = {v \<in> set (users (db s)). u_organization_id v = Some (organization_id sc) \<and>
      u_status v = USER_ACTIVE \<and> u_role v = ADMIN}" "distinct (map u_id ?admins)"
    using dist by (auto simp: user_list_def select_rows_def UserRepository_def opt_where_def distinct_map_filter)
  let ?m = "map (\<lambda>v. (u_id v, v)) ?admins"
  have fold: "foldl (\<lambda>m v. dict_set (u_id v) v m) [] ?admins = ?m"
    using foldl_dict_set [OF admins(2), of "[]"] by simp
  show ?thesis
  proof (cases "t_agent_id ticket")
    case None
    then have "resolve_recipients sc ticket s = (Inr ?admins, s)"
      by (simp add: resolve_recipients_def bind_query fold Let_def ret_run bind_ret o_def)
    with None admins show ?thesis by (auto simp: eligible_def)
  next
    case (Some a)
    from dist show ?thesis
    proof (rule agent_lookup [where a = a and sc = sc])
      assume none: "filter (\<lambda>v. u_id v = a \<and> u_status v = USER_ACTIVE) (select_rows UserRepository sc (db s)) = []"
        and out: "\<forall>v\<in>set (users (db s)). \<not> active_member sc a v"
      have "resolve_recipients sc ticket s = (Inr ?admins, s)" using Some none
        by (simp add: resolve_recipients_def bind_query bind_one_or_none fold Let_def ret_run o_def)
      with Some out admins show ?thesis by (auto simp: eligible_def active_member_def)
    next
      fix v assume one: "filter (\<lambda>v. u_id v = a \<and> u_status v = USER_ACTIVE) (select_rows UserRepository sc (db s)) = [v]"
        and v: "v \<in> set (users (db s))" "active_member sc a v"
      have run: "resolve_recipients sc ticket s = (Inr (map snd (dict_set (u_id v) v ?m)), s)" using Some one
        by (simp add: resolve_recipients_def bind_query bind_one_or_none fold Let_def ret_run)
      have el: "{x \<in> set (users (db s)). eligible sc ticket x} = insert v (set ?admins)"
        using v Some dist admins(1) by (auto simp: eligible_def active_member_def dest: distinct_map_eq)
      show ?thesis
      proof (cases "v \<in> set ?admins")
        case True
        then have "dict_set (u_id v) v ?m = ?m" using admins(2) by (intro dict_set_same) (auto simp: o_def)
        with run True admins el show ?thesis by (auto simp: o_def)
      next
        case False
        then have new: "u_id v \<notin> u_id ` set ?admins" using admins(1) v(1) dist by (auto dest: distinct_map_eq)
        then have "dict_set (u_id v) v ?m = ?m @ [(u_id v, v)]" by (intro dict_set_new) auto
        with run admins new show ?thesis unfolding el by (auto simp: o_def)
      qed
    qed
  qed
qed

section \<open>Recording and notifying once\<close>

lemma readonly_resolve_recipients [simp, intro]: "readonly (resolve_recipients sc ticket)"
  unfolding resolve_recipients_def Let_def by (intro readonly_rules readonly_session)

definition notification_row :: "OrgScope \<Rightarrow> ticket \<Rightarrow> uuid \<Rightarrow> NotificationKind \<Rightarrow> int \<Rightarrow> uuid \<Rightarrow> user \<Rightarrow> notification" where
  "notification_row sc ticket e kind ts u v =
    \<lparr>n_id = u, n_organization_id = organization_id sc, n_user_id = u_id v, n_ticket_id = Some (t_id ticket),
     n_sla_event_id = Some e, n_kind = kind, n_title = title_for kind ticket, n_body = None, n_sent_at = ts,
     n_read_at = None\<rparr>"

lemma not_blank_title: "not_blank (title_for kind ticket)"
proof -
  have "btrim (c # cs) \<noteq> []" if "c \<noteq> CHR 0x20" for c cs
    using that by (simp add: btrim_def dropWhile_append)
  then show ?thesis by (simp add: title_for_def not_blank_def)
qed

lemma db_ok_insert_notifications:
  assumes "db_ok d" "distinct (map n_id ns)" "n_id ` set ns \<inter> n_id ` set (notifications d) = {}"
    "\<And>n. n \<in> set ns \<Longrightarrow> notification_row_ok n \<and> n_organization_id n \<in> set (org_pks d) \<and>
       n_user_id n \<in> set (user_pks d) \<and> (\<exists>k\<in>set (ticket_pks d). n_ticket_id n = Some k) \<and>
       (\<exists>k\<in>se_id ` set (sla_events d). n_sla_event_id n = Some k)"
  shows "db_ok (notifications_update (\<lambda>rs. rs @ ns) d)"
proof -
  have fk: "fk_ok ref ns pks" if "\<And>n. n \<in> set ns \<Longrightarrow> \<exists>k\<in>set pks. ref n = Some k" for ref :: "notification \<Rightarrow> _" and pks
    using that by (fastforce simp: fk_ok_def list_all_iff)
  have app: "fk_ok ref (xs @ ns) pks = (fk_ok ref xs pks \<and> fk_ok ref ns pks)" for ref xs and pks
    by (simp add: fk_ok_def)
  have "fk_ok (\<lambda>r. Some (n_organization_id r)) ns (org_pks d)" "fk_ok (\<lambda>r. Some (n_user_id r)) ns (user_pks d)"
    "fk_ok n_ticket_id ns (ticket_pks d)" "fk_ok n_sla_event_id ns (map se_id (sla_events d))"
    using assms(4) by (intro fk; auto)+
  moreover have "list_all notification_row_ok ns" using assms(4) by (simp add: list_all_iff)
  ultimately have "notifications_ok (notifications_update (\<lambda>rs. rs @ ns) d)"
    using assms(1-3) by (auto simp: db_ok_def notifications_ok_def app)
  with assms(1) show ?thesis by (simp add: db_ok_def table_ok_defs)
qed

lemma db_ok_insert_sla_event:
  assumes "db_ok d" "se_id e \<notin> se_id ` set (sla_events d)"
    "se_organization_id e \<in> set (org_pks d)" "se_ticket_id e \<in> set (ticket_pks d)"
    "once_event (se_event e) \<Longrightarrow> \<forall>x\<in>set (sla_events d). \<not> (se_ticket_id x = se_ticket_id e \<and> se_event x = se_event e)"
  shows "db_ok (sla_events_update (\<lambda>rs. rs @ [e]) d)"
proof -
  have "sla_events_ok (sla_events_update (\<lambda>rs. rs @ [e]) d)"
    using assms by (auto simp: db_ok_def sla_events_ok_def unique_on_append)
  moreover have "fk_ok n_sla_event_id (notifications d) (map se_id (sla_events d) @ [se_id e])"
    using assms(1) by (simp add: db_ok_def notifications_ok_def)
  ultimately show ?thesis using assms(1) by (simp add: db_ok_def table_ok_defs)
qed

lemma ensures_fan_out: "ensures (tenant_frame (organization_id sc)) (fan_out sc ticket e kind)"
  unfolding fan_out_def
  by (intro tenant_rules tenant.ensures_readonly readonly_resolve_recipients
      tenant_notifications.ensures_add_row) (simp add: NotificationRepository_def)

text \<open>The insert loop of \<open>fan_out\<close>.\<close>

lemma insert_notifications:
  assumes "length vs \<le> length (uuids s)"
  shows "for_each vs (\<lambda>v. bind (add_row NotificationRepository sc (\<lambda>u. notification_row sc ticket e kind ts u v))
      (\<lambda>_. ret ())) s =
    (Inr (), s\<lparr>uuids := drop (length vs) (uuids s),
       db := notifications_update (\<lambda>rs. rs @ map2 (notification_row sc ticket e kind ts) (uuids s) vs) (db s)\<rparr>)"
  using assms
proof (induction vs arbitrary: s)
  case (Cons v vs)
  then obtain u us where u: "uuids s = u # us" by (cases "uuids s") auto
  let ?s = "s\<lparr>uuids := us, db := notifications_update (\<lambda>rs. rs @ [notification_row sc ticket e kind ts u v]) (db s)\<rparr>"
  have "add_row NotificationRepository sc (\<lambda>u. notification_row sc ticket e kind ts u v) s =
      (Inr (notification_row sc ticket e kind ts u v), ?s)"
    using u by (simp add: add_row_def insert_row_def Let_def bind_uuid4 andthen_def bind_update_db ret_run
        NotificationRepository_def notification_row_def)
  moreover have "length vs \<le> length (uuids ?s)" using Cons.prems u by simp
  ultimately show ?case using Cons.IH [of ?s] u by (simp add: bind_assoc bind_Inr bind_ret)
qed (simp add: ret_run)

lemma fan_out_run:
  assumes "ids_ok s" "length (users (db s)) \<le> length (uuids s)"
  obtains rs where "distinct (map u_id rs)" "set rs = {v \<in> set (users (db s)). eligible sc ticket v}"
    "length rs \<le> length (users (db s))"
    "fan_out sc ticket e kind s = (Inr rs, s\<lparr>uuids := drop (length rs) (uuids s),
       db := notifications_update (\<lambda>ns. ns @ map2 (notification_row sc ticket e kind (now s)) (uuids s) rs) (db s)\<rparr>)"
proof -
  obtain rs where rs: "resolve_recipients sc ticket s = (Inr rs, s)" "distinct (map u_id rs)"
    "set rs = {v \<in> set (users (db s)). eligible sc ticket v}"
    using resolve_recipients_run [OF ids_okD(2) [OF assms(1)]] by blast
  have "card (set rs) \<le> card (set (users (db s)))" using rs(3) by (intro card_mono) auto
  then have len: "length rs \<le> length (users (db s))"
    using rs(2) card_length [of "users (db s)"] by (simp add: distinct_map distinct_card)
  have "fan_out sc ticket e kind s = (Inr rs, s\<lparr>uuids := drop (length rs) (uuids s),
       db := notifications_update (\<lambda>ns. ns @ map2 (notification_row sc ticket e kind (now s)) (uuids s) rs) (db s)\<rparr>)"
    using insert_notifications [of rs s sc ticket e kind "now s"] len assms(2) rs(1)
    by (cases "rs = []")
      (simp_all add: fan_out_def bind_Inr ret_run bind_reads andthen_def notification_row_def)
  with rs len show thesis by (intro that)
qed

lemma set_map2_uuids: "n \<in> set (map2 f us vs) \<Longrightarrow> \<exists>u v. u \<in> set us \<and> v \<in> set vs \<and> n = f u v"
  by (auto simp: set_zip) (metis nth_mem)

lemma fan_out_db_ok:
  assumes "db_ok (db s)" "ids_ok s" "length (users (db s)) \<le> length (uuids s)"
    and "e \<in> se_id ` set (sla_events (db s))" "t_id ticket \<in> set (ticket_pks (db s))"
    and "organization_id sc \<in> set (org_pks (db s))" "fan_out sc ticket e kind s = (Inr rs, s')"
  shows "db_ok (db s')"
  using assms(2,3)
proof (rule fan_out_run [where sc = sc and ticket = ticket and e = e and kind = kind])
  fix rs' assume rs: "set rs' = {v \<in> set (users (db s)). eligible sc ticket v}" "length rs' \<le> length (users (db s))"
    and "fan_out sc ticket e kind s = (Inr rs', s\<lparr>uuids := drop (length rs') (uuids s),
       db := notifications_update (\<lambda>ns. ns @ map2 (notification_row sc ticket e kind (now s)) (uuids s) rs') (db s)\<rparr>)"
  with assms(7) have db: "db s' = notifications_update (\<lambda>ns. ns @ map2 (notification_row sc ticket e kind (now s)) (uuids s) rs') (db s)"
    by auto
  let ?ns = "map2 (notification_row sc ticket e kind (now s)) (uuids s) rs'"
  have ids: "map n_id ?ns = take (length rs') (uuids s)"
    using rs(2) assms(3) by (simp add: notification_row_def map2_map_map [symmetric] o_def case_prod_unfold map_fst_zip_take)
  show ?thesis unfolding db
  proof (rule db_ok_insert_notifications [OF assms(1)])
    show "distinct (map n_id ?ns)" unfolding ids using assms(2) by (simp add: ids_ok_def)
    have "n_id ` set ?ns = set (take (length rs') (uuids s))" using ids by (metis list.set_map)
    moreover have "set (uuids s) \<inter> n_id ` set (notifications (db s)) = {}"
      using tenant_notifications.rows_fresh [OF assms(2)] by (simp add: disjoint_iff NotificationRepository_def)
    ultimately show "n_id ` set ?ns \<inter> n_id ` set (notifications (db s)) = {}"
      using set_take_subset [of "length rs'" "uuids s"] by blast
  next
    fix n assume "n \<in> set ?ns"
    then obtain u v where "v \<in> set rs'" "n = notification_row sc ticket e kind (now s) u v"
      by (blast dest: set_map2_uuids)
    with assms(4-6) rs(1) show "notification_row_ok n \<and> n_organization_id n \<in> set (org_pks (db s)) \<and>
       n_user_id n \<in> set (user_pks (db s)) \<and> (\<exists>k\<in>set (ticket_pks (db s)). n_ticket_id n = Some k) \<and>
       (\<exists>k\<in>se_id ` set (sla_events (db s)). n_sla_event_id n = Some k)"
      by (auto simp: notification_row_def notification_row_ok_def not_blank_title)
  qed
qed

definition recorded :: "database \<Rightarrow> uuid \<Rightarrow> SlaEventType \<Rightarrow> bool" where
  "recorded d tid ev \<longleftrightarrow> (\<exists>x\<in>set (sla_events d). se_ticket_id x = tid \<and> se_event x = ev)"

lemma record_once_run:
  assumes "uuids s = u # us" "once_event ev"
  shows "record_once sc tid ev due s =
    (if recorded (db s) tid ev then (Inr None, s\<lparr>uuids := us\<rparr>)
     else let d = sla_events_update (\<lambda>rs. rs @ [\<lparr>se_id = u, se_organization_id = organization_id sc,
                se_ticket_id = tid, se_event = ev, se_occurred_at = now s, se_sla_due_at = due\<rparr>]) (db s)
          in if db_ok d then (Inr (Some u), s\<lparr>uuids := us, db := d\<rparr>)
             else (Inl (Raised IntegrityError), s\<lparr>uuids := us, db := d\<rparr>))"
  using assms
  by (auto simp: record_once_def bind_uuid4 bind_reads bind_query recorded_def list_ex_iff ret_run
      andthen_def bind_update_db bind_flush Let_def)

text \<open>What one \<open>record_and_notify\<close> adds: nothing if the event is already recorded, otherwise the
  event and one notification per eligible recipient.\<close>

definition added :: "OrgScope \<Rightarrow> ticket \<Rightarrow> SlaEventType \<Rightarrow> NotificationKind \<Rightarrow> database \<Rightarrow> database \<Rightarrow> bool" where
  "added sc ticket ev kind d d' \<longleftrightarrow>
    (if recorded d (t_id ticket) ev then d' = d
     else \<exists>e ns. d' = notifications_update (\<lambda>rs. rs @ ns) (sla_events_update (\<lambda>rs. rs @ [e]) d) \<and>
       se_ticket_id e = t_id ticket \<and> se_event e = ev \<and> se_organization_id e = organization_id sc \<and>
       distinct (map n_user_id ns) \<and>
       n_user_id ` set ns = u_id ` {v \<in> set (users d). eligible sc ticket v} \<and>
       (\<forall>n\<in>set ns. n_sla_event_id n = Some (se_id e) \<and> n_ticket_id n = Some (t_id ticket) \<and> n_kind n = kind \<and>
          n_organization_id n = organization_id sc))"

definition monitor_ready :: "nat \<Rightarrow> world \<Rightarrow> bool" where
  "monitor_ready k s \<longleftrightarrow> db_ok (db s) \<and> ids_ok s \<and> k * (length (users (db s)) + 1) \<le> length (uuids s)"

lemma addedI:
  assumes "\<not> recorded d (t_id ticket) ev" "d' = notifications_update (\<lambda>rs. rs @ ns) (sla_events_update (\<lambda>rs. rs @ [e]) d)"
    "se_ticket_id e = t_id ticket" "se_event e = ev" "se_organization_id e = organization_id sc"
    and ns: "map n_user_id ns = map u_id rs" "distinct (map u_id rs)" "set rs = {v \<in> set (users d). eligible sc ticket v}"
    and "\<And>n. n \<in> set ns \<Longrightarrow> n_sla_event_id n = Some (se_id e) \<and> n_ticket_id n = Some (t_id ticket) \<and> n_kind n = kind \<and>
          n_organization_id n = organization_id sc"
  shows "added sc ticket ev kind d d'"
proof -
  have "n_user_id ` set ns = u_id ` set rs" using arg_cong [OF ns(1), of set] by simp
  moreover have "distinct (map n_user_id ns)" using ns(1,2) by simp
  ultimately show ?thesis using assms(1-5,8,9) unfolding added_def
    by (simp, intro exI [of _ e] exI [of _ ns]) simp
qed

lemma map_user_rows:
  "length rs \<le> length us \<Longrightarrow> map n_user_id (map2 (notification_row sc ticket e kind ts) us rs) = map u_id rs"
proof (induction rs arbitrary: us)
  case (Cons v rs)
  then show ?case by (cases us) (auto simp: notification_row_def)
qed simp

lemma record_and_notify_run:
  assumes ready: "monitor_ready (Suc k) s" and ev: "once_event ev"
    and tk: "t_id ticket \<in> set (ticket_pks (db s))" "organization_id sc \<in> set (org_pks (db s))"
  obtains s' where "record_and_notify sc ticket due ev kind s = (Inr (), s')" "monitor_ready k s'"
    "added sc ticket ev kind (db s) (db s')" "now s' = now s" "committed s' = committed s"
proof -
  have ok: "db_ok (db s)" "ids_ok s" using ready by (auto simp: monitor_ready_def)
  obtain u us where u: "uuids s = u # us" using ready by (cases "uuids s") (auto simp: monitor_ready_def)
  have len: "k * (length (users (db s)) + 1) + length (users (db s)) \<le> length us"
    using ready u by (simp add: monitor_ready_def algebra_simps)
  show thesis
  proof (cases "recorded (db s) (t_id ticket) ev")
    case True
    then have "record_and_notify sc ticket due ev kind s = (Inr (), s\<lparr>uuids := us\<rparr>)"
      using record_once_run [OF u ev] by (simp add: record_and_notify_def bind_Inr ret_run)
    moreover have "monitor_ready k (s\<lparr>uuids := us\<rparr>)"
      using len ok ids_ok_uuids [OF ok(2) u] by (simp add: monitor_ready_def)
    ultimately show thesis using True by (intro that [of "s\<lparr>uuids := us\<rparr>"]) (simp_all add: added_def)
  next
    case False
    let ?e = "\<lparr>se_id = u, se_organization_id = organization_id sc, se_ticket_id = t_id ticket, se_event = ev,
        se_occurred_at = now s, se_sla_due_at = Some due\<rparr>"
    let ?s1 = "s\<lparr>uuids := us, db := sla_events_update (\<lambda>rs. rs @ [?e]) (db s)\<rparr>"
    have "u \<notin> se_id ` set (sla_events (db s))"
      using tenant_sla_events.rows_fresh [OF ok(2)] u by (simp add: SlaEventRepository_def)
    then have ok1: "db_ok (db ?s1)"
      using False tk by (simp, intro db_ok_insert_sla_event [OF ok(1)]) (auto simp: recorded_def)
    have r: "record_once sc (t_id ticket) ev (Some due) s = (Inr (Some u), ?s1)"
      using record_once_run [OF u ev] False ok1 by (simp add: Let_def)
    have ids1: "ids_ok ?s1" using ensuresD [OF ensures_record_once r] ok(2) by (simp add: tenant_frame_def)
    have len1: "length (users (db ?s1)) \<le> length (uuids ?s1)" using len by simp
    from ids1 len1 show thesis
    proof (rule fan_out_run [where sc = sc and ticket = ticket and e = u and kind = kind])
      fix rs
      let ?s2 = "?s1\<lparr>uuids := drop (length rs) (uuids ?s1), db := notifications_update
          (\<lambda>ns. ns @ map2 (notification_row sc ticket u kind (now ?s1)) (uuids ?s1) rs) (db ?s1)\<rparr>"
      assume rs: "distinct (map u_id rs)" "set rs = {v \<in> set (users (db ?s1)). eligible sc ticket v}"
        "length rs \<le> length (users (db ?s1))" and f: "fan_out sc ticket u kind ?s1 = (Inr rs, ?s2)"
      have us: "map n_user_id (map2 (notification_row sc ticket u kind (now ?s1)) (uuids ?s1) rs) = map u_id rs"
        using rs(3) len by (intro map_user_rows) simp
      have "db_ok (db ?s2)" using tk by (intro fan_out_db_ok [OF ok1 ids1 len1 _ _ _ f]) auto
      moreover have "ids_ok ?s2" using ensuresD [OF ensures_fan_out f] ids1 by (simp add: tenant_frame_def)
      ultimately have "monitor_ready k ?s2" using len rs(3) by (simp add: monitor_ready_def)
      moreover have "record_and_notify sc ticket due ev kind s = (Inr (), ?s2)"
        using r f by (simp add: record_and_notify_def bind_Inr ret_run)
      moreover have "added sc ticket ev kind (db s) (db ?s2)"
        by (rule addedI [where e = ?e and ns = "map2 (notification_row sc ticket u kind (now ?s1)) (uuids ?s1) rs"
              and rs = rs, OF False _ _ _ _ us rs(1)])
          (use rs(2) in \<open>auto simp: notification_row_def\<close>)
      ultimately show thesis by (intro that [of ?s2]) simp_all
    qed
  qed
qed

section \<open>A monitor pass\<close>

lemma added_frame:
  assumes "added sc ticket ev kind d d'"
  shows "tickets d' = tickets d \<and> users d' = users d \<and> organizations d' = organizations d"
  using assms by (auto simp: added_def split: if_splits)

lemma added_recorded: "added sc ticket ev kind d d' \<Longrightarrow> recorded d' (t_id ticket) ev"
  by (auto simp: added_def recorded_def split: if_splits)

lemma added_mono: "added sc ticket ev kind d d' \<Longrightarrow> recorded d tid ev' \<Longrightarrow> recorded d' tid ev'"
  by (auto simp: added_def recorded_def split: if_splits)

text \<open>One candidate: the warning when the warning instant has passed, then the breach when the due
  instant has passed.\<close>

definition processed :: "ticket \<Rightarrow> int \<Rightarrow> int \<Rightarrow> database \<Rightarrow> database \<Rightarrow> bool" where
  "processed ticket due ts d d' \<longleftrightarrow> (let sc = for_background_worker (t_organization_id ticket) in \<exists>dm.
     (if warn_at ticket due \<le> ts then added sc ticket SLA_EVENT_WARNING SLA_WARNING d dm else dm = d) \<and>
     (if due \<le> ts then added sc ticket SLA_EVENT_BREACHED SLA_BREACHED dm d' else d' = dm))"

definition monitorable :: "database \<Rightarrow> ticket \<Rightarrow> bool" where
  "monitorable d t \<longleftrightarrow> t_sla_due_at t \<noteq> None \<and> t_id t \<in> set (ticket_pks d) \<and> t_organization_id t \<in> set (org_pks d)"

lemma monitor_ready_mono: "monitor_ready k s \<Longrightarrow> j \<le> k \<Longrightarrow> monitor_ready j s"
  unfolding monitor_ready_def by (meson mult_le_mono1 order_trans)

lemma maybe_record:
  assumes "monitor_ready (Suc k) s" "once_event ev"
    "t_id ticket \<in> set (ticket_pks (db s))" "organization_id sc \<in> set (org_pks (db s))"
  obtains s' where "(if b then record_and_notify sc ticket due ev kind else ret ()) s = (Inr (), s')" "monitor_ready k s'"
    "if b then added sc ticket ev kind (db s) (db s') else db s' = db s" "now s' = now s" "committed s' = committed s"
proof (cases b)
  case True
  from assms obtain s' where "record_and_notify sc ticket due ev kind s = (Inr (), s')" "monitor_ready k s'"
    "added sc ticket ev kind (db s) (db s')" "now s' = now s" "committed s' = committed s"
    by (rule record_and_notify_run)
  with True that show thesis by simp
next
  case False
  with that [of s] monitor_ready_mono [OF assms(1), of k] show thesis by (simp add: ret_run)
qed

lemma process_ticket_run:
  assumes "monitor_ready (Suc (Suc k)) s" "monitorable (db s) ticket" "t_sla_due_at ticket = Some due"
  obtains s' where "process_ticket ticket ts s = (Inr (), s')" "monitor_ready k s'"
    "processed ticket due ts (db s) (db s')" "now s' = now s" "committed s' = committed s"
proof -
  let ?sc = "for_background_worker (t_organization_id ticket)"
  have tk: "t_id ticket \<in> set (ticket_pks (db s))" "organization_id ?sc \<in> set (org_pks (db s))"
    using assms(2) by (simp_all add: monitorable_def for_background_worker_def)
  have w: "once_event SLA_EVENT_WARNING" "once_event SLA_EVENT_BREACHED" by (simp_all add: once_event_def)
  from maybe_record [OF assms(1) w(1) tk, of "warn_at ticket due \<le> ts" due SLA_WARNING] obtain s1
    where s1: "(if warn_at ticket due \<le> ts then record_and_notify ?sc ticket due SLA_EVENT_WARNING SLA_WARNING else ret ()) s = (Inr (), s1)"
      "monitor_ready (Suc k) s1" "if warn_at ticket due \<le> ts then added ?sc ticket SLA_EVENT_WARNING SLA_WARNING (db s) (db s1) else db s1 = db s"
      "now s1 = now s" "committed s1 = committed s" by metis
  have tk1: "t_id ticket \<in> set (ticket_pks (db s1))" "organization_id ?sc \<in> set (org_pks (db s1))"
    using tk s1(3) by (auto simp: added_frame split: if_splits)
  from maybe_record [OF s1(2) w(2) tk1, of "due \<le> ts" due SLA_BREACHED] obtain s2
    where s2: "(if due \<le> ts then record_and_notify ?sc ticket due SLA_EVENT_BREACHED SLA_BREACHED else ret ()) s1 = (Inr (), s2)"
      "monitor_ready k s2" "if due \<le> ts then added ?sc ticket SLA_EVENT_BREACHED SLA_BREACHED (db s1) (db s2) else db s2 = db s1"
      "now s2 = now s1" "committed s2 = committed s1" by metis
  have "process_ticket ticket ts s = (Inr (), s2)"
    using s1(1) s2(1) assms(3) by (simp add: process_ticket_def Let_def andthen_def bind_Inr)
  moreover have "processed ticket due ts (db s) (db s2)"
    unfolding processed_def Let_def using s1(3) s2(3) by blast
  ultimately show thesis using s1 s2 by (intro that [of s2]) simp_all
qed

lemma processed_frame:
  assumes "processed ticket due ts d d'"
  shows "tickets d' = tickets d \<and> users d' = users d \<and> organizations d' = organizations d"
  using assms by (auto simp: processed_def Let_def dest!: added_frame split: if_splits)

lemma processed_recorded:
  assumes "processed ticket due ts d d'"
  shows "warn_at ticket due \<le> ts \<Longrightarrow> recorded d' (t_id ticket) SLA_EVENT_WARNING"
    and "due \<le> ts \<Longrightarrow> recorded d' (t_id ticket) SLA_EVENT_BREACHED"
    and "recorded d tid ev \<Longrightarrow> recorded d' tid ev"
  using assms by (auto simp: processed_def Let_def intro: added_recorded added_mono split: if_splits)

lemma processed_again:
  assumes "warn_at ticket due \<le> ts \<Longrightarrow> recorded d (t_id ticket) SLA_EVENT_WARNING"
    "due \<le> ts \<Longrightarrow> recorded d (t_id ticket) SLA_EVENT_BREACHED" "processed ticket due ts d d'"
  shows "d' = d"
  using assms by (auto simp: processed_def added_def Let_def split: if_splits)

lemma nested_run:
  assumes "db_ok (db s)" "m s = (Inr (), s')" "db_ok (db s')"
  shows "log_and_continue (begin_nested m) s = (Inr (), s')"
  using assms
  by (simp add: log_and_continue_def begin_nested_def bind_query andthen_def bind_flush try_except_def
      bind_Inr ret_run)

text \<open>The database after the candidates, each processed in the database its predecessors left.\<close>

inductive pass :: "int \<Rightarrow> ticket list \<Rightarrow> database \<Rightarrow> database \<Rightarrow> bool" for ts where
  pass_nil: "pass ts [] d d"
| pass_cons: "t_sla_due_at t = Some due \<Longrightarrow> processed t due ts d d1 \<Longrightarrow> pass ts cs d1 d' \<Longrightarrow> pass ts (t # cs) d d'"

inductive_cases pass_nilE: "pass ts [] d d'"
inductive_cases pass_consE: "pass ts (t # cs) d d'"

lemma pass_frame: "pass ts cs d d' \<Longrightarrow> tickets d' = tickets d \<and> users d' = users d \<and> organizations d' = organizations d"
  by (induction rule: pass.induct) (auto dest: processed_frame)

lemma pass_mono: "pass ts cs d d' \<Longrightarrow> recorded d tid ev \<Longrightarrow> recorded d' tid ev"
  by (induction rule: pass.induct) (auto intro: processed_recorded(3))

definition settled :: "int \<Rightarrow> ticket \<Rightarrow> database \<Rightarrow> bool" where
  "settled ts t d \<longleftrightarrow> (\<forall>due. t_sla_due_at t = Some due \<longrightarrow>
     (warn_at t due \<le> ts \<longrightarrow> recorded d (t_id t) SLA_EVENT_WARNING) \<and>
     (due \<le> ts \<longrightarrow> recorded d (t_id t) SLA_EVENT_BREACHED))"

lemma pass_settled: "pass ts cs d d' \<Longrightarrow> t \<in> set cs \<Longrightarrow> settled ts t d'"
proof (induction rule: pass.induct)
  case (pass_cons t' due d d1 cs d')
  have "settled ts t' d1" using pass_cons.hyps(1) processed_recorded(1,2) [OF pass_cons.hyps(2)] by (simp add: settled_def)
  then have "settled ts t' d'" using pass_mono [OF pass_cons.hyps(3)] by (auto simp: settled_def)
  with pass_cons show ?case by auto
qed simp

lemma pass_again: "pass ts cs d d' \<Longrightarrow> (\<And>t. t \<in> set cs \<Longrightarrow> settled ts t d) \<Longrightarrow> d' = d"
proof (induction rule: pass.induct)
  case (pass_cons t due d d1 cs d')
  then have "d1 = d" using processed_again [OF _ _ pass_cons.hyps(2)] by (auto simp: settled_def)
  with pass_cons show ?case by auto
qed simp

lemma for_each_candidates:
  assumes "monitor_ready (2 * length cs + k) s" "\<And>t. t \<in> set cs \<Longrightarrow> monitorable (db s) t"
  obtains s' where "for_each cs (\<lambda>t. log_and_continue (begin_nested (process_ticket t ts))) s = (Inr (), s')"
    "pass ts cs (db s) (db s')" "monitor_ready k s'" "now s' = now s" "committed s' = committed s"
  using assms
proof (induction cs arbitrary: s thesis)
  case Nil then show ?case by (simp add: ret_run pass_nil)
next
  case (Cons t cs)
  obtain due where due: "t_sla_due_at t = Some due" using Cons.prems(3) [of t] by (auto simp: monitorable_def)
  have "monitor_ready (Suc (Suc (2 * length cs + k))) s" using Cons.prems(2) by simp
  from this Cons.prems(3) [of t, simplified] due obtain s1 where s1: "process_ticket t ts s = (Inr (), s1)"
    "monitor_ready (2 * length cs + k) s1" "processed t due ts (db s) (db s1)" "now s1 = now s" "committed s1 = committed s"
    by (rule process_ticket_run)
  have step: "log_and_continue (begin_nested (process_ticket t ts)) s = (Inr (), s1)"
    using nested_run [of s "process_ticket t ts" s1] s1(1,2) Cons.prems(2) by (simp add: monitor_ready_def)
  have "\<And>x. x \<in> set cs \<Longrightarrow> monitorable (db s1) x"
    using Cons.prems(3) processed_frame [OF s1(3)] by (auto simp: monitorable_def)
  from Cons.IH [OF _ s1(2) this] obtain s2
    where "for_each cs (\<lambda>t. log_and_continue (begin_nested (process_ticket t ts))) s1 = (Inr (), s2)"
      "pass ts cs (db s1) (db s2)" "monitor_ready k s2" "now s2 = now s1" "committed s2 = committed s1" by blast
  with step s1 due show ?case
    by (intro Cons.prems(1) [of s2]) (auto simp: bind_Inr intro: pass_cons)
qed

lemma candidates_monitorable:
  assumes "db_ok d" "t \<in> set (candidates pg_scale ts d)"
  shows "monitorable d t"
  using assms
  by (auto simp: candidates_def monitorable_def db_ok_def tickets_ok_def fk_ok_def list_all_iff split: option.splits)

lemma monitor_sla_run:
  assumes "monitor_ready (2 * length (candidates pg_scale (now s) (db s)) + k) s" "db s = committed s"
  obtains s' where "monitor_sla pg_scale s = (Inr (), s')" "pass (now s) (candidates pg_scale (now s) (db s)) (db s) (db s')"
    "monitor_ready k s'" "now s' = now s" "committed s' = db s'"
proof -
  let ?cs = "candidates pg_scale (now s) (db s)"
  have "\<And>t. t \<in> set ?cs \<Longrightarrow> monitorable (db s) t"
    using assms(1) candidates_monitorable by (auto simp: monitor_ready_def)
  from for_each_candidates [OF assms(1) this, of "now s"] obtain s1
    where s1: "for_each ?cs (\<lambda>t. log_and_continue (begin_nested (process_ticket t (now s)))) s = (Inr (), s1)"
      "pass (now s) ?cs (db s) (db s1)" "monitor_ready k s1" "now s1 = now s" by metis
  have "monitor_pass pg_scale s = (Inr (), s1)" using s1(1) by (simp add: monitor_pass_def bind_reads bind_query)
  then have "monitor_sla pg_scale s = (Inr (), s1\<lparr>committed := db s1\<rparr>)"
    using s1(3) by (simp add: monitor_sla_def with_session_def andthen_def bind_Inr commit_run monitor_ready_def)
  moreover have "monitor_ready k (s1\<lparr>committed := db s1\<rparr>)" using s1(3) by (simp add: monitor_ready_def ids_ok_def)
  ultimately show thesis using s1 by (intro that [of "s1\<lparr>committed := db s1\<rparr>"]) simp_all
qed

section \<open>What is proved of notifications and the monitor\<close>

text \<open>C2: a monitor run over a consistent database commits, for every candidate ticket in turn, the
  events that are due and not yet recorded: the warning once the warning instant has passed and
  the breach once the due instant has, each with exactly one notification for every active admin
  of the ticket's organization and for its active assigned agent (\<open>processed\<close>, \<open>added\<close>). After
  it every candidate is settled.\<close>

theorem monitor_records_due_events:
  assumes "db_ok (db s)" "ids_ok s" "db s = committed s"
    and "2 * length (candidates pg_scale (now s) (db s)) * (length (users (db s)) + 1) \<le> length (uuids s)"
  shows "\<exists>s'. monitor_sla pg_scale s = (Inr (), s') \<and> committed s' = db s' \<and>
    pass (now s) (candidates pg_scale (now s) (db s)) (db s) (db s') \<and>
    (\<forall>t\<in>set (candidates pg_scale (now s) (db s)). settled (now s) t (db s'))"
proof -
  have "monitor_ready (2 * length (candidates pg_scale (now s) (db s)) + 0) s"
    using assms(1,2,4) by (simp add: monitor_ready_def)
  from monitor_sla_run [OF this assms(3)] pass_settled show ?thesis by metis
qed

definition sla_db :: database where
  "sla_db = demo_db\<lparr>tickets := [(mk_ticket 60 10 13)\<lparr>t_sla_due_at := Some (hours 30), t_agent_id := Some 12\<rparr>,
     mk_ticket 61 20 21]\<rparr>"

definition sla_world :: world where
  "sla_world = demo_world\<lparr>db := sla_db, committed := sla_db, now := hours 34,
     uuids := map (\<lambda>i. word_of_int (int i)) [100..<130]\<rparr>"

lemma sla_world_ready:
  "db_ok (db sla_world)" "ids_ok sla_world" "db sla_world = committed sla_world"
  "length (candidates (\<lambda>w. 4 * w div 5) (now sla_world) (db sla_world)) = 1"
  "length (users (db sla_world)) = 6" "length (uuids sla_world) = 30"
  by (code_simp, code_simp, simp add: sla_world_def, code_simp, code_simp, code_simp)

theorem monitor_records_due_events_witness:
  "\<exists>s'. monitor_sla (\<lambda>w. 4 * w div 5) sla_world = (Inr (), s') \<and>
     recorded (db s') 60 SLA_EVENT_WARNING \<and> recorded (db s') 60 SLA_EVENT_BREACHED"
proof -
  let ?t = "(mk_ticket 60 10 13)\<lparr>t_sla_due_at := Some (hours 30), t_agent_id := Some 12\<rparr>"
  have "?t \<in> set (candidates (\<lambda>w. 4 * w div 5) (now sla_world) (db sla_world))"
    by (simp add: candidates_def sla_world_def sla_db_def mk_ticket_def terminal_def time_defs)
  moreover have "warn_at ?t (hours 30) \<le> now sla_world" "hours 30 \<le> now sla_world" "t_id ?t = 60" by code_simp+
  ultimately show ?thesis
    using monitor_records_due_events [of sla_world "\<lambda>w. 4 * w div 5"] sla_world_ready
    by (fastforce simp: settled_def mk_ticket_def)
qed

text \<open>C6: the monitor never fires twice: run again at the same instant, it leaves the database as
  the first run left it (no event recorded again, nobody notified again).\<close>

theorem monitor_idempotent:
  assumes "db_ok (db s)" "ids_ok s" "db s = committed s"
    and "4 * length (candidates pg_scale (now s) (db s)) * (length (users (db s)) + 1) \<le> length (uuids s)"
    and "monitor_sla pg_scale s = (Inr (), s1)"
  shows "\<exists>s2. monitor_sla pg_scale s1 = (Inr (), s2) \<and> db s2 = db s1"
proof -
  let ?cs = "candidates pg_scale (now s) (db s)"
  have "monitor_ready (2 * length ?cs + 2 * length ?cs) s"
    using assms(1,2,4) by (simp add: monitor_ready_def)
  from monitor_sla_run [OF this assms(3)] assms(5)
  have p: "pass (now s) ?cs (db s) (db s1)" and r: "monitor_ready (2 * length ?cs) s1"
    and n: "now s1 = now s" and c: "committed s1 = db s1" by (metis Pair_inject)+
  have cs: "candidates pg_scale (now s1) (db s1) = ?cs" using pass_frame [OF p] n by (simp add: candidates_def)
  have "monitor_ready (2 * length (candidates pg_scale (now s1) (db s1)) + 0) s1" using r cs by simp
  from monitor_sla_run [OF this c [symmetric]] obtain s2 where "monitor_sla pg_scale s1 = (Inr (), s2)"
    "pass (now s1) (candidates pg_scale (now s1) (db s1)) (db s1) (db s2)" by metis
  moreover from this have "db s2 = db s1"
    using pass_again [of "now s" ?cs "db s1" "db s2"] pass_settled [OF p] n cs by simp
  ultimately show ?thesis by blast
qed

theorem monitor_idempotent_witness:
  "\<exists>s1 s2. monitor_sla (\<lambda>w. 4 * w div 5) sla_world = (Inr (), s1) \<and>
     monitor_sla (\<lambda>w. 4 * w div 5) s1 = (Inr (), s2) \<and> db s2 = db s1"
proof -
  have "monitor_ready (2 * length (candidates (\<lambda>w. 4 * w div 5) (now sla_world) (db sla_world)) + 0) sla_world"
    using sla_world_ready by (simp add: monitor_ready_def)
  then obtain s1 where "monitor_sla (\<lambda>w. 4 * w div 5) sla_world = (Inr (), s1)"
    using monitor_sla_run sla_world_ready(3) by metis
  with monitor_idempotent [of sla_world "\<lambda>w. 4 * w div 5" s1] sla_world_ready show ?thesis by auto
qed

text \<open>The attempts of a pass, one candidate after the other, and the candidates that failed: a candidate whose
  processing raises, or leaves a database that violates a constraint, leaves nothing behind.\<close>

inductive attempts :: "int \<Rightarrow> ticket list \<Rightarrow> world \<Rightarrow> ticket list \<Rightarrow> world \<Rightarrow> bool" for ts where
  attempted_all: "attempts ts [] s [] s"
| attempt_done: "process_ticket t ts s = (Inr (), s1) \<Longrightarrow> db_ok (db s1) \<Longrightarrow> attempts ts cs s1 failed s' \<Longrightarrow>
    attempts ts (t # cs) s failed s'"
| attempt_failed: "process_ticket t ts s = (r, s1) \<Longrightarrow> r = Inl (Raised e) \<or> r = Inr () \<and> \<not> db_ok (db s1) \<Longrightarrow>
    attempts ts cs (s1\<lparr>db := db s\<rparr>) failed s' \<Longrightarrow> attempts ts (t # cs) s (t # failed) s'"

lemma nested_cases:
  assumes "log_and_continue (begin_nested m) s = (r, s')" "r \<noteq> Inl EntropyExhausted" "db_ok (db s)"
  obtains (finished) "r = Inr ()" "m s = (Inr (), s')" "db_ok (db s')"
  | (failed) r' s1 e where "r = Inr ()" "m s = (r', s1)" "r' = Inl (Raised e) \<or> r' = Inr () \<and> \<not> db_ok (db s1)" "s' = s1\<lparr>db := db s\<rparr>"
proof -
  obtain r' s1 where m: "m s = (r', s1)" by (cases "m s")
  have run: "log_and_continue (begin_nested m) s = (case r' of
      Inl (Raised e) \<Rightarrow> (Inr (), s1\<lparr>db := db s\<rparr>)
    | Inl EntropyExhausted \<Rightarrow> (Inl EntropyExhausted, s1\<lparr>db := db s\<rparr>)
    | Inr x \<Rightarrow> if db_ok (db s1) then (Inr (), s1) else (Inr (), s1\<lparr>db := db s\<rparr>))"
    using m assms(3)
    by (auto simp: log_and_continue_def begin_nested_def bind_query andthen_def bind_flush try_except_def bind_def [of m]
        bind_update_db raise_run ret_run split: sum.splits fault.splits)
  show thesis
  proof (cases r')
    case (Inl f)
    then show thesis using run assms(1,2) m by (cases f) (auto intro: failed)
  next
    case (Inr x)
    then show thesis using run assms(1) m by (cases "db_ok (db s1)") (auto intro: finished failed)
  qed
qed

lemma nested_db_ok:
  assumes "log_and_continue (begin_nested m) s = (r, s')" "db_ok (db s)"
  shows "db_ok (db s')"
proof (cases "r = Inl EntropyExhausted")
  case True
  then show ?thesis using assms
    by (auto simp: log_and_continue_def begin_nested_def bind_query andthen_def bind_flush try_except_def bind_def [of m]
        bind_update_db raise_run ret_run split: sum.splits fault.splits prod.splits if_splits)
next
  case False
  from assms(1) False assms(2) show ?thesis by (cases rule: nested_cases) (simp_all add: assms(2))
qed

lemma pass_attempts:
  assumes "for_each cs (\<lambda>t. log_and_continue (begin_nested (process_ticket t ts))) s = (r, s')" "r \<noteq> Inl EntropyExhausted" "db_ok (db s)"
  shows "r = Inr () \<and> db_ok (db s') \<and> (\<exists>failed. attempts ts cs s failed s')"
  using assms
proof (induction cs arbitrary: s)
  case Nil
  then show ?case by (auto simp: ret_run intro: attempts.intros)
next
  case (Cons t cs)
  let ?step = "log_and_continue (begin_nested (process_ticket t ts))"
  obtain r1 s1 where step: "?step s = (r1, s1)" by (cases "?step s")
  with Cons.prems have r1: "r1 \<noteq> Inl EntropyExhausted" by (auto simp: bind_Inl)
  from step r1 Cons.prems(3) have ret: "r1 = Inr ()" by (cases rule: nested_cases) simp_all
  have rest: "for_each cs (\<lambda>t. log_and_continue (begin_nested (process_ticket t ts))) s1 = (r, s')"
    using Cons.prems(1) step unfolding ret by (simp add: bind_Inr)
  from Cons.IH [OF rest Cons.prems(2) nested_db_ok [OF step Cons.prems(3)]] obtain failed
    where out: "r = Inr ()" "db_ok (db s')" and att: "attempts ts cs s1 failed s'" by blast
  from step r1 Cons.prems(3) have "\<exists>failed. attempts ts (t # cs) s failed s'"
  proof (cases rule: nested_cases)
    case finished
    from attempt_done [OF finished(2,3) att] show ?thesis ..
  next
    case (failed r' s2 e)
    from attempt_failed [OF failed(2,3) att [unfolded failed(4)]] show ?thesis ..
  qed
  with out show ?case by simp
qed

text \<open>What a finished attempt settles, whatever ids were drawn.\<close>

definition events_grow :: "world \<Rightarrow> world \<Rightarrow> bool" where
  "events_grow s s' \<longleftrightarrow> set (sla_events (db s)) \<subseteq> set (sla_events (db s'))"

interpretation events: frame_relation events_grow
  by unfold_locales (auto simp: events_grow_def)

lemma ensures_fan_out_events: "ensures events_grow (fan_out sc ticket e kind)"
proof -
  have "ensures events_grow (add_row NotificationRepository sc mk)" for mk
    by (auto simp: ensures_def add_row_def insert_row_def events_grow_def bind_uuid4 Let_def andthen_def bind_update_db ret_run
        NotificationRepository_def split: list.splits)
  then show ?thesis unfolding fan_out_def
    by (intro events.ensures_rules events.ensures_readonly [OF readonly_resolve_recipients])
qed

lemma record_once_events:
  assumes "record_once sc tid ev due s = (Inr x, s')"
  shows "events_grow s s'" "recorded (db s') tid ev"
  using assms
  by (auto simp: record_once_def bind_uuid4 bind_reads bind_query andthen_def bind_update_db bind_flush ret_run recorded_def
      list_ex_iff events_grow_def split: list.splits if_splits)

lemma recorded_grow: "events_grow s s' \<Longrightarrow> recorded (db s) tid ev \<Longrightarrow> recorded (db s') tid ev"
  by (auto simp: events_grow_def recorded_def)

lemma record_and_notify_events:
  assumes "record_and_notify sc ticket due ev kind s = (Inr x, s')"
  shows "events_grow s s'" "recorded (db s') (t_id ticket) ev"
proof -
  from assms obtain eid s1 where r: "record_once sc (t_id ticket) ev (Some due) s = (Inr eid, s1)"
    and k: "(case eid of None \<Rightarrow> ret () | Some e \<Rightarrow> bind (fan_out sc ticket e kind) (\<lambda>_. ret ())) s1 = (Inr x, s')"
    unfolding record_and_notify_def by (rule bind_InrE)
  from k have g: "events_grow s1 s'"
    by (cases eid) (auto simp: ret_run events.refl elim!: bind_InrE dest: ensuresD [OF ensures_fan_out_events])
  show "events_grow s s'" by (rule events.trans [OF record_once_events(1) [OF r] g])
  show "recorded (db s') (t_id ticket) ev" by (rule recorded_grow [OF g record_once_events(2) [OF r]])
qed

lemma process_ticket_settles:
  assumes "process_ticket t ts s = (Inr (), s')"
  shows "events_grow s s'" "settled ts t (db s')"
proof -
  let ?sc = "for_background_worker (t_organization_id t)"
  obtain due where due: "t_sla_due_at t = Some due" using assms by (cases "t_sla_due_at t") (auto simp: process_ticket_def raise_run)
  let ?w = "if warn_at t due \<le> ts then record_and_notify ?sc t due SLA_EVENT_WARNING SLA_WARNING else ret ()"
  let ?b = "if due \<le> ts then record_and_notify ?sc t due SLA_EVENT_BREACHED SLA_BREACHED else ret ()"
  from assms due obtain x s1 where w: "?w s = (Inr x, s1)" and b: "?b s1 = (Inr (), s')"
    by (auto simp: process_ticket_def Let_def elim!: andthen_InrE)
  have g1: "events_grow s s1" using w record_and_notify_events(1) events.refl by (auto simp: ret_run split: if_splits)
  have g2: "events_grow s1 s'" using b record_and_notify_events(1) events.refl by (auto simp: ret_run split: if_splits)
  show "events_grow s s'" by (rule events.trans [OF g1 g2])
  have "warn_at t due \<le> ts \<longrightarrow> recorded (db s1) (t_id t) SLA_EVENT_WARNING" using w record_and_notify_events(2) by auto
  moreover have "due \<le> ts \<longrightarrow> recorded (db s') (t_id t) SLA_EVENT_BREACHED" using b record_and_notify_events(2) by auto
  ultimately show "settled ts t (db s')" using due recorded_grow [OF g2] by (auto simp: settled_def)
qed

lemma settled_grow: "events_grow s s' \<Longrightarrow> settled ts t (db s) \<Longrightarrow> settled ts t (db s')"
  by (auto simp: settled_def intro: recorded_grow)

lemma attempts_settle:
  "attempts ts cs s failed s' \<Longrightarrow> events_grow s s' \<and> (\<forall>t\<in>set cs. t \<in> set failed \<or> settled ts t (db s'))"
proof (induction rule: attempts.induct)
  case (attempt_done t s s1 cs failed s')
  with process_ticket_settles [OF attempt_done.hyps(1)] show ?case
    by (auto intro: events.trans settled_grow)
next
  case (attempt_failed t s r s1 e cs failed s')
  then have "events_grow s s'" by (auto simp: events_grow_def)
  with attempt_failed show ?case by auto
qed (simp add: events.refl)

text \<open>C35: one ticket's failure neither aborts the monitor's pass nor leaks partial work. Run on any consistent database,
  a monitor run returns and commits (as long as ids can be drawn), although the processing of any of its candidates may raise
  or violate a constraint - which happens after it wrote: the candidates are attempted one after the other
  (\<open>attempts\<close>), a failed one leaves the database as it was before it, the ones after it are attempted in that database,
  and what the ones before it recorded stays. Every candidate that did not fail has the events that are due.\<close>

theorem ticket_failure_is_contained:
  assumes "db_ok (db s)" "monitor_sla pg_scale s = (r, s')" "r \<noteq> Inl EntropyExhausted"
  shows "r = Inr () \<and> committed s' = db s' \<and> db_ok (db s') \<and>
    (\<exists>failed s1. attempts (now s) (candidates pg_scale (now s) (db s)) s failed s1 \<and> db s' = db s1 \<and>
       (\<forall>t\<in>set (candidates pg_scale (now s) (db s)). t \<in> set failed \<or> settled (now s) t (db s')))"
proof -
  let ?cs = "candidates pg_scale (now s) (db s)"
  obtain r1 s1 where loop: "for_each ?cs (\<lambda>t. log_and_continue (begin_nested (process_ticket t (now s)))) s = (r1, s1)"
    by fastforce
  then have "monitor_pass pg_scale s = (r1, s1)" by (simp add: monitor_pass_def bind_reads bind_query)
  then have run: "monitor_sla pg_scale s = (case bind (\<lambda>_. (r1, s1)) (\<lambda>_. commit) s of (r, t) \<Rightarrow> (r, t\<lparr>db := committed t\<rparr>))"
    by (simp add: monitor_sla_def with_session_def andthen_def bind_def)
  then have "r1 \<noteq> Inl EntropyExhausted" using assms(2,3) by (auto simp: bind_def)
  from pass_attempts [OF loop this assms(1)] obtain failed
    where a: "r1 = Inr ()" "db_ok (db s1)" "attempts (now s) ?cs s failed s1" by blast
  then have "r = Inr ()" "s' = s1\<lparr>committed := db s1\<rparr>" using run assms(2) by (simp_all add: bind_def commit_run)
  with a attempts_settle [OF a(3)] show ?thesis by auto
qed

text \<open>The ids drawn for the two notifications of the first ticket collide, which the flush at the end of its savepoint
  reports after its warning and both notifications were written.\<close>

definition colliding_db :: database where
  "colliding_db = empty_database\<lparr>organizations := [org_a],
     users := [mk_user 11 10 ''admin@acme.test'' ADMIN, mk_user 12 10 ''agent@acme.test'' AGENT],
     tickets := [(mk_ticket 60 10 11)\<lparr>t_sla_due_at := Some (hours 40), t_agent_id := Some 12\<rparr>,
       (mk_ticket 62 10 11)\<lparr>t_sla_due_at := Some (hours 40)\<rparr>]\<rparr>"

definition colliding_world :: world where
  "colliding_world = demo_world\<lparr>db := colliding_db, committed := colliding_db, now := hours 34, uuids := [100, 101, 101, 102, 103]\<rparr>"

theorem ticket_failure_is_contained_witness:
  "\<exists>s'. monitor_sla (\<lambda>w. 4 * w div 5) colliding_world = (Inr (), s') \<and> committed s' = db s' \<and>
     map se_ticket_id (sla_events (db s')) = [62] \<and> map n_ticket_id (notifications (db s')) = [Some 62]"
proof -
  let ?run = "monitor_sla (\<lambda>w. 4 * w div 5) colliding_world"
  have eval: "case ?run of (r, s') \<Rightarrow> r \<noteq> Inl EntropyExhausted \<and>
      map se_ticket_id (sla_events (db s')) = [62] \<and> map n_ticket_id (notifications (db s')) = [Some 62]"
    by code_simp
  have ok: "db_ok (db colliding_world)" by code_simp
  obtain r s' where run: "?run = (r, s')" by (cases ?run)
  note out = eval [unfolded run prod.case]
  from ticket_failure_is_contained [OF ok run conjunct1 [OF out]] have "r = Inr ()" "committed s' = db s'" by simp_all
  with run conjunct2 [OF out] show ?thesis by simp
qed

text \<open>C37: the inbox. The pages of \<open>list_notifications\<close> are consecutive slices of the caller's own
  notifications, newest first, and \<open>total\<close> counts exactly the notifications addressed to the
  caller in the organization.\<close>

theorem list_notifications_pages:
  shows "\<exists>inbox. (\<forall>limit offset. list_notifications sc limit offset s =
      (Inr (take limit (drop offset inbox), length inbox), s)) \<and>
    mset inbox = mset (filter (\<lambda>n. n_user_id n = user_id sc \<and> n_organization_id n = organization_id sc)
      (notifications (db s))) \<and>
    sorted_wrt (\<lambda>a b. n_sent_at b < n_sent_at a \<or> n_sent_at b = n_sent_at a \<and> n_id b \<le> n_id a) inbox"
proof (intro exI conjI allI)
  let ?inbox = "for_recipient sc (user_id sc) (db s)"
  show "list_notifications sc limit offset s = (Inr (take limit (drop offset ?inbox), length ?inbox), s)" for limit offset
    by (simp add: list_notifications_def bind_query ret_run)
  show "mset ?inbox = mset (filter (\<lambda>n. n_user_id n = user_id sc \<and> n_organization_id n = organization_id sc)
      (notifications (db s)))"
    by (simp add: for_recipient_def select_rows_def NotificationRepository_def conj_commute)
  have "sorted_wrt (\<lambda>a b. (n_sent_at a, n_id a) \<le> (n_sent_at b, n_id b))
      (sort_key (\<lambda>n. (n_sent_at n, n_id n)) xs)" for xs
    using sorted_sort_key [of "\<lambda>n. (n_sent_at n, n_id n)" xs] by (simp add: sorted_map)
  then have "sorted_wrt (\<lambda>a b. n_sent_at a < n_sent_at b \<or> n_sent_at a = n_sent_at b \<and> n_id a \<le> n_id b)
      (sort_key (\<lambda>n. (n_sent_at n, n_id n)) xs)" for xs
    by (rule sorted_wrt_mono_rel [rotated]) (auto simp: less_eq_prod_def)
  then show "sorted_wrt (\<lambda>a b. n_sent_at b < n_sent_at a \<or> n_sent_at b = n_sent_at a \<and> n_id b \<le> n_id a) ?inbox"
    by (simp add: for_recipient_def sorted_wrt_rev)
qed

lemma distinct_for_recipient:
  "distinct (map n_id (notifications d)) \<Longrightarrow> distinct (map n_id (for_recipient sc uid d))"
  by (auto simp: for_recipient_def select_rows_def NotificationRepository_def distinct_map inj_on_def)

lemma set_for_recipient:
  "n \<in> set (for_recipient sc uid d) \<longleftrightarrow>
     n \<in> set (notifications d) \<and> n_user_id n = uid \<and> n_organization_id n = organization_id sc"
  by (auto simp: for_recipient_def select_rows_def NotificationRepository_def)

lemma get_own_notification:
  assumes "distinct (map n_id (notifications (db s)))" "n \<in> set (notifications (db s))"
  shows "get_notification_or_404 sc (n_id n) s =
    (if n_user_id n = user_id sc \<and> n_organization_id n = organization_id sc then (Inr n, s)
     else (Inl (Raised (NotFoundError ''Notification'' (Some (n_id n)))), s))"
proof -
  let ?f = "filter (\<lambda>m. n_id m = n_id n) (for_recipient sc (user_id sc) (db s))"
  have "?f = (if n_user_id n = user_id sc \<and> n_organization_id n = organization_id sc then [n] else [])"
  proof (cases "n \<in> set (for_recipient sc (user_id sc) (db s))")
    case True
    then have "?f = [n]" using distinct_map_inj_filter [OF distinct_for_recipient [OF assms(1)]] by blast
    with True show ?thesis by (simp add: set_for_recipient)
  next
    case False
    then have "?f = []"
      using assms by (auto simp: filter_empty_conv set_for_recipient dest: distinct_map_eq)
    with False assms(2) show ?thesis by (auto simp: set_for_recipient)
  qed
  then show ?thesis by (simp add: get_notification_or_404_def bind_one_or_none ret_run raise_run)
qed

lemma db_ok_stamp_notification:
  assumes "db_ok d" "n \<in> set (notifications d)"
  shows "db_ok (notifications_update (update_where (\<lambda>x. n_id x = n_id n) (\<lambda>_. n\<lparr>n_read_at := r\<rparr>)) d)"
proof -
  let ?u = "update_where (\<lambda>x. n_id x = n_id n) (\<lambda>_. n\<lparr>n_read_at := r\<rparr>) (notifications d)"
  have dist: "distinct (map n_id (notifications d))" using assms(1) by (simp add: db_ok_def table_ok_defs)
  then have eq: "x = n" if "x \<in> set (notifications d)" "n_id x = n_id n" for x
    using that assms(2) by (auto dest: distinct_map_eq)
  have "map n_id ?u = map n_id (notifications d)" by (simp add: map_update_where)
  moreover have "fk_ok ref ?u pks" if "fk_ok ref (notifications d) pks" "ref (n\<lparr>n_read_at := r\<rparr>) = ref n" for ref pks
    using that eq by (intro fk_ok_update_where) auto
  moreover have "list_all notification_row_ok ?u" using assms
    by (intro list_all_update_where) (auto simp: db_ok_def notifications_ok_def notification_row_ok_def list_all_iff)
  ultimately have "notifications_ok (notifications_update (update_where (\<lambda>x. n_id x = n_id n) (\<lambda>_. n\<lparr>n_read_at := r\<rparr>)) d)"
    using assms(1) by (simp add: db_ok_def notifications_ok_def)
  with assms(1) show ?thesis by (simp add: db_ok_def table_ok_defs)
qed

text \<open>C36: \<open>mark_read\<close> answers 404 for a notification that is not the caller's, stamps an unread one
  with the current time, and never overwrites the stamp: a second call returns the same row and
  changes nothing.\<close>

theorem mark_read_once:
  assumes ok: "db_ok (db s)" and n: "n \<in> set (notifications (db s))"
  shows "if n_user_id n = user_id sc \<and> n_organization_id n = organization_id sc
    then \<exists>s1. mark_read sc (n_id n) s = (Inr (if n_read_at n = None then n\<lparr>n_read_at := Some (now s)\<rparr> else n), s1) \<and>
      (\<forall>ts. mark_read sc (n_id n) (s1\<lparr>now := ts\<rparr>) =
         (Inr (if n_read_at n = None then n\<lparr>n_read_at := Some (now s)\<rparr> else n), s1\<lparr>now := ts\<rparr>))
    else mark_read sc (n_id n) s = (Inl (Raised (NotFoundError ''Notification'' (Some (n_id n)))), s)"
proof (cases "n_user_id n = user_id sc \<and> n_organization_id n = organization_id sc")
  case own: True
  have dist: "distinct (map n_id (notifications (db s)))" using ok by (simp add: db_ok_def table_ok_defs)
  show ?thesis
  proof (cases "n_read_at n")
    case None
    let ?n = "n\<lparr>n_read_at := Some (now s)\<rparr>"
    let ?s = "s\<lparr>db := notifications_update (update_where (\<lambda>x. n_id x = n_id n) (\<lambda>_. ?n)) (db s)\<rparr>"
    have first: "mark_read sc (n_id n) s = (Inr ?n, ?s)"
      using get_own_notification [OF dist n, of sc] own None db_ok_stamp_notification [OF ok n]
      by (simp add: mark_read_def bind_Inr bind_reads Let_def andthen_def write_row_def bind_update_db
          bind_flush ret_run NotificationRepository_def)
    have "mark_read sc (n_id n) (?s\<lparr>now := ts\<rparr>) = (Inr ?n, ?s\<lparr>now := ts\<rparr>)" for ts
    proof -
      have "distinct (map n_id (notifications (db (?s\<lparr>now := ts\<rparr>))))" using dist by (simp add: map_update_where)
      moreover have "?n \<in> set (notifications (db (?s\<lparr>now := ts\<rparr>)))" using n by (auto simp: set_update_where image_iff)
      ultimately have "get_notification_or_404 sc (n_id ?n) (?s\<lparr>now := ts\<rparr>) = (Inr ?n, ?s\<lparr>now := ts\<rparr>)"
        using get_own_notification [of "?s\<lparr>now := ts\<rparr>" ?n sc] own by simp
      then show ?thesis by (simp add: mark_read_def bind_Inr ret_run)
    qed
    with first own None show ?thesis by auto
  next
    case (Some r)
    have "distinct (map n_id (notifications (db (s\<lparr>now := ts\<rparr>))))" "n \<in> set (notifications (db (s\<lparr>now := ts\<rparr>)))" for ts
      using dist n by simp_all
    then have "mark_read sc (n_id n) (s\<lparr>now := ts\<rparr>) = (Inr n, s\<lparr>now := ts\<rparr>)" for ts
      using get_own_notification [of "s\<lparr>now := ts\<rparr>" n sc] own Some by (simp add: mark_read_def bind_Inr ret_run)
    moreover have "mark_read sc (n_id n) s = (Inr n, s)"
      using get_own_notification [OF dist n, of sc] own Some by (simp add: mark_read_def bind_Inr ret_run)
    ultimately show ?thesis using own Some by auto
  qed
next
  case False
  have "distinct (map n_id (notifications (db s)))" using ok by (simp add: db_ok_def table_ok_defs)
  from get_own_notification [OF this n, of sc] False show ?thesis by (simp add: mark_read_def bind_Inl)
qed

definition inbox_db :: database where
  "inbox_db = demo_db\<lparr>notifications := [\<lparr>n_id = 70, n_organization_id = 10, n_user_id = 11, n_ticket_id = Some 60,
     n_sla_event_id = None, n_kind = SLA_WARNING, n_title = ''t'', n_body = None, n_sent_at = 0, n_read_at = None\<rparr>]\<rparr>"

theorem mark_read_once_witness:
  "mark_read (demo_scope 12 AGENT) 70 (demo_world\<lparr>db := inbox_db\<rparr>) =
     (Inl (Raised (NotFoundError ''Notification'' (Some 70))), demo_world\<lparr>db := inbox_db\<rparr>)"
proof -
  have "db_ok inbox_db" by code_simp
  then show ?thesis
    using mark_read_once [of "demo_world\<lparr>db := inbox_db\<rparr>" "hd (notifications inbox_db)" "demo_scope 12 AGENT"]
    by (simp add: inbox_db_def)
qed

end
