(* ===== verification/Security.thy ===== *)
theory Security
  imports Fixtures
begin

text \<open>
  \<open>src/app/core/security.py\<close>, \<open>src/app/core/jwt.py\<close> and \<open>src/app/api/deps.py\<close>: password and
  token hashing, access tokens, and the resolution of the authenticated principal.

  Argon2, SHA-256 and the JWT codec are third-party code; the record \<open>libs\<close> holds them, and it
  is an argument of every definition that reaches them. \<open>argon2_hash\<close> takes the random salt it
  draws as its first argument. \<open>argon2_verify\<close> returns (\<open>Some True\<close>) or raises (\<open>None\<close>).
  \<open>jwt_decode\<close> is given the current time and the token and answers the claims, or \<open>None\<close> for any
  \<open>PyJWTError\<close>; the secret and the algorithm are fixed by the settings.

  \<open>jwt_sound\<close> states what the code relies on: a token decodes to the claims it was encoded from
  from its \<open>iat\<close> until its \<open>exp\<close> (timestamps below the end of Python's calendar).
\<close>

record libs =
  argon2_hash :: "string \<Rightarrow> string \<Rightarrow> string"
  argon2_verify :: "string \<Rightarrow> string \<Rightarrow> bool option"
  argon2_outdated :: "string \<Rightarrow> bool"
  sha256 :: "string \<Rightarrow> string"
  jwt_encode :: "(string \<times> json) list \<Rightarrow> string"
  jwt_decode :: "int \<Rightarrow> string \<Rightarrow> (string \<times> json) list option"

section \<open>security.py\<close>

definition hash_password :: "libs \<Rightarrow> string \<Rightarrow> string service" where
  "hash_password L plain = bind new_opaque_token (\<lambda>salt. ret (argon2_hash L salt plain))"

definition verify_password :: "libs \<Rightarrow> string \<Rightarrow> string \<Rightarrow> bool" where
  "verify_password L hashed plain = (case argon2_verify L hashed plain of Some b \<Rightarrow> b | None \<Rightarrow> False)"

definition needs_rehash :: "libs \<Rightarrow> string \<Rightarrow> bool" where
  "needs_rehash L hashed = argon2_outdated L hashed"

definition sha256_hash :: "libs \<Rightarrow> string \<Rightarrow> string" where
  "sha256_hash L raw = sha256 L raw"

section \<open>jwt.py\<close>

definition DEFAULT_ACCESS_TOKEN_EXPIRY :: int where
  "DEFAULT_ACCESS_TOKEN_EXPIRY = minutes 20"

fun role_value :: "UserRole \<Rightarrow> string" where
  "role_value TENANT = ''tenant''"
| "role_value OWNER = ''owner''"
| "role_value AGENT = ''agent''"
| "role_value ADMIN = ''admin''"

definition access_claims :: "uuid \<Rightarrow> uuid option \<Rightarrow> UserRole \<Rightarrow> uuid \<Rightarrow> int \<Rightarrow> int \<Rightarrow> (string \<times> json) list" where
  "access_claims sub org rl jti iat expiry =
    [(''sub'', JStr (uuid_str sub)),
     (''org'', case org of None \<Rightarrow> JNull | Some i \<Rightarrow> JStr (uuid_str i)),
     (''role'', JStr (role_value rl)), (''jti'', JStr (uuid_str jti)),
     (''iat'', JInt iat), (''exp'', JInt expiry), (''typ'', JStr ''access'')]"

definition encode_access_token :: "libs \<Rightarrow> uuid \<Rightarrow> uuid option \<Rightarrow> UserRole \<Rightarrow> string service" where
  "encode_access_token L sub org rl = bind (reads now) (\<lambda>ts. bind uuid4 (\<lambda>jti.
     ret (jwt_encode L (access_claims sub org rl jti (ts div us_per_second)
            ((ts + DEFAULT_ACCESS_TOKEN_EXPIRY) div us_per_second)))))"

definition decode_access_token :: "libs \<Rightarrow> string \<Rightarrow> (string \<times> json) list service" where
  "decode_access_token L tok = bind (reads now) (\<lambda>ts.
     case jwt_decode L ts tok of
       None \<Rightarrow> throw InvalidAccessTokenError
     | Some claims \<Rightarrow>
         if map_of claims ''typ'' \<noteq> Some (JStr ''access'') then throw InvalidAccessTokenError
         else ret claims)"

section \<open>UUID(text)\<close>

text \<open>The constructor of \<open>uuid.UUID\<close>: drop \<open>urn:\<close> and \<open>uuid:\<close>, strip braces, drop hyphens, require
  32 characters, read them with \<open>int(hex, 16)\<close> (which allows blanks around, a sign, \<open>0x\<close> and
  single underscores), require the result to be in range.\<close>

fun remove_all :: "string \<Rightarrow> string \<Rightarrow> string" where
  "remove_all p [] = []"
| "remove_all p (c # cs) =
    (if p \<noteq> [] \<and> py_startswith (c # cs) p then remove_all p (drop (length p - 1) cs)
     else c # remove_all p cs)"

definition strip_braces :: "string \<Rightarrow> string" where
  "strip_braces s = (let b = (\<lambda>c. c = CHR ''{'' \<or> c = CHR ''}'')
     in rev (dropWhile b (rev (dropWhile b s))))"

definition hex_value :: "char \<Rightarrow> int option" where
  "hex_value c = (let n = (of_char c :: int) in
     if 48 \<le> n \<and> n \<le> 57 then Some (n - 48)
     else if 97 \<le> n \<and> n \<le> 102 then Some (n - 87)
     else if 65 \<le> n \<and> n \<le> 70 then Some (n - 55) else None)"

fun hex_digits :: "bool \<Rightarrow> int \<Rightarrow> string \<Rightarrow> int option" where
  "hex_digits after acc [] = (if after then Some acc else None)"
| "hex_digits after acc (c # cs) =
    (if c = CHR ''_'' then (if after then hex_digits False acc cs else None)
     else case hex_value c of None \<Rightarrow> None | Some v \<Rightarrow> hex_digits True (16 * acc + v) cs)"

definition drop_prefix :: "string \<Rightarrow> string" where
  "drop_prefix r = (if py_startswith r ''0x'' \<or> py_startswith r ''0X''
     then (let t = drop 2 r in if py_startswith t ''_'' then drop 1 t else t) else r)"

definition int_base16 :: "string \<Rightarrow> int option" where
  "int_base16 s = (case py_strip s of
      [] \<Rightarrow> None
    | c # cs \<Rightarrow>
        if c = CHR ''-'' then map_option uminus (hex_digits False 0 (drop_prefix cs))
        else hex_digits False 0 (drop_prefix (if c = CHR ''+'' then cs else c # cs)))"

definition uuid_of_string :: "string \<Rightarrow> uuid option" where
  "uuid_of_string text =
    (let h = filter (\<lambda>c. c \<noteq> CHR ''-'') (strip_braces (remove_all ''uuid:'' (remove_all ''urn:'' text)))
     in if length h \<noteq> 32 then None
        else case int_base16 h of None \<Rightarrow> None
          | Some n \<Rightarrow> if 0 \<le> n \<and> n < 2 ^ 128 then Some (word_of_int n) else None)"

definition uuid_of_json :: "json option \<Rightarrow> error + uuid" where
  "uuid_of_json v = (case v of
      None \<Rightarrow> Inl KeyError
    | Some (JStr text) \<Rightarrow> (case uuid_of_string text of None \<Rightarrow> Inl ValueError | Some u \<Rightarrow> Inr u)
    | Some JNull \<Rightarrow> Inl TypeError
    | Some _ \<Rightarrow> Inl AttributeError)"

section \<open>deps.py\<close>

definition UNAUTHORIZED :: error where
  "UNAUTHORIZED = HTTPException 401 ''could not validate credentials''"

definition get_principal :: "libs \<Rightarrow> string \<Rightarrow> user service" where
  "get_principal L credentials =
    bind (try_except (decode_access_token L credentials)
           (\<lambda>e. if e = Raised InvalidAccessTokenError then throw UNAUTHORIZED else raise e)) (\<lambda>claims.
    case uuid_of_json (map_of claims ''sub'') of
      Inl e \<Rightarrow> throw (if e \<in> {KeyError, ValueError, TypeError} then UNAUTHORIZED else e)
    | Inr uid \<Rightarrow>
        bind (one_or_none (\<lambda>d. filter (\<lambda>u. u_id u = uid) (users d))) (\<lambda>found.
        case found of
          None \<Rightarrow> throw UNAUTHORIZED
        | Some u \<Rightarrow> if u_status u \<noteq> USER_ACTIVE then throw UNAUTHORIZED else ret u))"

definition require_super_admin :: "user \<Rightarrow> error + user" where
  "require_super_admin actor =
    (if u_organization_id actor \<noteq> None \<or> u_role actor \<noteq> ADMIN
     then Inl (HTTPException 404 ''Not found'') else Inr actor)"

definition require_org_admin :: "user \<Rightarrow> error + OrgScope" where
  "require_org_admin actor =
    (if u_role actor \<noteq> ADMIN \<or> u_organization_id actor = None
     then Inl (HTTPException 403 ''admin privileges required'') else from_principal actor)"

definition require_org_staff :: "user \<Rightarrow> error + OrgScope" where
  "require_org_staff actor =
    (if u_role actor \<notin> {ADMIN, AGENT} \<or> u_organization_id actor = None
     then Inl (HTTPException 403 ''staff privileges required'') else from_principal actor)"

definition require_org_member :: "user \<Rightarrow> error + OrgScope" where
  "require_org_member actor =
    (if u_organization_id actor = None
     then Inl (HTTPException 403 ''organization membership required'') else from_principal actor)"

section \<open>Reading back what str(uuid) printed\<close>

lemma of_char_hex_digit:
  "0 \<le> n \<Longrightarrow> n < 16 \<Longrightarrow> (of_char (hex_digit n) :: int) = (if n < 10 then 48 + n else 87 + n)"
  by (simp add: hex_digit_def of_char_of)

lemma hex_value_digit: "0 \<le> n \<Longrightarrow> n < 16 \<Longrightarrow> hex_value (hex_digit n) = Some n"
  by (simp add: hex_value_def Let_def of_char_hex_digit)

definition is_hex :: "char \<Rightarrow> bool" where
  "is_hex c \<longleftrightarrow> (let n = (of_char c :: nat) in 48 \<le> n \<and> n \<le> 57 \<or> 97 \<le> n \<and> n \<le> 102)"

lemma of_char_nat: "(of_char c :: nat) = nat (of_char c :: int)"
  by (simp add: of_char_def)

lemma hex_digit_is_hex: "0 \<le> n \<Longrightarrow> n < 16 \<Longrightarrow> is_hex (hex_digit n)"
  by (auto simp: is_hex_def Let_def of_char_nat of_char_hex_digit)

lemma is_hex_plain:
  "is_hex c \<Longrightarrow> \<not> py_isspace c \<and> c \<noteq> CHR ''-'' \<and> c \<noteq> CHR ''+'' \<and> c \<noteq> CHR ''_'' \<and> c \<noteq> CHR ''x'' \<and>
     c \<noteq> CHR ''X'' \<and> c \<noteq> CHR ''u'' \<and> c \<noteq> CHR ''{'' \<and> c \<noteq> CHR ''}''"
  by (auto simp: is_hex_def py_isspace_def Let_def)

lemma hex_digits_foldl:
  assumes "\<And>n. n \<in> set ns \<Longrightarrow> 0 \<le> n \<and> n < 16" and "after \<or> ns \<noteq> []"
  shows "hex_digits after acc (map hex_digit ns) = Some (foldl (\<lambda>a n. 16 * a + n) acc ns)"
  using assms
proof (induction ns arbitrary: after acc)
  case (Cons n ns)
  then have "hex_digit n \<noteq> CHR ''_''" using hex_digit_is_hex [of n] is_hex_plain by auto
  with Cons show ?case by (simp add: hex_value_digit)
qed simp

lemma foldl_base16:
  "foldl (\<lambda>a n. 16 * a + n) (0::int) (map (\<lambda>i. m div 16 ^ (k - 1 - i) mod 16) [0..<k]) = m mod 16 ^ k"
proof (induction k arbitrary: m)
  case (Suc k)
  have eq: "map (\<lambda>i. m div 16 ^ (Suc k - 1 - i) mod 16) [0..<k] = map (\<lambda>i. (m div 16) div 16 ^ (k - 1 - i) mod 16) [0..<k]"
  proof (rule map_cong [OF refl])
    fix i assume "i \<in> set [0..<k]"
    then have "Suc k - 1 - i = Suc (k - 1 - i)" by auto
    then show "m div 16 ^ (Suc k - 1 - i) mod 16 = (m div 16) div 16 ^ (k - 1 - i) mod 16"
      by (simp add: zdiv_zmult2_eq)
  qed
  moreover have "16 * ((m div 16) mod 16 ^ k) + m mod 16 = m mod 16 ^ Suc k"
    using zmod_zmult2_eq [of "16 ^ k" m 16] by simp
  moreover have "map (\<lambda>i. m div 16 ^ (Suc k - 1 - i) mod 16) [0..<Suc k] =
      map (\<lambda>i. m div 16 ^ (Suc k - 1 - i) mod 16) [0..<k] @ [m mod 16]" by simp
  ultimately show ?case by (simp only: eq foldl_append foldl.simps Suc)
qed simp

lemma uuid_hex_eq: "uuid_hex u = map hex_digit (map (\<lambda>i. uint u div 16 ^ (31 - i) mod 16) [0..<32])"
  by (simp add: uuid_hex_def)

lemma length_uuid_hex [simp]: "length (uuid_hex u) = 32"
  by (simp add: uuid_hex_def)

lemma uuid_hex_chars: "c \<in> set (uuid_hex u) \<Longrightarrow> is_hex c"
  by (auto simp: uuid_hex_def intro!: hex_digit_is_hex)

lemma uint_uuid_mod: "uint (u :: uuid) mod 16 ^ 32 = uint u"
  using uint_lt2p [of u] by (simp add: mod_pos_pos_trivial)

lemma numeral_32_minus: "32 - 1 - i = 31 - (i::nat)"
  by simp

lemma hex_digits_uuid: "hex_digits False 0 (uuid_hex u) = Some (uint u)"
proof -
  let ?ns = "map (\<lambda>i. uint u div 16 ^ (31 - i) mod 16) [0..<32]"
  have "hex_digits False 0 (uuid_hex u) = Some (foldl (\<lambda>a n. 16 * a + n) 0 ?ns)"
    unfolding uuid_hex_eq by (intro hex_digits_foldl) (auto simp del: upt_rec_numeral)
  also have "foldl (\<lambda>a n. 16 * a + n) 0 ?ns = uint u mod 16 ^ 32"
    using foldl_base16 [of "uint u" 32] by (simp only: numeral_32_minus)
  finally show ?thesis by (simp only: uint_uuid_mod)
qed

lemma remove_all_plain: "c \<notin> set str \<Longrightarrow> remove_all (c # p) str = str"
  by (induction str) (auto simp: py_startswith_def)

lemma dropWhile_none: "(\<And>c. c \<in> set xs \<Longrightarrow> \<not> b c) \<Longrightarrow> dropWhile b xs = xs"
  by (cases xs) auto

lemma strip_braces_plain:
  "(\<And>c. c \<in> set xs \<Longrightarrow> c \<noteq> CHR ''{'' \<and> c \<noteq> CHR ''}'') \<Longrightarrow> strip_braces xs = xs"
  unfolding strip_braces_def Let_def by (subst dropWhile_none, auto)+

lemma py_strip_plain: "(\<And>c. c \<in> set xs \<Longrightarrow> \<not> py_isspace c) \<Longrightarrow> py_strip xs = xs"
  unfolding py_strip_def by (subst dropWhile_none, auto)+

lemma filter_hyphens_uuid_str: "filter (\<lambda>c. c \<noteq> CHR ''-'') (uuid_str u) = uuid_hex u"
proof -
  have keep: "filter (\<lambda>c. c \<noteq> CHR ''-'') xs = xs" if "set xs \<subseteq> set (uuid_hex u)" for xs
    using that uuid_hex_chars is_hex_plain by (intro filter_True) blast
  have sub: "set (take n (drop m (uuid_hex u))) \<subseteq> set (uuid_hex u)" for n m
    by (meson order_trans set_drop_subset set_take_subset)
  have "filter (\<lambda>c. c \<noteq> CHR ''-'') (uuid_str u) =
    take 8 (uuid_hex u) @ take 4 (drop 8 (uuid_hex u)) @ take 4 (drop 12 (uuid_hex u)) @
    take 4 (drop 16 (uuid_hex u)) @ drop 20 (uuid_hex u)"
    using sub [of _ 0] sub
    by (simp add: uuid_str_def Let_def keep set_take_subset set_drop_subset del: filter_True)
  also have "\<dots> = uuid_hex u"
  proof -
    have "take k (drop m xs) @ drop (m + k) xs = drop m xs" for k m and xs :: string
      by (metis add.commute append_take_drop_id drop_drop)
    from this [of 4 16 "uuid_hex u"] this [of 4 12 "uuid_hex u"] this [of 4 8 "uuid_hex u"]
    show ?thesis by simp
  qed
  finally show ?thesis .
qed

lemma uuid_str_chars:
  assumes "c \<in> set (uuid_str u)"
  shows "is_hex c \<or> c = CHR ''-''"
proof (cases "c = CHR ''-''")
  case False
  with assms have "c \<in> set (filter (\<lambda>c. c \<noteq> CHR ''-'') (uuid_str u))" by simp
  then have "c \<in> set (uuid_hex u)" by (simp only: filter_hyphens_uuid_str)
  then show ?thesis by (simp add: uuid_hex_chars)
qed simp

lemma uuid_of_string_str [simp]: "uuid_of_string (uuid_str u) = Some u"
proof -
  have plain: "CHR ''u'' \<notin> set (uuid_str u)" "\<And>c. c \<in> set (uuid_str u) \<Longrightarrow> c \<noteq> CHR ''{'' \<and> c \<noteq> CHR ''}''"
    using uuid_str_chars is_hex_plain by fastforce+
  obtain a b cs where h: "uuid_hex u = a # b # cs"
    using length_uuid_hex [of u] by (cases "uuid_hex u"; cases "tl (uuid_hex u)") auto
  have ab: "is_hex a" "is_hex b" using uuid_hex_chars [of _ u] h by auto
  have "py_strip (uuid_hex u) = uuid_hex u"
    using uuid_hex_chars is_hex_plain by (intro py_strip_plain) blast
  moreover have "drop_prefix (uuid_hex u) = uuid_hex u"
    using is_hex_plain [OF ab(2)] by (simp add: drop_prefix_def h py_startswith_def)
  ultimately have "int_base16 (uuid_hex u) = Some (uint u)"
    using is_hex_plain [OF ab(1)] hex_digits_uuid [of u] by (simp add: int_base16_def h)
  moreover have "0 \<le> uint u" "uint u < 2 ^ 128" using uint_lt2p [of u] by simp_all
  ultimately show ?thesis
    using plain by (simp add: uuid_of_string_def Let_def remove_all_plain strip_braces_plain filter_hyphens_uuid_str)
qed

section \<open>Access tokens\<close>

text \<open>What PyJWT documents of \<open>encode\<close> and \<open>decode\<close>, for the claims this code puts into a token.\<close>

definition jwt_sound :: "libs \<Rightarrow> bool" where
  "jwt_sound L \<longleftrightarrow> (\<forall>sub org rl jti iat expiry ts. 0 \<le> iat \<longrightarrow> iat \<le> expiry \<longrightarrow> expiry < 10 ^ 12 \<longrightarrow> seconds iat \<le> ts \<longrightarrow>
     jwt_decode L ts (jwt_encode L (access_claims sub org rl jti iat expiry)) =
       (if ts < seconds expiry then Some (access_claims sub org rl jti iat expiry) else None))"

lemma jwt_soundD:
  "jwt_sound L \<Longrightarrow> 0 \<le> iat \<Longrightarrow> iat \<le> expiry \<Longrightarrow> expiry < 10 ^ 12 \<Longrightarrow> seconds iat \<le> ts \<Longrightarrow>
     jwt_decode L ts (jwt_encode L (access_claims sub org rl jti iat expiry)) =
       (if ts < seconds expiry then Some (access_claims sub org rl jti iat expiry) else None)"
  unfolding jwt_sound_def by blast

definition active_user :: "uuid \<Rightarrow> database \<Rightarrow> user option" where
  "active_user i d = find (\<lambda>v. u_id v = i \<and> u_status v = USER_ACTIVE) (users d)"

lemma access_claims_lookup [simp]:
  "map_of (access_claims sub org rl jti iat expiry) ''typ'' = Some (JStr ''access'')"
  "map_of (access_claims sub org rl jti iat expiry) ''sub'' = Some (JStr (uuid_str sub))"
  by (simp_all add: access_claims_def)

lemma principal_lookup:
  assumes "distinct (map u_id (users (db t)))"
  shows "bind (one_or_none (\<lambda>d. filter (\<lambda>u. u_id u = i) (users d))) (\<lambda>found.
      case found of None \<Rightarrow> throw E | Some u \<Rightarrow> if u_status u \<noteq> USER_ACTIVE then throw E else ret u) t =
    (case active_user i (db t) of None \<Rightarrow> (Inl (Raised E), t) | Some u \<Rightarrow> (Inr u, t))"
proof (cases "\<exists>u\<in>set (users (db t)). u_id u = i")
  case True
  then obtain u where u: "u \<in> set (users (db t))" "u_id u = i" by blast
  with distinct_map_inj_filter [OF assms u(1)] have f: "filter (\<lambda>u. u_id u = i) (users (db t)) = [u]" by simp
  have "active_user i (db t) = (if u_status u = USER_ACTIVE then Some u else None)"
  proof (cases "active_user i (db t)")
    case None
    with u show ?thesis by (auto simp: active_user_def find_None_iff)
  next
    case (Some v)
    then have "v \<in> set (users (db t))" "u_id v = i" "u_status v = USER_ACTIVE"
      by (auto simp: active_user_def find_Some_iff)
    with Some u assms distinct_map_eq [of u_id "users (db t)" u v] show ?thesis by auto
  qed
  with f show ?thesis by (auto simp: bind_one_or_none ret_run raise_run)
next
  case False
  then have "filter (\<lambda>u. u_id u = i) (users (db t)) = []" by (auto simp: filter_empty_conv)
  moreover from False have "active_user i (db t) = None" by (auto simp: active_user_def find_None_iff)
  ultimately show ?thesis by (simp add: bind_one_or_none raise_run)
qed

text \<open>C21: an access token is a round trip. The token issued for a principal at one moment, presented
  at a later one, resolves to the principal's current row exactly while the token's twenty minutes
  run and the account is active; in every other case the answer is the same 401.\<close>

theorem access_token_roundtrip:
  assumes "jwt_sound L"
    and "encode_access_token L sub org rl s = (Inr tok, s')"
    and "0 \<le> now s" "now s + minutes 20 < seconds (10 ^ 12)" "now s \<le> now t"
    and "distinct (map u_id (users (db t)))"
  shows "get_principal L tok t =
    (case active_user sub (db t) of
       Some v \<Rightarrow> if now t < seconds ((now s + minutes 20) div us_per_second) then (Inr v, t)
                 else (Inl (Raised UNAUTHORIZED), t)
     | None \<Rightarrow> (Inl (Raised UNAUTHORIZED), t))"
proof -
  from assms(2) obtain jti where tok: "tok = jwt_encode L (access_claims sub org rl jti
      (now s div us_per_second) ((now s + minutes 20) div us_per_second))"
    by (auto simp: encode_access_token_def DEFAULT_ACCESS_TOKEN_EXPIRY_def run_simps split: list.splits)
  have dec: "jwt_decode L (now t) tok =
      (if now t < seconds ((now s + minutes 20) div us_per_second)
       then Some (access_claims sub org rl jti (now s div us_per_second) ((now s + minutes 20) div us_per_second))
       else None)"
    unfolding tok by (rule jwt_soundD [OF assms(1)]) (use assms(3-5) in \<open>simp_all add: time_defs\<close>)
  show ?thesis
  proof (cases "now t < seconds ((now s + minutes 20) div us_per_second)")
    case True
    with dec have "decode_access_token L tok t = (Inr (access_claims sub org rl jti (now s div us_per_second)
        ((now s + minutes 20) div us_per_second)), t)"
      by (simp add: decode_access_token_def bind_reads ret_run)
    with True show ?thesis
      unfolding get_principal_def
      by (simp add: bind_Inr try_except_Inr uuid_of_json_def principal_lookup [OF assms(6)] split: option.splits)
  next
    case False
    with dec have "decode_access_token L tok t = (Inl (Raised InvalidAccessTokenError), t)"
      by (simp add: decode_access_token_def bind_reads raise_run)
    with False show ?thesis
      by (simp add: get_principal_def bind_Inl try_except_Inl raise_run split: option.splits)
  qed
qed

text \<open>A concrete instance of the third-party functions, for evaluation: readable "hashes", and a
  token made of the fixed-width renderings of its claims.\<close>

definition plain_encode :: "(string \<times> json) list \<Rightarrow> string" where
  "plain_encode claims = (case map snd claims of
      [JStr sub, org, JStr rl, JStr jti, JInt iat, JInt expiry, _] \<Rightarrow>
        sub @ jti @ uuid_hex (word_of_int iat) @ uuid_hex (word_of_int expiry) @
        (case org of JStr i \<Rightarrow> i | _ \<Rightarrow> ''!'' ) @ ''.'' @ rl
    | _ \<Rightarrow> [])"

definition plain_claims :: "string \<Rightarrow> ((string \<times> json) list \<times> int \<times> int)" where
  "plain_claims tok =
    (let sub = take 36 tok; jti = take 36 (drop 36 tok);
         iat = the (hex_digits False 0 (take 32 (drop 72 tok)));
         expiry = the (hex_digits False 0 (take 32 (drop 104 tok)));
         rest = drop 136 tok;
         org = (if take 1 rest = ''!'' then JNull else JStr (take 36 rest));
         rl = drop (if take 1 rest = ''!'' then 2 else 37) rest
     in ([(''sub'', JStr sub), (''org'', org), (''role'', JStr rl), (''jti'', JStr jti),
          (''iat'', JInt iat), (''exp'', JInt expiry), (''typ'', JStr ''access'')], iat, expiry))"

definition plain_libs :: libs where
  "plain_libs =
    \<lparr>argon2_hash = (\<lambda>salt plain. plain @ ''$'' @ salt),
     argon2_verify = (\<lambda>hashed plain. if take (length plain + 1) hashed = plain @ ''$'' then Some True else None),
     argon2_outdated = (\<lambda>hashed. take 4 hashed = ''old-''),
     sha256 = (\<lambda>raw. raw),
     jwt_encode = plain_encode,
     jwt_decode = (\<lambda>ts tok. case plain_claims tok of (claims, iat, expiry) \<Rightarrow>
       if seconds iat \<le> ts \<and> ts < seconds expiry then Some claims else None)\<rparr>"

lemma length_uuid_str [simp]: "length (uuid_str u) = 36"
  by (simp add: uuid_str_def Let_def)

lemma plain_claims_encode:
  assumes "0 \<le> iat" "iat < 2 ^ 128" "0 \<le> expiry" "expiry < 2 ^ 128"
  shows "plain_claims (plain_encode (access_claims sub org rl jti iat expiry)) =
    (access_claims sub org rl jti iat expiry, iat, expiry)"
proof -
  have w: "uint (word_of_int iat :: uuid) = iat" "uint (word_of_int expiry :: uuid) = expiry"
    using assms by (simp_all add: uint_word_of_int)
  have first: "take 1 (uuid_str u @ xs) \<noteq> ''!''" for u xs
  proof -
    obtain c cs where c: "uuid_str u = c # cs" using length_uuid_str [of u] by (cases "uuid_str u") auto
    then have "c \<noteq> CHR ''!''" using uuid_str_chars [of c u] by (auto simp: is_hex_def)
    with c show ?thesis by simp
  qed
  show ?thesis
    by (cases org) (simp_all add: plain_encode_def access_claims_def plain_claims_def Let_def
        hex_digits_uuid w first [simplified])
qed

lemma plain_libs_sound: "jwt_sound plain_libs"
  unfolding jwt_sound_def
proof (intro allI impI)
  fix sub jti :: uuid and org :: "uuid option" and rl and iat expiry ts :: int
  assume a: "0 \<le> iat" "iat \<le> expiry" "expiry < 10 ^ 12" "seconds iat \<le> ts"
  then have "plain_claims (plain_encode (access_claims sub org rl jti iat expiry)) =
      (access_claims sub org rl jti iat expiry, iat, expiry)"
    by (intro plain_claims_encode) auto
  with a(4) show "jwt_decode plain_libs ts (jwt_encode plain_libs (access_claims sub org rl jti iat expiry)) =
      (if ts < seconds expiry then Some (access_claims sub org rl jti iat expiry) else None)"
    by (simp add: plain_libs_def)
qed

theorem access_token_roundtrip_witness:
  "\<exists>tok s'. encode_access_token plain_libs 12 (Some 10) AGENT demo_world = (Inr tok, s') \<and>
     get_principal plain_libs tok demo_world = (Inr (mk_user 12 10 ''agent@acme.test'' AGENT), demo_world)"
proof -
  obtain tok s' where tok: "encode_access_token plain_libs 12 (Some 10) AGENT demo_world = (Inr tok, s')"
    by (auto simp: encode_access_token_def run_simps demo_world_def)
  have "active_user 12 (db demo_world) = Some (mk_user 12 10 ''agent@acme.test'' AGENT)"
    by (simp add: active_user_def demo_db_def mk_user_def)
  moreover have "distinct (map u_id (users (db demo_world)))"
    by (simp add: demo_db_def mk_user_def)
  ultimately show ?thesis
    using tok access_token_roundtrip [OF plain_libs_sound tok, of demo_world]
    by (simp add: demo_world_def time_defs)
qed

end
