(* ===== verification/Auth.thy ===== *)
theory Auth
  imports Security
begin

text \<open>
  \<open>src/app/repositories/refresh_token_repository.py\<close>,
  \<open>src/app/repositories/invite_token_repository.py\<close>, \<open>src/app/services/auth_service.py\<close> and the
  routes of \<open>src/app/api/v1/auth.py\<close>: login, rotation of refresh tokens, logout and the
  acceptance of invitations.

  Tokens are stored as their digest; \<open>rotate\<close> and \<open>consume\<close> look a presented token up by it
  (the row lock they take has no effect within one transaction). The \<open>verify_password\<close> call on
  the dummy hash only spends time and is left out. A route is its service call inside
  \<open>get_session\<close>, with the exceptions it maps to HTTP errors.

  The requests are also the steps of a transition system (\<open>auth_step\<close>), whose invariant is that a
  token family has one owner and at most one live token.
\<close>

section \<open>RefreshTokenRepository\<close>

definition DEFAULT_REFRESH_TOKEN_TTL :: int where "DEFAULT_REFRESH_TOKEN_TTL = days 30"

definition refresh_issue :: "libs \<Rightarrow> uuid \<Rightarrow> uuid option \<Rightarrow> (string \<times> uuid) service" where
  "refresh_issue L uid family_id = bind new_opaque_token (\<lambda>raw.
     bind (case family_id of Some f \<Rightarrow> ret f | None \<Rightarrow> uuid4) (\<lambda>family.
     bind (reads now) (\<lambda>ts. bind uuid4 (\<lambda>i.
     andthen (update_db (refresh_tokens_update (\<lambda>rs. rs @
       [\<lparr>rt_id = i, rt_created_at = ts, rt_user_id = uid, rt_token_hash = sha256_hash L raw,
         rt_family_id = family, rt_revoked_at = None, rt_expires_at = ts + DEFAULT_REFRESH_TOKEN_TTL\<rparr>])))
     (andthen flush (ret (raw, family)))))))"

definition refresh_rotate :: "libs \<Rightarrow> string \<Rightarrow> refresh_token option service" where
  "refresh_rotate L raw = one_or_none (\<lambda>d.
     filter (\<lambda>r. rt_token_hash r = sha256_hash L raw) (refresh_tokens d))"

definition refresh_revoke :: "refresh_token \<Rightarrow> unit service" where
  "refresh_revoke tok = bind (reads now) (\<lambda>ts.
     andthen (update_db (refresh_tokens_update
       (update_where (\<lambda>r. rt_id r = rt_id tok) (\<lambda>r. r\<lparr>rt_revoked_at := Some ts\<rparr>)))) flush)"

definition revoke_family :: "uuid \<Rightarrow> unit service" where
  "revoke_family family = bind (reads now) (\<lambda>ts. update_db (refresh_tokens_update
     (update_where (\<lambda>r. rt_family_id r = family \<and> rt_revoked_at r = None)
       (\<lambda>r. r\<lparr>rt_revoked_at := Some ts\<rparr>))))"

section \<open>InviteTokenRepository\<close>

definition INVITE_TOKEN_TTL :: int where "INVITE_TOKEN_TTL = hours 48"

definition invite_issue :: "libs \<Rightarrow> uuid \<Rightarrow> string service" where
  "invite_issue L uid = bind new_opaque_token (\<lambda>raw. bind (reads now) (\<lambda>ts. bind uuid4 (\<lambda>i.
     andthen (update_db (invite_tokens_update (\<lambda>rs. rs @
       [\<lparr>it_id = i, it_created_at = ts, it_user_id = uid, it_token_hash = sha256_hash L raw,
         it_expires_at = ts + INVITE_TOKEN_TTL, it_used_at = None, it_revoked_at = None\<rparr>])))
     (andthen flush (ret raw)))))"

definition consume :: "libs \<Rightarrow> string \<Rightarrow> invite_token option service" where
  "consume L raw = one_or_none (\<lambda>d.
     filter (\<lambda>r. it_token_hash r = sha256_hash L raw) (invite_tokens d))"

definition mark_used :: "invite_token \<Rightarrow> unit service" where
  "mark_used tok = bind (reads now) (\<lambda>ts.
     andthen (update_db (invite_tokens_update
       (update_where (\<lambda>r. it_id r = it_id tok) (\<lambda>r. r\<lparr>it_used_at := Some ts\<rparr>)))) flush)"

definition revoke_unused_for_user :: "uuid \<Rightarrow> unit service" where
  "revoke_unused_for_user uid = bind (reads now) (\<lambda>ts. update_db (invite_tokens_update
     (update_where (\<lambda>r. it_user_id r = uid \<and> it_used_at r = None \<and> it_revoked_at r = None)
       (\<lambda>r. r\<lparr>it_revoked_at := Some ts\<rparr>))))"

section \<open>auth_service\<close>

record TokenPair =
  access_token :: string
  pair_refresh_token :: string

definition GENERIC_AUTH_FAILURE :: error where
  "GENERIC_AUTH_FAILURE = AuthenticationError ''invalid email or password''"

definition GENERIC_REFRESH_FAILURE :: error where
  "GENERIC_REFRESH_FAILURE = AuthenticationError ''invalid or expired refresh token''"

definition issue_pair :: "libs \<Rightarrow> user \<Rightarrow> uuid option \<Rightarrow> TokenPair service" where
  "issue_pair L u family_id =
     bind (encode_access_token L (u_id u) (u_organization_id u) (u_role u)) (\<lambda>access.
     bind (refresh_issue L (u_id u) family_id) (\<lambda>(raw, _).
     ret \<lparr>access_token = access, pair_refresh_token = raw\<rparr>))"

definition set_user :: "uuid \<Rightarrow> (user \<Rightarrow> user) \<Rightarrow> unit service" where
  "set_user i f = update_db (users_update (update_where (\<lambda>u. u_id u = i) f))"

definition login :: "libs \<Rightarrow> string \<Rightarrow> string \<Rightarrow> TokenPair service" where
  "login L email password =
    bind (one_or_none (\<lambda>d. filter (\<lambda>u. py_lower (u_email u) = py_lower (py_strip email)) (users d))) (\<lambda>found.
    case found of
      None \<Rightarrow> throw GENERIC_AUTH_FAILURE
    | Some u \<Rightarrow>
       (case u_password_hash u of
          None \<Rightarrow> throw GENERIC_AUTH_FAILURE
        | Some hashed \<Rightarrow>
            if u_status u \<noteq> USER_ACTIVE then throw GENERIC_AUTH_FAILURE
            else if \<not> verify_password L hashed password then throw GENERIC_AUTH_FAILURE
            else andthen (if needs_rehash L hashed
                          then bind (hash_password L password) (\<lambda>h.
                                 set_user (u_id u) (\<lambda>v. v\<lparr>u_password_hash := Some h\<rparr>))
                          else ret ())
                   (issue_pair L u None)))"

definition refresh :: "libs \<Rightarrow> string \<Rightarrow> TokenPair service" where
  "refresh L raw = bind (refresh_rotate L raw) (\<lambda>found.
    case found of
      None \<Rightarrow> throw GENERIC_REFRESH_FAILURE
    | Some tok \<Rightarrow>
        if rt_revoked_at tok \<noteq> None
        then andthen (revoke_family (rt_family_id tok)) (throw GENERIC_REFRESH_FAILURE)
        else bind (reads now) (\<lambda>ts.
          if rt_expires_at tok < ts then throw GENERIC_REFRESH_FAILURE
          else bind (one_or_none (\<lambda>d. filter (\<lambda>u. u_id u = rt_user_id tok) (users d))) (\<lambda>owner.
            case owner of
              None \<Rightarrow> throw GENERIC_REFRESH_FAILURE
            | Some u \<Rightarrow>
                if u_status u \<noteq> USER_ACTIVE then throw GENERIC_REFRESH_FAILURE
                else andthen (refresh_revoke tok) (issue_pair L u (Some (rt_family_id tok))))))"

definition logout :: "libs \<Rightarrow> string \<Rightarrow> unit service" where
  "logout L raw = bind (refresh_rotate L raw) (\<lambda>found.
    case found of None \<Rightarrow> ret () | Some tok \<Rightarrow> revoke_family (rt_family_id tok))"

definition accept_invite :: "libs \<Rightarrow> string \<Rightarrow> string \<Rightarrow> TokenPair service" where
  "accept_invite L raw new_password = bind (consume L raw) (\<lambda>found.
    case found of
      None \<Rightarrow> throw InviteAcceptError
    | Some tok \<Rightarrow>
        if it_used_at tok \<noteq> None \<or> it_revoked_at tok \<noteq> None then throw InviteAcceptError
        else bind (reads now) (\<lambda>ts.
          if it_expires_at tok < ts then throw InviteAcceptError
          else bind (one_or_none (\<lambda>d. filter (\<lambda>u. u_id u = it_user_id tok) (users d))) (\<lambda>owner.
            case owner of
              None \<Rightarrow> throw InviteAcceptError
            | Some u \<Rightarrow>
                if u_status u \<noteq> USER_PENDING then throw InviteAcceptError
                else bind (hash_password L new_password) (\<lambda>h.
                  let u' = u\<lparr>u_password_hash := Some h, u_status := USER_ACTIVE\<rparr> in
                  andthen (set_user (u_id u) (\<lambda>_. u'))
                  (andthen (mark_used tok) (issue_pair L u' None))))))"

section \<open>The routes\<close>

definition api_error :: "fault \<Rightarrow> fault" where
  "api_error e = (case e of
      Raised (AuthenticationError detail) \<Rightarrow> Raised (HTTPException 401 detail)
    | Raised InviteAcceptError \<Rightarrow> Raised (HTTPException 400 ''invalid or expired invite token'')
    | _ \<Rightarrow> e)"

definition route :: "'a service \<Rightarrow> 'a service" where
  "route body = get_session (try_except body (\<lambda>e. raise (api_error e)))"

definition api_login :: "libs \<Rightarrow> string \<Rightarrow> string \<Rightarrow> TokenPair service" where
  "api_login L email password = route (login L email password)"

definition api_refresh :: "libs \<Rightarrow> string \<Rightarrow> TokenPair service" where
  "api_refresh L raw = route (refresh L raw)"

definition api_logout :: "libs \<Rightarrow> string \<Rightarrow> unit service" where
  "api_logout L raw = get_session (logout L raw)"

text \<open>The request schema refuses a short password before the route runs.\<close>

definition MIN_PASSWORD_LENGTH :: nat where "MIN_PASSWORD_LENGTH = 12"

definition validate_password_length :: "string \<Rightarrow> error + string" where
  "validate_password_length pw =
    (if length pw < MIN_PASSWORD_LENGTH then Inl ValueError else Inr pw)"

definition api_accept_invite :: "libs \<Rightarrow> string \<Rightarrow> string \<Rightarrow> TokenPair service" where
  "api_accept_invite L raw new_password = (case validate_password_length new_password of
      Inl _ \<Rightarrow> throw (HTTPException 422 ''password must be at least 12 characters long'')
    | Inr pw \<Rightarrow> route (accept_invite L raw pw))"

section \<open>What the requests leave alone\<close>

text \<open>Besides the committed database and the clock, a run only consumes random values.\<close>

definition drawn :: "world \<Rightarrow> world \<Rightarrow> bool" where
  "drawn s s' \<longleftrightarrow> uncommitted s s' \<and> (\<exists>k. uuids s' = drop k (uuids s))"

interpretation drawn: frame_relation drawn
proof unfold_locales
  fix s t u
  show "drawn s s" by (auto simp: drawn_def uncommitted.refl intro: exI [of _ 0])
  show "drawn s u" if "drawn s t" "drawn t u"
    using that by (auto simp: drawn_def intro: uncommitted.trans)
qed

lemma always_drawn [simp, intro]:
  "always drawn uuid4" "always drawn new_opaque_token" "always drawn (update_db f)"
proof -
  have "drawn s (snd (uuid4 s))" for s
    by (cases "uuids s") (auto simp: drawn_def uncommitted_def uuid4_def intro: exI [of _ 0] exI [of _ 1])
  then show "always drawn uuid4" by (simp add: always_def)
qed (auto simp: always_def drawn_def uncommitted_def new_opaque_token_def update_db_def modify_def
      intro: exI [of _ 0] split: list.splits)

lemmas drawn_rules =
  drawn.always_rules always_drawn drawn.always_readonly [OF readonly_basic(1)]
  drawn.always_readonly [OF readonly_basic(2)] drawn.always_readonly [OF readonly_basic(3)]
  drawn.always_readonly [OF readonly_session(2)] drawn.always_readonly [OF readonly_session(3)]

lemma drawn_issue_pair [simp, intro]: "always drawn (issue_pair L u f)"
  unfolding issue_pair_def encode_access_token_def refresh_issue_def split_def
  by (intro drawn_rules)

lemma drawn_requests [simp, intro]:
  "always drawn (login L e pw)" "always drawn (refresh L raw)" "always drawn (logout L raw)"
  "always drawn (accept_invite L raw pw)"
  unfolding login_def refresh_def logout_def accept_invite_def hash_password_def set_user_def
    refresh_rotate_def refresh_revoke_def revoke_family_def consume_def mark_used_def Let_def
  by (intro drawn_rules drawn_issue_pair)+

lemma get_session_drawn:
  assumes "always drawn body" "committed s = db s" "db_ok (db s)" "get_session body s = (r, s')"
  shows "committed s' = db s' \<and> db_ok (db s') \<and> now s' = now s \<and> (\<exists>k. uuids s' = drop k (uuids s)) \<and>
    (case r of Inl _ \<Rightarrow> db s' = db s | Inr x \<Rightarrow> (\<exists>t. body s = (Inr x, t) \<and> db s' = db t \<and> uuids s' = uuids t))"
proof (cases "body s")
  case (Pair q t)
  then have "drawn s t" using assms(1) by (auto dest: alwaysD)
  with assms(2-4) Pair show ?thesis
    by (auto simp: drawn_def uncommitted_def get_session_def try_except_def bind_def andthen_def
        commit_run raise_run ret_run rollback_run split: sum.splits if_splits)
qed

lemma try_except_raise_Inr:
  "try_except body (\<lambda>e. raise (g e)) s = (Inr x, t) \<longleftrightarrow> body s = (Inr x, t)"
  by (auto simp: try_except_def raise_def split: prod.splits sum.splits)

lemma route_outcome:
  assumes "always drawn body" "committed s = db s" "db_ok (db s)" "route body s = (r, s')"
  shows "committed s' = db s' \<and> db_ok (db s') \<and> now s' = now s \<and> (\<exists>k. uuids s' = drop k (uuids s)) \<and>
    (case r of Inl _ \<Rightarrow> db s' = db s | Inr x \<Rightarrow> (\<exists>t. body s = (Inr x, t) \<and> db s' = db t \<and> uuids s' = uuids t))"
proof -
  have "always drawn (try_except body (\<lambda>e. raise (api_error e)))"
    by (intro drawn_rules assms(1))
  from get_session_drawn [OF this assms(2,3)] assms(4) show ?thesis
    by (auto simp: route_def try_except_raise_Inr split: sum.splits)
qed

section \<open>Issuing a pair\<close>

definition new_refresh_token :: "libs \<Rightarrow> uuid \<Rightarrow> uuid \<Rightarrow> uuid \<Rightarrow> int \<Rightarrow> string \<Rightarrow> refresh_token" where
  "new_refresh_token L i uid family ts raw =
    \<lparr>rt_id = i, rt_created_at = ts, rt_user_id = uid, rt_token_hash = sha256_hash L raw,
     rt_family_id = family, rt_revoked_at = None, rt_expires_at = ts + days 30\<rparr>"

lemma issue_pair_continue:
  assumes "issue_pair L u (Some f) s = (Inr p, s')"
  obtains i jti us raw where "uuids s = jti # i # us" "uuids s' = us" "pair_refresh_token p = raw"
    "db s' = refresh_tokens_update (\<lambda>rs. rs @ [new_refresh_token L i (u_id u) f (now s) raw]) (db s)"
  using assms
  by (auto simp: issue_pair_def encode_access_token_def refresh_issue_def new_refresh_token_def
      DEFAULT_REFRESH_TOKEN_TTL_def andthen_def run_simps split: list.splits if_splits)

lemma issue_pair_open:
  assumes "issue_pair L u None s = (Inr p, s')"
  obtains i jti f us raw where "uuids s = jti # f # i # us" "uuids s' = us" "pair_refresh_token p = raw"
    "db s' = refresh_tokens_update (\<lambda>rs. rs @ [new_refresh_token L i (u_id u) f (now s) raw]) (db s)"
  using assms
  by (auto simp: issue_pair_def encode_access_token_def refresh_issue_def new_refresh_token_def
      DEFAULT_REFRESH_TOKEN_TTL_def andthen_def run_simps split: list.splits if_splits)

end
