(* ===== verification/TokenFamilies.thy ===== *)
theory TokenFamilies
  imports Auth
begin

text \<open>
  What refresh tokens promise, as an abstract machine, and that the authentication requests
  implement it.

  A \<open>family\<close> has an owner, at most one current token and a set of spent ones (all by digest). It
  is opened by a login or an accepted invitation, rotated by a refresh (the current token is spent
  and replaced) and closed by a logout. \<open>families_of\<close> reads this off the \<open>refresh_tokens\<close> table;
  \<open>auth_step\<close> is one request, or whatever other requests and the passage of time do meanwhile.
\<close>

section \<open>The abstract machine\<close>

record family =
  fam_owner :: uuid
  fam_current :: "string option"
  fam_spent :: "string set"

type_synonym families = "uuid \<rightharpoonup> family"

inductive family_step :: "families \<Rightarrow> families \<Rightarrow> bool" where
  Idle: "family_step F F"
| Open: "F f = None \<Longrightarrow> family_step F (F(f \<mapsto> \<lparr>fam_owner = i, fam_current = Some h, fam_spent = {}\<rparr>))"
| Rotate: "F f = Some v \<Longrightarrow> fam_current v = Some h \<Longrightarrow>
    family_step F (F(f \<mapsto> v\<lparr>fam_current := Some h', fam_spent := insert h (fam_spent v)\<rparr>))"
| Close: "F f = Some v \<Longrightarrow>
    family_step F (F(f \<mapsto> v\<lparr>fam_current := None, fam_spent := fam_spent v \<union> set_option (fam_current v)\<rparr>))"

inductive family_steps :: "families \<Rightarrow> families \<Rightarrow> bool" where
  Here: "family_steps F F"
| More: "family_steps F G \<Longrightarrow> family_step G H \<Longrightarrow> family_steps F H"

text \<open>A spent token stays spent, a closed family stays closed, an owner never changes.\<close>

lemma family_step_spent:
  "family_step F G \<Longrightarrow> F f = Some v \<Longrightarrow>
     \<exists>w. G f = Some w \<and> fam_spent v \<subseteq> fam_spent w \<and> fam_owner w = fam_owner v \<and>
       (fam_current v = None \<longrightarrow> fam_current w = None)"
  by (induction rule: family_step.induct) auto

lemma family_steps_spent:
  "family_steps F G \<Longrightarrow> F f = Some v \<Longrightarrow>
     \<exists>w. G f = Some w \<and> fam_spent v \<subseteq> fam_spent w \<and> fam_owner w = fam_owner v \<and>
       (fam_current v = None \<longrightarrow> fam_current w = None)"
proof (induction rule: family_steps.induct)
  case (More F G H)
  from More.IH [OF More.prems] obtain w where w: "G f = Some w" "fam_spent v \<subseteq> fam_spent w"
    "fam_owner w = fam_owner v" "fam_current v = None \<longrightarrow> fam_current w = None" by auto
  from family_step_spent [OF More.hyps(2) w(1)] w show ?case by auto
qed auto

section \<open>Abstraction\<close>

definition live :: "refresh_token \<Rightarrow> bool" where
  "live r \<longleftrightarrow> rt_revoked_at r = None"

definition rows_of :: "uuid \<Rightarrow> refresh_token list \<Rightarrow> refresh_token list" where
  "rows_of f rs = filter (\<lambda>r. rt_family_id r = f) rs"

fun family_of :: "refresh_token list \<Rightarrow> family option" where
  "family_of [] = None"
| "family_of (r # rs) = Some \<lparr>fam_owner = rt_user_id r,
     fam_current = map_option rt_token_hash (find live (r # rs)),
     fam_spent = set (map rt_token_hash (filter (\<lambda>x. \<not> live x) (r # rs)))\<rparr>"

definition families_of :: "refresh_token list \<Rightarrow> families" where
  "families_of rs = (\<lambda>f. family_of (rows_of f rs))"

definition families_ok :: "refresh_token list \<Rightarrow> bool" where
  "families_ok rs \<longleftrightarrow> unique_on live rt_family_id rs \<and>
     list_all (\<lambda>r. list_all (\<lambda>r'. rt_family_id r' = rt_family_id r \<longrightarrow> rt_user_id r' = rt_user_id r) rs) rs"

lemma families_ok_iff:
  "families_ok rs \<longleftrightarrow> unique_on live rt_family_id rs \<and>
     (\<forall>r\<in>set rs. \<forall>r'\<in>set rs. rt_family_id r' = rt_family_id r \<longrightarrow> rt_user_id r' = rt_user_id r)"
  by (simp add: families_ok_def list_all_iff)

lemma families_okD:
  "families_ok rs \<Longrightarrow> unique_on live rt_family_id rs"
  "families_ok rs \<Longrightarrow> x \<in> set rs \<Longrightarrow> y \<in> set rs \<Longrightarrow> rt_family_id x = rt_family_id y \<Longrightarrow> rt_user_id x = rt_user_id y"
  unfolding families_ok_iff by blast+

lemma families_okI:
  "unique_on live rt_family_id rs \<Longrightarrow>
     (\<And>x y. x \<in> set rs \<Longrightarrow> y \<in> set rs \<Longrightarrow> rt_family_id x = rt_family_id y \<Longrightarrow> rt_user_id x = rt_user_id y) \<Longrightarrow>
     families_ok rs"
  unfolding families_ok_iff by blast

lemma rows_of_append: "rows_of f (rs @ [r]) = rows_of f rs @ (if rt_family_id r = f then [r] else [])"
  by (simp add: rows_of_def)

lemma rows_of_update_where:
  assumes "\<And>r. rt_family_id (g r) = rt_family_id r"
  shows "rows_of f (update_where P g rs) = update_where P g (rows_of f rs)"
  using assms by (induction rs) (auto simp: rows_of_def update_where_def)

lemma update_where_none: "(\<And>r. r \<in> set rs \<Longrightarrow> \<not> P r) \<Longrightarrow> update_where P g rs = rs"
  by (induction rs) (auto simp: update_where_def)

lemma family_of_nonempty:
  "rs \<noteq> [] \<Longrightarrow> family_of rs = Some \<lparr>fam_owner = rt_user_id (hd rs),
     fam_current = map_option rt_token_hash (find live rs),
     fam_spent = set (map rt_token_hash (filter (\<lambda>x. \<not> live x) rs))\<rparr>"
  by (cases rs) auto

lemma family_of_revoke_all:
  assumes "rs \<noteq> []" "\<And>r. r \<in> set rs \<Longrightarrow> live r \<Longrightarrow> P r" "\<And>x y. x \<in> set rs \<Longrightarrow> y \<in> set rs \<Longrightarrow> live x \<Longrightarrow> live y \<Longrightarrow> y = x"
  shows "family_of (update_where P (\<lambda>r. r\<lparr>rt_revoked_at := Some ts\<rparr>) rs) =
    map_option (\<lambda>v. v\<lparr>fam_current := None, fam_spent := fam_spent v \<union> set_option (fam_current v)\<rparr>) (family_of rs)"
proof -
  let ?g = "\<lambda>r. r\<lparr>rt_revoked_at := Some ts\<rparr>"
  have dead: "\<not> live x" if "x \<in> set (update_where P ?g rs)" for x
    using that assms(2) by (auto simp: set_update_where live_def split: if_splits)
  have all: "filter (\<lambda>x. \<not> live x) (update_where P ?g rs) = update_where P ?g rs"
    using dead by (simp add: filter_id_conv)
  have none: "find live (update_where P ?g rs) = None" using dead by (auto simp: find_None_iff)
  have hashes: "map rt_token_hash (update_where P ?g rs) = map rt_token_hash rs"
    by (rule map_update_where) simp
  have "set (map rt_token_hash rs) = set (map rt_token_hash (filter (\<lambda>x. \<not> live x) rs)) \<union>
      set_option (map_option rt_token_hash (find live rs))"
  proof (cases "find live rs")
    case None
    then have "filter (\<lambda>x. \<not> live x) rs = rs" by (auto simp: find_None_iff filter_id_conv)
    with None show ?thesis by simp
  next
    case (Some x)
    then have "x \<in> set rs" "live x" by (auto simp: find_Some_iff)
    with assms(3) Some show ?thesis by auto
  qed
  moreover have "rt_user_id (hd (update_where P ?g rs)) = rt_user_id (hd rs)" "update_where P ?g rs \<noteq> []"
    using assms(1) by (cases rs; simp add: update_where_def)+
  ultimately show ?thesis using none all hashes assms(1) by (simp add: family_of_nonempty)
qed

text \<open>The three changes of the table, seen through the abstraction.\<close>

lemma families_of_open:
  assumes "f \<notin> rt_family_id ` set rs" "rt_family_id r = f" "live r"
  shows "families_of (rs @ [r]) =
    (families_of rs)(f \<mapsto> \<lparr>fam_owner = rt_user_id r, fam_current = Some (rt_token_hash r), fam_spent = {}\<rparr>)"
proof
  fix g
  have "rows_of f rs = []" using assms(1) by (auto simp: rows_of_def filter_empty_conv)
  with assms(2,3) show "families_of (rs @ [r]) g =
      ((families_of rs)(f \<mapsto> \<lparr>fam_owner = rt_user_id r, fam_current = Some (rt_token_hash r), fam_spent = {}\<rparr>)) g"
    by (auto simp: families_of_def rows_of_append)
qed

lemma families_of_revoke:
  assumes "families_ok rs" "tok \<in> set rs" "rt_family_id tok = f"
    "\<And>r. r \<in> set rs \<Longrightarrow> P r \<Longrightarrow> rt_family_id r = f" "\<And>r. r \<in> set rs \<Longrightarrow> rt_family_id r = f \<Longrightarrow> live r \<Longrightarrow> P r"
  obtains v where "families_of rs f = Some v"
    "families_of (update_where P (\<lambda>r. r\<lparr>rt_revoked_at := Some ts\<rparr>) rs) = (families_of rs)(f \<mapsto>
       v\<lparr>fam_current := None, fam_spent := fam_spent v \<union> set_option (fam_current v)\<rparr>)"
proof -
  let ?g = "\<lambda>r. r\<lparr>rt_revoked_at := Some ts\<rparr>"
  have ne: "rows_of f rs \<noteq> []" using assms(2,3) by (auto simp: rows_of_def filter_empty_conv)
  then obtain v where v: "families_of rs f = Some v" by (simp add: families_of_def family_of_nonempty)
  have "families_of (update_where P ?g rs) h = ((families_of rs)(f \<mapsto>
      v\<lparr>fam_current := None, fam_spent := fam_spent v \<union> set_option (fam_current v)\<rparr>)) h" for h
  proof (cases "h = f")
    case True
    from ne have "family_of (update_where P ?g (rows_of f rs)) = map_option (\<lambda>v. v\<lparr>fam_current := None,
        fam_spent := fam_spent v \<union> set_option (fam_current v)\<rparr>) (family_of (rows_of f rs))"
      by (rule family_of_revoke_all) (use assms(1) in \<open>auto simp: rows_of_def assms(5) families_ok_iff dest: unique_onD\<close>)
    with True v show ?thesis by (simp add: families_of_def rows_of_update_where)
  next
    case False
    then have "update_where P ?g (rows_of h rs) = rows_of h rs"
      using assms(4) by (intro update_where_none) (auto simp: rows_of_def)
    with False show ?thesis by (simp add: families_of_def rows_of_update_where)
  qed
  with v show ?thesis by (intro that [of v]) auto
qed

lemma find_snoc: "find P (xs @ [x]) = (case find P xs of Some y \<Rightarrow> Some y | None \<Rightarrow> if P x then Some x else None)"
  by (induction xs) auto

lemma families_of_continue:
  assumes "families_of rs f = Some v" "fam_current v = None" "rt_family_id r = f" "live r"
  shows "families_of (rs @ [r]) = (families_of rs)(f \<mapsto> v\<lparr>fam_current := Some (rt_token_hash r)\<rparr>)"
proof
  fix g
  have ne: "rows_of f rs \<noteq> []" using assms(1) by (auto simp: families_of_def)
  with assms(1,2) have "find live (rows_of f rs) = None" by (auto simp: families_of_def family_of_nonempty)
  then have "find live (rows_of f rs @ [r]) = Some r"
    using assms(4) by (simp add: find_snoc)
  with ne assms show "families_of (rs @ [r]) g =
      ((families_of rs)(f \<mapsto> v\<lparr>fam_current := Some (rt_token_hash r)\<rparr>)) g"
    by (auto simp: families_of_def rows_of_append family_of_nonempty)
qed

lemma families_ok_revoke:
  assumes "families_ok rs"
  shows "families_ok (update_where P (\<lambda>r. r\<lparr>rt_revoked_at := Some ts\<rparr>) rs)"
proof (rule families_okI)
  let ?g = "\<lambda>r. r\<lparr>rt_revoked_at := Some ts\<rparr>"
  have "filter live (update_where P ?g rs) = filter (\<lambda>r. \<not> P r) (filter live rs)"
    by (induction rs) (auto simp: update_where_def live_def)
  with families_okD(1) [OF assms] show "unique_on live rt_family_id (update_where P ?g rs)"
    unfolding unique_on_def by (metis distinct_map_filter)
next
  let ?g = "\<lambda>r. if P r then r\<lparr>rt_revoked_at := Some ts\<rparr> else r"
  fix x y assume "x \<in> set (update_where P (\<lambda>r. r\<lparr>rt_revoked_at := Some ts\<rparr>) rs)"
    and "y \<in> set (update_where P (\<lambda>r. r\<lparr>rt_revoked_at := Some ts\<rparr>) rs)" and eq: "rt_family_id x = rt_family_id y"
  then obtain x' y' where "x = ?g x'" "y = ?g y'" and mem: "x' \<in> set rs" "y' \<in> set rs"
    unfolding set_update_where by blast
  then have "rt_family_id x = rt_family_id x'" "rt_user_id x = rt_user_id x'"
    "rt_family_id y = rt_family_id y'" "rt_user_id y = rt_user_id y'" by simp_all
  with families_okD(2) [OF assms mem] eq show "rt_user_id x = rt_user_id y" by simp
qed

lemma families_ok_append:
  assumes "families_ok rs" "\<And>x. x \<in> set rs \<Longrightarrow> rt_family_id x = rt_family_id r \<Longrightarrow> \<not> live x \<and> rt_user_id x = rt_user_id r"
  shows "families_ok (rs @ [r])"
proof (rule families_okI)
  show "unique_on live rt_family_id (rs @ [r])"
    using families_okD(1) [OF assms(1)] assms(2) by (auto simp: unique_on_append)
next
  fix x y assume "x \<in> set (rs @ [r])" "y \<in> set (rs @ [r])" "rt_family_id x = rt_family_id y"
  then show "rt_user_id x = rt_user_id y"
    using families_okD(2) [OF assms(1), of x y] assms(2) [of x] assms(2) [of y] by auto
qed

section \<open>What the requests do to the table\<close>

lemma one_or_none_Inr: "one_or_none q s = (Inr x, t) \<longleftrightarrow> t = s \<and> scalar_one_or_none (q (db s)) = Some x"
  by (auto simp: one_or_none_run split: option.splits)

lemma login_opens:
  assumes "login L e pw s = (Inr p, s')"
  obtains i jti f us uid where "uuids s = jti # f # i # us" "uuids s' = us"
    "refresh_tokens (db s') = refresh_tokens (db s) @
       [new_refresh_token L i uid f (now s) (pair_refresh_token p)]"
proof -
  from assms obtain u t where pair: "issue_pair L u None t = (Inr p, s')"
    and t: "uuids t = uuids s" "now t = now s" "refresh_tokens (db t) = refresh_tokens (db s)"
    by (auto simp: login_def hash_password_def set_user_def andthen_def run_simps
        split: option.splits if_splits list.splits)
  from pair show ?thesis by (rule issue_pair_open) (auto simp: t intro!: that)
qed

lemma accept_invite_opens:
  assumes "accept_invite L raw pw s = (Inr p, s')"
  obtains i jti f us uid where "uuids s = jti # f # i # us" "uuids s' = us"
    "refresh_tokens (db s') = refresh_tokens (db s) @
       [new_refresh_token L i uid f (now s) (pair_refresh_token p)]"
proof -
  from assms obtain u t where pair: "issue_pair L u None t = (Inr p, s')"
    and t: "uuids t = uuids s" "now t = now s" "refresh_tokens (db t) = refresh_tokens (db s)"
    by (auto simp: accept_invite_def consume_def hash_password_def set_user_def mark_used_def andthen_def Let_def
        run_simps split: option.splits if_splits list.splits)
  from pair show ?thesis by (rule issue_pair_open) (auto simp: t intro!: that)
qed

lemma refresh_rotates:
  assumes "refresh L raw s = (Inr p, s')"
  obtains tok i jti us where "tok \<in> set (refresh_tokens (db s))" "rt_token_hash tok = sha256_hash L raw" "live tok"
    "now s \<le> rt_expires_at tok" "uuids s = jti # i # us" "uuids s' = us"
    "refresh_tokens (db s') =
       update_where (\<lambda>r. rt_id r = rt_id tok) (\<lambda>r. r\<lparr>rt_revoked_at := Some (now s)\<rparr>) (refresh_tokens (db s)) @
       [new_refresh_token L i (rt_user_id tok) (rt_family_id tok) (now s) (pair_refresh_token p)]"
proof -
  from assms obtain tok u t where
    f: "filter (\<lambda>r. rt_token_hash r = sha256_hash L raw) (refresh_tokens (db s)) = [tok]"
    and u: "filter (\<lambda>u. u_id u = rt_user_id tok) (users (db s)) = [u]"
    and tok: "rt_revoked_at tok = None" "now s \<le> rt_expires_at tok"
    and pair: "issue_pair L u (Some (rt_family_id tok)) t = (Inr p, s')"
    and t: "uuids t = uuids s" "now t = now s"
      "refresh_tokens (db t) =
         update_where (\<lambda>r. rt_id r = rt_id tok) (\<lambda>r. r\<lparr>rt_revoked_at := Some (now s)\<rparr>) (refresh_tokens (db s))"
    by (auto simp: refresh_def refresh_rotate_def refresh_revoke_def revoke_family_def andthen_def not_less
        run_simps split: option.splits if_splits)
  from f have "tok \<in> set (filter (\<lambda>r. rt_token_hash r = sha256_hash L raw) (refresh_tokens (db s)))" by simp
  moreover from u have "u \<in> set (filter (\<lambda>u. u_id u = rt_user_id tok) (users (db s)))" by simp
  ultimately show ?thesis using pair
    by (elim issue_pair_continue) (auto simp: t live_def tok intro!: that)
qed

lemma logout_closes:
  assumes "logout L raw s = (Inr x, s')"
  shows "uuids s' = uuids s \<and>
    (if \<exists>r\<in>set (refresh_tokens (db s)). rt_token_hash r = sha256_hash L raw
     then \<exists>tok\<in>set (refresh_tokens (db s)). rt_token_hash tok = sha256_hash L raw \<and> refresh_tokens (db s') =
       update_where (\<lambda>r. rt_family_id r = rt_family_id tok \<and> rt_revoked_at r = None)
         (\<lambda>r. r\<lparr>rt_revoked_at := Some (now s)\<rparr>) (refresh_tokens (db s))
     else refresh_tokens (db s') = refresh_tokens (db s))"
proof -
  let ?hit = "\<lambda>r. rt_token_hash r = sha256_hash L raw" and ?rs = "refresh_tokens (db s)"
  have run: "logout L raw s = (case scalar_one_or_none (filter ?hit ?rs) of
      None \<Rightarrow> (Inl (Raised MultipleResultsFound), s) | Some None \<Rightarrow> (Inr (), s)
    | Some (Some tok) \<Rightarrow> revoke_family (rt_family_id tok) s)"
    by (simp add: logout_def refresh_rotate_def bind_one_or_none ret_run split: option.splits)
  show ?thesis
  proof (cases "\<exists>r\<in>set ?rs. ?hit r")
    case False
    then have "filter ?hit ?rs = []" by (simp add: filter_empty_conv)
    with run assms have "s' = s" by simp
    then show ?thesis unfolding if_not_P [OF False] by simp
  next
    case True
    then have "filter ?hit ?rs \<noteq> []" by (auto simp: filter_empty_conv)
    with run assms obtain tok where tok: "filter ?hit ?rs = [tok]" "revoke_family (rt_family_id tok) s = (Inr x, s')"
      by (auto split: option.splits)
    from tok(1) have "tok \<in> set (filter ?hit ?rs)" by simp
    then have "tok \<in> set ?rs" "?hit tok" by simp_all
    with tok(2) show ?thesis
      unfolding if_P [OF True] revoke_family_def bind_reads update_db_run by fastforce
  qed
qed

section \<open>Refinement\<close>

text \<open>Requests start on the committed database; the random identifiers still to be drawn are new.\<close>

definition auth_ready :: "world \<Rightarrow> bool" where
  "auth_ready s \<longleftrightarrow> committed s = db s \<and> db_ok (db s) \<and> families_ok (refresh_tokens (db s)) \<and>
     distinct (uuids s) \<and> set (uuids s) \<inter> rt_family_id ` set (refresh_tokens (db s)) = {}"

inductive auth_step :: "libs \<Rightarrow> world \<Rightarrow> world \<Rightarrow> bool" for L where
  Login: "api_login L email password s = (r, s') \<Longrightarrow> auth_step L s s'"
| Refresh: "api_refresh L raw s = (r, s') \<Longrightarrow> auth_step L s s'"
| Logout: "api_logout L raw s = (r', s') \<Longrightarrow> auth_step L s s'"
| AcceptInvite: "api_accept_invite L raw password s = (r, s') \<Longrightarrow> auth_step L s s'"
| Elsewhere: "refresh_tokens (db s') = refresh_tokens (db s) \<Longrightarrow> committed s' = db s' \<Longrightarrow> db_ok (db s') \<Longrightarrow>
    distinct (uuids s') \<Longrightarrow> set (uuids s') \<inter> rt_family_id ` set (refresh_tokens (db s)) = {} \<Longrightarrow>
    now s \<le> now s' \<Longrightarrow> auth_step L s s'"

inductive auth_steps :: "libs \<Rightarrow> world \<Rightarrow> world \<Rightarrow> bool" for L where
  Start: "auth_steps L s s"
| Then: "auth_steps L s t \<Longrightarrow> auth_step L t u \<Longrightarrow> auth_steps L s u"

abbreviation tokens_of :: "world \<Rightarrow> families" where
  "tokens_of s \<equiv> families_of (refresh_tokens (db s))"

lemma new_refresh_token_simps [simp]:
  "rt_family_id (new_refresh_token L i uid f ts raw) = f" "live (new_refresh_token L i uid f ts raw)"
  "rt_user_id (new_refresh_token L i uid f ts raw) = uid"
  "rt_token_hash (new_refresh_token L i uid f ts raw) = sha256_hash L raw"
  by (simp_all add: new_refresh_token_def live_def)

lemma families_revoked:
  "rt_family_id ` set (update_where P (\<lambda>r. r\<lparr>rt_revoked_at := v\<rparr>) rs) = rt_family_id ` set rs"
proof -
  have "map rt_family_id (update_where P (\<lambda>r. r\<lparr>rt_revoked_at := v\<rparr>) rs) = map rt_family_id rs"
    by (rule map_update_where) simp
  then show ?thesis by (metis list.set_map)
qed

text \<open>One request: either nothing changes, or a family is opened, rotated or closed.\<close>

lemma open_refines:
  assumes "auth_ready s" "uuids s = jti # f # i # us" "uuids s' = us" "committed s' = db s'" "db_ok (db s')"
    "refresh_tokens (db s') = refresh_tokens (db s) @ [new_refresh_token L i uid f ts raw]"
  shows "auth_ready s' \<and> family_step (tokens_of s) (tokens_of s')"
proof -
  have f: "f \<notin> rt_family_id ` set (refresh_tokens (db s))" using assms(1,2) by (auto simp: auth_ready_def)
  have "families_ok (refresh_tokens (db s) @ [new_refresh_token L i uid f ts raw])"
    using assms(1) f by (intro families_ok_append) (auto simp: auth_ready_def)
  then have "auth_ready s'" using assms by (auto simp: auth_ready_def)
  moreover have "families_of (refresh_tokens (db s)) f = None"
  proof -
    have "rows_of f (refresh_tokens (db s)) = []" using f by (auto simp: rows_of_def filter_empty_conv)
    then show ?thesis by (simp add: families_of_def)
  qed
  ultimately show ?thesis
    using family_step.Open [of "tokens_of s" f uid "sha256_hash L raw"] families_of_open [OF f, of "new_refresh_token L i uid f ts raw"]
    by (simp add: assms(6))
qed

lemma idle_refines:
  assumes "auth_ready s" "db s' = db s" "committed s' = db s'" "uuids s' = drop k (uuids s)"
  shows "auth_ready s' \<and> family_step (tokens_of s) (tokens_of s')"
  using assms by (auto simp: auth_ready_def family_step.Idle dest: in_set_dropD)

lemma rotate_refines:
  assumes "auth_ready s" "uuids s = jti # i # us" "uuids s' = us" "committed s' = db s'" "db_ok (db s')"
    "tok \<in> set (refresh_tokens (db s))" "live tok"
    "refresh_tokens (db s') =
       update_where (\<lambda>r. rt_id r = rt_id tok) (\<lambda>r. r\<lparr>rt_revoked_at := Some ts\<rparr>) (refresh_tokens (db s)) @
       [new_refresh_token L i (rt_user_id tok) (rt_family_id tok) ts' raw]"
  shows "auth_ready s' \<and> family_step (tokens_of s) (tokens_of s') \<and>
    (\<exists>v. tokens_of s' (rt_family_id tok) = Some v \<and> rt_token_hash tok \<in> fam_spent v)"
proof -
  let ?rs = "refresh_tokens (db s)" and ?f = "rt_family_id tok" and ?r = "new_refresh_token L i (rt_user_id tok) (rt_family_id tok) ts' raw"
  let ?mid = "update_where (\<lambda>r. rt_id r = rt_id tok) (\<lambda>r. r\<lparr>rt_revoked_at := Some ts\<rparr>) ?rs"
  have ok: "families_ok ?rs" and ids: "distinct (map rt_id ?rs)"
    using assms(1) by (auto simp: auth_ready_def db_ok_def refresh_tokens_ok_def)
  have own: "r = tok" if "r \<in> set ?rs" "rt_id r = rt_id tok" for r
    using distinct_map_eq [OF ids that(1) assms(6) that(2)] .
  have only: "r = tok" if "r \<in> set ?rs" "rt_family_id r = ?f" "live r" for r
    using unique_onD [OF families_okD(1) [OF ok] that(1) assms(6) that(3) assms(7) that(2)] .
  obtain v where v: "families_of ?rs ?f = Some v" and mid: "families_of ?mid = (families_of ?rs)(?f \<mapsto>
      v\<lparr>fam_current := None, fam_spent := fam_spent v \<union> set_option (fam_current v)\<rparr>)"
    by (rule families_of_revoke [OF ok assms(6) refl, of "\<lambda>r. rt_id r = rt_id tok" ts]) (use own only in \<open>auto\<close>)
  have "find live (rows_of ?f ?rs) = Some tok"
  proof (cases "find live (rows_of ?f ?rs)")
    case None
    with assms(6,7) show ?thesis by (auto simp: find_None_iff rows_of_def)
  next
    case (Some x)
    then have "x \<in> set ?rs" "rt_family_id x = ?f" "live x" by (auto simp: find_Some_iff rows_of_def dest!: nth_mem)
    with Some only show ?thesis by simp
  qed
  then have cur: "fam_current v = Some (rt_token_hash tok)"
    using v by (cases "rows_of ?f ?rs = []") (auto simp: families_of_def family_of_nonempty)
  have new: "families_of (?mid @ [?r]) = (families_of ?rs)(?f \<mapsto>
      v\<lparr>fam_current := Some (sha256_hash L raw), fam_spent := insert (rt_token_hash tok) (fam_spent v)\<rparr>)"
    using families_of_continue [of ?mid ?f _ ?r] cur by (cases v) (simp add: mid)
  have "families_ok (?mid @ [?r])"
  proof (intro families_ok_append families_ok_revoke ok)
    fix x assume "x \<in> set ?mid" and f: "rt_family_id x = rt_family_id ?r"
    then obtain y where y: "y \<in> set ?rs" "x = (if rt_id y = rt_id tok then y\<lparr>rt_revoked_at := Some ts\<rparr> else y)"
      unfolding set_update_where by blast
    with f have yf: "rt_family_id y = ?f" by (auto split: if_splits)
    with y families_okD(2) [OF ok y(1) assms(6) yf] only [OF y(1) yf]
    show "\<not> live x \<and> rt_user_id x = rt_user_id ?r" by (auto simp: live_def split: if_splits)
  qed
  moreover have "rt_family_id ` set (?mid @ [?r]) = rt_family_id ` set ?rs"
    using assms(6) by (auto simp: families_revoked)
  ultimately have "auth_ready s'" using assms(1-5) by (auto simp: auth_ready_def assms(8))
  moreover have "family_step (tokens_of s) (tokens_of s')"
    unfolding assms(8) new by (rule family_step.Rotate [of "tokens_of s" "rt_family_id tok" v, OF v cur])
  ultimately show ?thesis by (simp add: assms(8) new)
qed

lemma close_refines:
  assumes "auth_ready s" "uuids s' = uuids s" "committed s' = db s'" "db_ok (db s')"
    "tok \<in> set (refresh_tokens (db s))"
    "refresh_tokens (db s') =
       update_where (\<lambda>r. rt_family_id r = rt_family_id tok \<and> rt_revoked_at r = None)
         (\<lambda>r. r\<lparr>rt_revoked_at := Some ts\<rparr>) (refresh_tokens (db s))"
  shows "auth_ready s' \<and> family_step (tokens_of s) (tokens_of s') \<and>
    (\<exists>v. tokens_of s' (rt_family_id tok) = Some v \<and> fam_current v = None)"
proof -
  let ?rs = "refresh_tokens (db s)"
  have ok: "families_ok ?rs" using assms(1) by (simp add: auth_ready_def)
  obtain v where v: "families_of ?rs (rt_family_id tok) = Some v" and new: "tokens_of s' =
      (families_of ?rs)(rt_family_id tok \<mapsto> v\<lparr>fam_current := None, fam_spent := fam_spent v \<union> set_option (fam_current v)\<rparr>)"
    unfolding assms(6)
    by (rule families_of_revoke [OF ok assms(5) refl,
          of "\<lambda>r. rt_family_id r = rt_family_id tok \<and> rt_revoked_at r = None" ts]) (auto simp: live_def)
  have "rt_family_id ` set (refresh_tokens (db s')) = rt_family_id ` set ?rs"
    unfolding assms(6) by (rule families_revoked)
  then have "auth_ready s'"
    using assms(1-4) families_ok_revoke [OF ok] by (simp add: auth_ready_def assms(6))
  with v show ?thesis by (simp add: new family_step.Close)
qed

text \<open>A request that raised is rolled back; one that returned is one of the three changes.\<close>

lemma request_refines:
  assumes "auth_ready s" "committed s' = db s' \<and> db_ok (db s') \<and> now s' = now s \<and> (\<exists>k. uuids s' = drop k (uuids s)) \<and>
      (case r of Inl _ \<Rightarrow> db s' = db s | Inr x \<Rightarrow> (\<exists>t. body s = (Inr x, t) \<and> db s' = db t \<and> uuids s' = uuids t))"
    and "\<And>x t. body s = (Inr x, t) \<Longrightarrow> db s' = db t \<Longrightarrow> uuids s' = uuids t \<Longrightarrow>
      auth_ready s' \<and> family_step (tokens_of s) (tokens_of s')"
  shows "auth_ready s' \<and> family_step (tokens_of s) (tokens_of s')"
proof (cases r)
  case (Inl e)
  with assms(2) obtain k where "db s' = db s" "committed s' = db s'" "uuids s' = drop k (uuids s)" by auto
  with assms(1) show ?thesis by (rule idle_refines)
next
  case (Inr x)
  with assms(2) obtain t where "body s = (Inr x, t)" "db s' = db t" "uuids s' = uuids t" by auto
  then show ?thesis by (rule assms(3))
qed

lemma auth_readyD: "auth_ready s \<Longrightarrow> committed s = db s" "auth_ready s \<Longrightarrow> db_ok (db s)"
  by (auto simp: auth_ready_def)

lemma login_refines:
  assumes "auth_ready s" "api_login L e pw s = (r, s')"
  shows "auth_ready s' \<and> family_step (tokens_of s) (tokens_of s')"
proof -
  note out = route_outcome [OF drawn_requests(1) auth_readyD [OF assms(1)] assms(2) [unfolded api_login_def]]
  show ?thesis
  proof (rule request_refines [where body = "login L e pw", OF assms(1) out])
    fix p t assume "login L e pw s = (Inr p, t)" "db s' = db t" "uuids s' = uuids t"
    with out show "auth_ready s' \<and> family_step (tokens_of s) (tokens_of s')"
      by (elim login_opens) (rule open_refines [OF assms(1)], auto)
  qed
qed

lemma accept_invite_refines:
  assumes "auth_ready s" "api_accept_invite L raw pw s = (r, s')"
  shows "auth_ready s' \<and> family_step (tokens_of s) (tokens_of s')"
proof (cases "length pw < MIN_PASSWORD_LENGTH")
  case True
  with assms(2) have "s' = s" by (simp add: api_accept_invite_def validate_password_length_def raise_run)
  with assms(1) show ?thesis by (simp add: family_step.Idle)
next
  case False
  with assms(2) have "route (accept_invite L raw pw) s = (r, s')"
    by (simp add: api_accept_invite_def validate_password_length_def)
  note out = route_outcome [OF drawn_requests(4) auth_readyD [OF assms(1)] this]
  show ?thesis
  proof (rule request_refines [where body = "accept_invite L raw pw", OF assms(1) out])
    fix p t assume "accept_invite L raw pw s = (Inr p, t)" "db s' = db t" "uuids s' = uuids t"
    with out show "auth_ready s' \<and> family_step (tokens_of s) (tokens_of s')"
      by (elim accept_invite_opens) (rule open_refines [OF assms(1)], auto)
  qed
qed

lemma refresh_refines:
  assumes "auth_ready s" "api_refresh L raw s = (r, s')"
  shows "auth_ready s' \<and> family_step (tokens_of s) (tokens_of s')"
proof -
  note out = route_outcome [OF drawn_requests(2) auth_readyD [OF assms(1)] assms(2) [unfolded api_refresh_def]]
  show ?thesis
  proof (rule request_refines [where body = "refresh L raw", OF assms(1) out])
    fix p t assume t: "refresh L raw s = (Inr p, t)" "db s' = db t" "uuids s' = uuids t"
    from t(1) obtain tok i jti us where tok: "tok \<in> set (refresh_tokens (db s))" "live tok"
      "uuids s = jti # i # us" "uuids t = us" "refresh_tokens (db t) =
         update_where (\<lambda>r. rt_id r = rt_id tok) (\<lambda>r. r\<lparr>rt_revoked_at := Some (now s)\<rparr>) (refresh_tokens (db s)) @
         [new_refresh_token L i (rt_user_id tok) (rt_family_id tok) (now s) (pair_refresh_token p)]"
      by (rule refresh_rotates)
    have "auth_ready s' \<and> family_step (tokens_of s) (tokens_of s') \<and>
        (\<exists>v. tokens_of s' (rt_family_id tok) = Some v \<and> rt_token_hash tok \<in> fam_spent v)"
      by (rule rotate_refines [OF assms(1) tok(3) _ _ _ tok(1,2)]) (use out t(2,3) tok(4,5) in \<open>simp_all\<close>)
    then show "auth_ready s' \<and> family_step (tokens_of s) (tokens_of s')" by blast
  qed
qed

lemma logout_refines:
  assumes "auth_ready s" "api_logout L raw s = (r, s')"
  shows "auth_ready s' \<and> family_step (tokens_of s) (tokens_of s')"
proof -
  note out = get_session_drawn [OF drawn_requests(3) auth_readyD [OF assms(1)] assms(2) [unfolded api_logout_def]]
  show ?thesis
  proof (rule request_refines [where body = "logout L raw", OF assms(1) out])
    fix x t assume t: "logout L raw s = (Inr x, t)" "db s' = db t" "uuids s' = uuids t"
    note eff = logout_closes [OF t(1)]
    show "auth_ready s' \<and> family_step (tokens_of s) (tokens_of s')"
    proof (cases "\<exists>r\<in>set (refresh_tokens (db s)). rt_token_hash r = sha256_hash L raw")
      case True
      with eff obtain tok where "tok \<in> set (refresh_tokens (db s))" "uuids t = uuids s" "refresh_tokens (db t) =
          update_where (\<lambda>r. rt_family_id r = rt_family_id tok \<and> rt_revoked_at r = None)
            (\<lambda>r. r\<lparr>rt_revoked_at := Some (now s)\<rparr>) (refresh_tokens (db s))" by auto
      then have "auth_ready s' \<and> family_step (tokens_of s) (tokens_of s') \<and>
          (\<exists>v. tokens_of s' (rt_family_id tok) = Some v \<and> fam_current v = None)"
        using out t(2,3) by (intro close_refines [OF assms(1)]) simp_all
      then show ?thesis by blast
    next
      case False
      with eff out t(2,3) assms(1) show ?thesis by (simp add: auth_ready_def family_step.Idle)
    qed
  qed
qed

lemma auth_step_refines:
  assumes "auth_step L s s'" "auth_ready s"
  shows "auth_ready s' \<and> family_step (tokens_of s) (tokens_of s')"
  using assms
proof cases
  case Elsewhere
  with assms(2) show ?thesis by (simp add: auth_ready_def family_step.Idle)
qed (auto dest: login_refines refresh_refines logout_refines accept_invite_refines)

lemma auth_steps_refine:
  "auth_steps L s s' \<Longrightarrow> auth_ready s \<Longrightarrow> auth_ready s' \<and> family_steps (tokens_of s) (tokens_of s')"
proof (induction rule: auth_steps.induct)
  case (Then s t u)
  then show ?case using auth_step_refines by (meson family_steps.More)
qed (simp add: family_steps.Here)

section \<open>Refused refreshes\<close>

abbreviation REFRESH_REFUSED :: fault where
  "REFRESH_REFUSED \<equiv> Raised (HTTPException 401 ''invalid or expired refresh token'')"

lemma rotate_found:
  assumes "auth_ready s" "tok \<in> set (refresh_tokens (db s))" "rt_token_hash tok = sha256_hash L raw"
  shows "refresh_rotate L raw s = (Inr (Some tok), s)"
proof -
  have "unique_on (\<lambda>_. True) rt_token_hash (refresh_tokens (db s))"
    using assms(1) by (simp add: auth_ready_def db_ok_def refresh_tokens_ok_def)
  then have "distinct (map rt_token_hash (refresh_tokens (db s)))" by (simp add: unique_on_def)
  from distinct_map_inj_filter [OF this assms(2)] assms(3) show ?thesis
    by (simp add: refresh_rotate_def one_or_none_run)
qed

lemma refresh_revoked_token:
  assumes "auth_ready s" "tok \<in> set (refresh_tokens (db s))" "rt_token_hash tok = sha256_hash L raw" "\<not> live tok"
  shows "refresh L raw s = (Inl (Raised GENERIC_REFRESH_FAILURE), snd (revoke_family (rt_family_id tok) s))"
  using rotate_found [OF assms(1-3)] assms(4)
  by (simp add: refresh_def bind_Inr live_def revoke_family_def andthen_def run_simps)

lemma api_refresh_refused:
  assumes "auth_ready s" "tok \<in> set (refresh_tokens (db s))" "rt_token_hash tok = sha256_hash L raw" "\<not> live tok"
  shows "\<exists>s'. api_refresh L raw s = (Inl REFRESH_REFUSED, s') \<and> db s' = db s"
proof -
  let ?t = "snd (revoke_family (rt_family_id tok) s)"
  have "committed ?t = db s" using assms(1) by (simp add: revoke_family_def run_simps auth_ready_def)
  then show ?thesis using refresh_revoked_token [OF assms]
    by (simp add: api_refresh_def route_def get_session_Inl try_except_Inl raise_run api_error_def
        GENERIC_REFRESH_FAILURE_def)
qed

lemma spent_row:
  assumes "families_of rs f = Some v" "h \<in> fam_spent v"
  obtains r where "r \<in> set rs" "rt_family_id r = f" "rt_token_hash r = h" "\<not> live r"
proof -
  have "rows_of f rs \<noteq> []" using assms(1) by (auto simp: families_of_def)
  with assms show ?thesis
    by (auto simp: families_of_def family_of_nonempty rows_of_def intro: that)
qed

lemma closed_rows:
  assumes "families_of rs f = Some v" "fam_current v = None" "r \<in> set rs" "rt_family_id r = f"
  shows "\<not> live r"
proof -
  have ne: "rows_of f rs \<noteq> []" using assms(1) by (auto simp: families_of_def)
  with assms(1,2) have "find live (rows_of f rs) = None" by (auto simp: families_of_def family_of_nonempty)
  with assms(3,4) show ?thesis by (auto simp: find_None_iff rows_of_def)
qed

section \<open>Properties\<close>

text \<open>C10: the authentication requests implement the abstract machine of token families. Along every
  sequence of login, refresh, logout and accept-invite requests, interleaved with arbitrary other
  traffic, the \<open>refresh_tokens\<close> table moves only by opening, rotating and closing families, and it
  stays true that a family has one owner and at most one live token.\<close>

theorem auth_implements_families:
  assumes "auth_steps L s s'" "auth_ready s"
  shows "family_steps (tokens_of s) (tokens_of s') \<and> families_ok (refresh_tokens (db s'))"
  using auth_steps_refine [OF assms] by (simp add: auth_ready_def)

text \<open>C11: a refresh token is single-use. Once a refresh with it has succeeded, presenting it again is
  answered 401 and changes nothing, whatever requests were served in between.\<close>

theorem refresh_token_single_use:
  assumes "auth_ready s" "api_refresh L raw s = (Inr p, s1)" "auth_steps L s1 s2"
  shows "\<exists>s3. api_refresh L raw s2 = (Inl REFRESH_REFUSED, s3) \<and> db s3 = db s2"
proof -
  note out = route_outcome [OF drawn_requests(2) auth_readyD [OF assms(1)] assms(2) [unfolded api_refresh_def]]
  then obtain t where t: "refresh L raw s = (Inr p, t)" "db s1 = db t" "uuids s1 = uuids t" by auto
  from t(1) obtain tok i jti us where tok: "tok \<in> set (refresh_tokens (db s))" "rt_token_hash tok = sha256_hash L raw"
    "live tok" "uuids s = jti # i # us" "uuids t = us" "refresh_tokens (db t) =
       update_where (\<lambda>r. rt_id r = rt_id tok) (\<lambda>r. r\<lparr>rt_revoked_at := Some (now s)\<rparr>) (refresh_tokens (db s)) @
       [new_refresh_token L i (rt_user_id tok) (rt_family_id tok) (now s) (pair_refresh_token p)]"
    by (rule refresh_rotates)
  have "auth_ready s1 \<and> family_step (tokens_of s) (tokens_of s1) \<and>
      (\<exists>v. tokens_of s1 (rt_family_id tok) = Some v \<and> rt_token_hash tok \<in> fam_spent v)"
    by (rule rotate_refines [OF assms(1) tok(4) _ _ _ tok(1,3)]) (use out t(2,3) tok(5,6) in \<open>simp_all\<close>)
  then obtain v where ready: "auth_ready s1" and v: "tokens_of s1 (rt_family_id tok) = Some v"
    "rt_token_hash tok \<in> fam_spent v" by blast
  note steps = auth_steps_refine [OF assms(3) ready]
  from family_steps_spent [OF conjunct2 [OF steps] v(1)] v(2) obtain w where
    w: "tokens_of s2 (rt_family_id tok) = Some w" "rt_token_hash tok \<in> fam_spent w" by blast
  from w obtain r where "r \<in> set (refresh_tokens (db s2))" "rt_token_hash r = rt_token_hash tok" "\<not> live r"
    by (rule spent_row)
  with tok(2) steps show ?thesis by (intro api_refresh_refused) simp_all
qed

text \<open>C17: logout is final. After a logout with any token of a family, no token of that family, then
  or later, can be used to refresh.\<close>

theorem logout_ends_family:
  assumes "auth_ready s" "tok \<in> set (refresh_tokens (db s))" "rt_token_hash tok = sha256_hash L raw"
    and "api_logout L raw s = (Inr x, s1)" "auth_steps L s1 s2"
    and "tok' \<in> set (refresh_tokens (db s2))" "rt_family_id tok' = rt_family_id tok"
    and "rt_token_hash tok' = sha256_hash L raw'"
  shows "\<exists>s3. api_refresh L raw' s2 = (Inl REFRESH_REFUSED, s3) \<and> db s3 = db s2"
proof -
  note out = get_session_drawn [OF drawn_requests(3) auth_readyD [OF assms(1)] assms(4) [unfolded api_logout_def]]
  then obtain t where t: "logout L raw s = (Inr x, t)" "db s1 = db t" "uuids s1 = uuids t" by auto
  have eq: "r = tok" if "r \<in> set (refresh_tokens (db s))" "rt_token_hash r = sha256_hash L raw" for r
    using rotate_found [OF assms(1) that] rotate_found [OF assms(1-3)] by simp
  have ex: "\<exists>r\<in>set (refresh_tokens (db s)). rt_token_hash r = sha256_hash L raw" using assms(2,3) by blast
  from logout_closes [OF t(1)] eq have "uuids t = uuids s" "refresh_tokens (db t) =
      update_where (\<lambda>r. rt_family_id r = rt_family_id tok \<and> rt_revoked_at r = None)
        (\<lambda>r. r\<lparr>rt_revoked_at := Some (now s)\<rparr>) (refresh_tokens (db s))"
    unfolding if_P [OF ex] by blast+
  then have "auth_ready s1 \<and> family_step (tokens_of s) (tokens_of s1) \<and>
      (\<exists>v. tokens_of s1 (rt_family_id tok) = Some v \<and> fam_current v = None)"
    using out t(2,3) assms(2) by (intro close_refines [OF assms(1)]) simp_all
  then obtain v where ready: "auth_ready s1" and v: "tokens_of s1 (rt_family_id tok) = Some v" "fam_current v = None"
    by blast
  note steps = auth_steps_refine [OF assms(5) ready]
  from family_steps_spent [OF conjunct2 [OF steps] v(1)] v(2) obtain w where
    "tokens_of s2 (rt_family_id tok) = Some w" "fam_current w = None" by blast
  from closed_rows [OF this assms(6,7)] steps show ?thesis
    by (intro api_refresh_refused [OF _ assms(6,8)]) simp_all
qed

text \<open>C40: what reuse detection really does. When a revoked token is presented, \<open>refresh\<close> revokes the
  rest of its family, but it then raises, and the session rolls that revocation back: the request
  is answered 401 and the committed table is as before, so a live token of the family stays live.\<close>

theorem reuse_detection_rolled_back:
  assumes "auth_ready s" "tok \<in> set (refresh_tokens (db s))" "rt_token_hash tok = sha256_hash L raw"
    and "rt_revoked_at tok \<noteq> None"
  shows "(\<exists>t. refresh L raw s = (Inl (Raised GENERIC_REFRESH_FAILURE), t) \<and>
      (\<forall>r. r \<in> set (refresh_tokens (db t)) \<and> rt_family_id r = rt_family_id tok \<longrightarrow> \<not> live r)) \<and>
    (\<exists>s'. api_refresh L raw s = (Inl REFRESH_REFUSED, s') \<and> db s' = db s)"
proof
  let ?t = "snd (revoke_family (rt_family_id tok) s)"
  from assms(4) have dead: "\<not> live tok" by (simp add: live_def)
  then show "\<exists>s'. api_refresh L raw s = (Inl REFRESH_REFUSED, s') \<and> db s' = db s"
    using assms(1-3) by (intro api_refresh_refused)
  have "\<not> live r" if "r \<in> set (refresh_tokens (db ?t)) \<and> rt_family_id r = rt_family_id tok" for r
    using that by (auto simp: revoke_family_def run_simps set_update_where live_def split: if_splits)
  with refresh_revoked_token [OF assms(1-3) dead]
  show "\<exists>t. refresh L raw s = (Inl (Raised GENERIC_REFRESH_FAILURE), t) \<and>
      (\<forall>r. r \<in> set (refresh_tokens (db t)) \<and> rt_family_id r = rt_family_id tok \<longrightarrow> \<not> live r)" by blast
qed

section \<open>A world with two tokens\<close>

definition demo_token :: "uuid \<Rightarrow> string \<Rightarrow> int option \<Rightarrow> refresh_token" where
  "demo_token i h revoked = \<lparr>rt_id = i, rt_created_at = 0, rt_user_id = 13, rt_token_hash = h,
     rt_family_id = 70, rt_revoked_at = revoked, rt_expires_at = days 30\<rparr>"

definition token_world :: world where
  "token_world = (let d = demo_db\<lparr>refresh_tokens := [demo_token 71 ''r0'' (Some 5), demo_token 72 ''r1'' None]\<rparr>
     in demo_world\<lparr>db := d, committed := d\<rparr>)"

lemma demo_token_simps [simp]:
  "rt_family_id (demo_token i h x) = 70" "rt_token_hash (demo_token i h x) = h" "rt_revoked_at (demo_token i h x) = x"
  "sha256_hash plain_libs raw = raw"
  by (simp_all add: demo_token_def plain_libs_def sha256_hash_def)

lemma token_world_ready: "auth_ready token_world"
  by code_simp

lemma token_world_rows:
  "demo_token 71 ''r0'' (Some 5) \<in> set (refresh_tokens (db token_world))"
  "demo_token 72 ''r1'' None \<in> set (refresh_tokens (db token_world))"
  by (simp_all add: token_world_def Let_def)

lemma token_world_refresh: "\<exists>p s1. api_refresh plain_libs ''r1'' token_world = (Inr p, s1)"
proof -
  have "\<not> isl (fst (api_refresh plain_libs ''r1'' token_world))" by code_simp
  then show ?thesis by (cases "api_refresh plain_libs ''r1'' token_world"; cases "fst (api_refresh plain_libs ''r1'' token_world)") auto
qed

theorem auth_implements_families_witness:
  "\<exists>p s1. api_refresh plain_libs ''r1'' token_world = (Inr p, s1) \<and>
     family_steps (tokens_of token_world) (tokens_of s1) \<and> families_ok (refresh_tokens (db s1))"
proof -
  obtain p s1 where run: "api_refresh plain_libs ''r1'' token_world = (Inr p, s1)" using token_world_refresh by blast
  then have "auth_steps plain_libs token_world s1" by (blast intro: auth_steps.intros auth_step.Refresh)
  from auth_implements_families [OF this token_world_ready] run show ?thesis by blast
qed

theorem refresh_token_single_use_witness:
  "\<exists>p s1 s3. api_refresh plain_libs ''r1'' token_world = (Inr p, s1) \<and>
     api_refresh plain_libs ''r1'' s1 = (Inl REFRESH_REFUSED, s3) \<and> db s3 = db s1"
proof -
  obtain p s1 where run: "api_refresh plain_libs ''r1'' token_world = (Inr p, s1)" using token_world_refresh by blast
  from refresh_token_single_use [OF token_world_ready run auth_steps.Start] run show ?thesis by blast
qed

theorem logout_ends_family_witness:
  "\<exists>s1 s3. api_logout plain_libs ''r1'' token_world = (Inr (), s1) \<and>
     api_refresh plain_libs ''r0'' s1 = (Inl REFRESH_REFUSED, s3) \<and> db s3 = db s1"
proof -
  let ?s1 = "snd (api_logout plain_libs ''r1'' token_world)"
  have "fst (api_logout plain_libs ''r1'' token_world) = Inr ()" by code_simp
  then have run: "api_logout plain_libs ''r1'' token_world = (Inr (), ?s1)" by (metis prod.collapse)
  have row: "demo_token 71 ''r0'' (Some 5) \<in> set (refresh_tokens (db ?s1))" by code_simp
  have "\<exists>s3. api_refresh plain_libs ''r0'' ?s1 = (Inl REFRESH_REFUSED, s3) \<and> db s3 = db ?s1"
    by (rule logout_ends_family [OF token_world_ready token_world_rows(2) _ run auth_steps.Start row]) simp_all
  with run show ?thesis by blast
qed

theorem reuse_detection_rolled_back_witness:
  "\<exists>s'. api_refresh plain_libs ''r0'' token_world = (Inl REFRESH_REFUSED, s') \<and>
     demo_token 72 ''r1'' None \<in> set (refresh_tokens (db s'))"
proof -
  have "\<exists>s'. api_refresh plain_libs ''r0'' token_world = (Inl REFRESH_REFUSED, s') \<and> db s' = db token_world"
    using reuse_detection_rolled_back [OF token_world_ready token_world_rows(1), of plain_libs "''r0''"]
    by simp
  then show ?thesis using token_world_rows(2) by metis
qed

end
