(* ===== verification/Users.thy ===== *)
theory Users
  imports Auth
begin

text \<open>
  \<open>src/app/services/user_service.py\<close> (inviting users and managing them) and the correctness of the
  login and invitation flows of \<open>Auth.thy\<close>. The e-mail the mailer sends is an entry of \<open>outbox\<close>:
  its recipient and the invitation link.
\<close>

section \<open>user_service\<close>

definition require_admin :: "user \<Rightarrow> unit service" where
  "require_admin admin = throw_if (u_role admin \<noteq> ADMIN \<or> u_organization_id admin = None) ForbiddenError"

definition send_invite_email :: "string \<Rightarrow> string \<Rightarrow> unit service" where
  "send_invite_email recipient link = modify (\<lambda>s. s\<lparr>outbox := outbox s @ [(recipient, link)]\<rparr>)"

definition issue_and_send_invite :: "libs \<Rightarrow> string \<Rightarrow> user \<Rightarrow> unit service" where
  "issue_and_send_invite L frontend_url u = bind (invite_issue L (u_id u)) (\<lambda>raw.
     send_invite_email (u_email u) (frontend_url @ ''/accept-invite?token='' @ raw))"

definition invite_user :: "libs \<Rightarrow> string \<Rightarrow> user \<Rightarrow> string \<Rightarrow> string \<Rightarrow> UserRole \<Rightarrow> user service" where
  "invite_user L frontend_url admin name email rl =
    andthen (require_admin admin) (bind uuid4 (\<lambda>i. bind (reads now) (\<lambda>ts.
    let u = \<lparr>u_id = i, u_created_at = ts, u_organization_id = u_organization_id admin, u_name = name,
             u_email = email, u_role = rl, u_password_hash = None, u_status = USER_PENDING,
             u_phone_number = None, u_auto_provisioned_channel = None\<rparr>
    in andthen (update_db (users_update (\<lambda>us. us @ [u])))
       (andthen flush (andthen (issue_and_send_invite L frontend_url u) (ret u))))))"

definition reissue_invite :: "libs \<Rightarrow> string \<Rightarrow> user \<Rightarrow> uuid \<Rightarrow> user service" where
  "reissue_invite L frontend_url admin uid =
    andthen (require_admin admin)
    (bind (one_or_none (\<lambda>d. filter (\<lambda>u. u_id u = uid) (users d))) (\<lambda>found.
    case found of
      None \<Rightarrow> throw UserNotFoundError
    | Some u \<Rightarrow>
        if u_organization_id u \<noteq> u_organization_id admin then throw UserNotFoundError
        else if u_status u \<noteq> USER_PENDING then throw ConflictError
        else andthen (revoke_unused_for_user (u_id u))
             (andthen (issue_and_send_invite L frontend_url u) (ret u))))"

definition list_users :: "OrgScope \<Rightarrow> UserRole option \<Rightarrow> UserStatus option \<Rightarrow> user list service" where
  "list_users sc rl st = query (user_list sc rl st)"

definition get_user :: "OrgScope \<Rightarrow> uuid \<Rightarrow> user service" where
  "get_user sc uid = get_or_404 UserRepository sc (Some uid)"

definition update_user :: "OrgScope \<Rightarrow> uuid \<Rightarrow> string option \<Rightarrow> UserRole option \<Rightarrow> user service" where
  "update_user sc uid name rl = update_row UserRepository sc uid (\<lambda>u.
     (case rl of None \<Rightarrow> (\<lambda>v. v) | Some x \<Rightarrow> u_role_update (\<lambda>_. x))
       ((case name of None \<Rightarrow> (\<lambda>v. v) | Some x \<Rightarrow> u_name_update (\<lambda>_. x)) u))"

definition disable_user :: "OrgScope \<Rightarrow> uuid \<Rightarrow> user service" where
  "disable_user sc uid = update_row UserRepository sc uid (\<lambda>u. u\<lparr>u_status := USER_DISABLED\<rparr>)"

section \<open>Constraints\<close>

text \<open>A change of one table is checked by that table's constraints (and, for users, by the foreign
  keys that point at it, when no key disappears).\<close>

lemma db_ok_refresh_tokens:
  "db_ok d \<Longrightarrow> refresh_tokens_ok (refresh_tokens_update f d) \<Longrightarrow> db_ok (refresh_tokens_update f d)"
  by (simp add: db_ok_def table_ok_defs)

lemma db_ok_invite_tokens:
  "db_ok d \<Longrightarrow> invite_tokens_ok (invite_tokens_update f d) \<Longrightarrow> db_ok (invite_tokens_update f d)"
  by (simp add: db_ok_def table_ok_defs)

lemma db_ok_users:
  "db_ok d \<Longrightarrow> users_ok (users_update f d) \<Longrightarrow> map u_id (f (users d)) = map u_id (users d) \<Longrightarrow>
     db_ok (users_update f d)"
  by (simp add: db_ok_def table_ok_defs)

lemma db_ok_insert_refresh_token:
  assumes "db_ok d" "rt_user_id r \<in> set (user_pks d)" "rt_id r \<notin> rt_id ` set (refresh_tokens d)"
    "rt_token_hash r \<notin> rt_token_hash ` set (refresh_tokens d)"
  shows "db_ok (refresh_tokens_update (\<lambda>rs. rs @ [r]) d)"
proof (rule db_ok_refresh_tokens [OF assms(1)])
  have "refresh_tokens_ok d" using assms(1) by (simp add: db_ok_def)
  with assms(2-4) show "refresh_tokens_ok (refresh_tokens_update (\<lambda>rs. rs @ [r]) d)"
    by (auto simp: refresh_tokens_ok_def unique_on_def)
qed

lemma db_ok_insert_invite:
  assumes "db_ok d" "it_user_id r \<in> set (user_pks d)" "it_id r \<notin> it_id ` set (invite_tokens d)"
    "it_token_hash r \<notin> it_token_hash ` set (invite_tokens d)"
    "\<And>x. x \<in> set (invite_tokens d) \<Longrightarrow> outstanding x \<Longrightarrow> it_user_id x \<noteq> it_user_id r"
  shows "db_ok (invite_tokens_update (\<lambda>rs. rs @ [r]) d)"
proof (rule db_ok_invite_tokens [OF assms(1)])
  have "invite_tokens_ok d" using assms(1) by (simp add: db_ok_def)
  with assms(2-5) show "invite_tokens_ok (invite_tokens_update (\<lambda>rs. rs @ [r]) d)"
    by (auto simp: invite_tokens_ok_def unique_on_append) (force simp: image_iff)+
qed

lemma db_ok_update_user:
  assumes "db_ok d" "\<And>u. u_id (f u) = u_id u \<and> u_email (f u) = u_email u \<and>
      u_phone_number (f u) = u_phone_number u \<and> u_organization_id (f u) = u_organization_id u"
    "\<And>u. u \<in> set (users d) \<Longrightarrow> u_id u = i \<Longrightarrow> user_row_ok (f u)"
  shows "db_ok (users_update (update_where (\<lambda>u. u_id u = i) f) d)"
proof -
  have pks: "map u_id (update_where (\<lambda>u. u_id u = i) f (users d)) = map u_id (users d)"
    using assms(2) by (intro map_update_where) simp
  have "users_ok d" using assms(1) by (simp add: db_ok_def)
  with assms(2,3) have "users_ok (users_update (update_where (\<lambda>u. u_id u = i) f) d)"
    by (simp add: users_ok_def pks list_all_update_where unique_on_update_where fk_ok_update_where)
  with assms(1) pks show ?thesis by (intro db_ok_users)
qed

lemma db_ok_retire_invites:
  assumes "db_ok d" "\<And>r. it_id (g r) = it_id r \<and> it_user_id (g r) = it_user_id r \<and>
      it_token_hash (g r) = it_token_hash r \<and> \<not> outstanding (g r)"
  shows "db_ok (invite_tokens_update (update_where P g) d)"
proof (rule db_ok_invite_tokens [OF assms(1)])
  have "invite_tokens_ok d" using assms(1) by (simp add: db_ok_def)
  moreover have filt: "filter outstanding (update_where P g rs) = filter (\<lambda>r. \<not> P r) (filter outstanding rs)" for rs
    using assms(2) by (induction rs) (auto simp: update_where_def)
  moreover from \<open>invite_tokens_ok d\<close> have "unique_on outstanding it_user_id (update_where P g (invite_tokens d))"
    unfolding unique_on_def filt invite_tokens_ok_def by (blast intro: distinct_map_filter)
  ultimately show "invite_tokens_ok (invite_tokens_update (update_where P g) d)"
    using assms(2) map_update_where [of P it_id g "invite_tokens d"]
      unique_on_update_where [of "\<lambda>_. True" it_token_hash "invite_tokens d" P g]
      fk_ok_update_where [of "\<lambda>r. Some (it_user_id r)" "invite_tokens d" "user_pks d" P g]
    by (simp add: invite_tokens_ok_def)
qed

section \<open>Login\<close>

text \<open>The random values of the run are there and new: the row id, and the digests of the tokens.\<close>

definition fresh_randomness :: "libs \<Rightarrow> world \<Rightarrow> bool" where
  "fresh_randomness L s \<longleftrightarrow>
     (case uuids s of _ # _ # i # _ \<Rightarrow> i \<notin> rt_id ` set (refresh_tokens (db s)) | _ \<Rightarrow> False) \<and>
     (case tokens s of t0 # t1 # _ \<Rightarrow> {sha256_hash L t0, sha256_hash L t1} \<inter> rt_token_hash ` set (refresh_tokens (db s)) = {}
      | _ \<Rightarrow> False)"

lemma issue_pair_runs:
  assumes "db_ok (db s)" "u_id u \<in> set (user_pks (db s))" "uuids s = jti # f # i # us" "tokens s = raw # ts"
    "i \<notin> rt_id ` set (refresh_tokens (db s))" "sha256_hash L raw \<notin> rt_token_hash ` set (refresh_tokens (db s))"
  shows "\<exists>p s'. issue_pair L u None s = (Inr p, s') \<and> pair_refresh_token p = raw \<and>
    db s' = refresh_tokens_update (\<lambda>rs. rs @ [new_refresh_token L i (u_id u) f (now s) raw]) (db s)"
proof -
  let ?d = "refresh_tokens_update (\<lambda>rs. rs @ [new_refresh_token L i (u_id u) f (now s) raw]) (db s)"
  have "db_ok ?d"
    using assms by (intro db_ok_insert_refresh_token) (simp_all add: new_refresh_token_def)
  then show ?thesis
    using assms(3,4) by (simp add: issue_pair_def encode_access_token_def refresh_issue_def andthen_def run_simps
        new_refresh_token_def DEFAULT_REFRESH_TOKEN_TTL_def)
qed

definition credentials_match :: "libs \<Rightarrow> string \<Rightarrow> string \<Rightarrow> user \<Rightarrow> bool" where
  "credentials_match L email password u \<longleftrightarrow>
     py_lower (u_email u) = py_lower (py_strip email) \<and> u_status u = USER_ACTIVE \<and>
     (case u_password_hash u of None \<Rightarrow> False | Some h \<Rightarrow> verify_password L h password)"

lemma email_lookup:
  assumes "db_ok (db s)" "u \<in> set (users (db s))" "py_lower (u_email u) = e"
  shows "filter (\<lambda>v. py_lower (u_email v) = e) (users (db s)) = [u]"
proof -
  have "distinct (map (\<lambda>r. py_lower (u_email r)) (users (db s)))"
    using assms(1) by (simp add: db_ok_def users_ok_def unique_on_def)
  from distinct_map_inj_filter [OF this assms(2)] assms(3) show ?thesis by simp
qed

lemma login_accepts:
  assumes "db_ok (db s)" "fresh_randomness L s" "u \<in> set (users (db s))" "credentials_match L email password u"
  shows "\<exists>p s'. login L email password s = (Inr p, s')"
proof -
  from assms(4) obtain h where h: "u_password_hash u = Some h" "verify_password L h password" "u_status u = USER_ACTIVE"
    and e: "py_lower (u_email u) = py_lower (py_strip email)"
    by (auto simp: credentials_match_def split: option.splits)
  obtain jti f i us t0 t1 ts where rnd: "uuids s = jti # f # i # us" "tokens s = t0 # t1 # ts"
    "i \<notin> rt_id ` set (refresh_tokens (db s))"
    "sha256_hash L t0 \<notin> rt_token_hash ` set (refresh_tokens (db s))"
    "sha256_hash L t1 \<notin> rt_token_hash ` set (refresh_tokens (db s))"
    using assms(2) by (auto simp: fresh_randomness_def split: list.splits)
  note f = email_lookup [OF assms(1,3) e]
  show ?thesis
  proof (cases "needs_rehash L h")
    case False
    then have "login L email password s = issue_pair L u None s"
      using f h by (simp add: login_def andthen_def run_simps)
    with issue_pair_runs [OF assms(1) _ rnd(1,2,3,4), of u] assms(3) show ?thesis by auto
  next
    case True
    let ?d = "users_update (update_where (\<lambda>v. u_id v = u_id u) (\<lambda>v. v\<lparr>u_password_hash := Some (argon2_hash L t0 password)\<rparr>)) (db s)"
    let ?t = "s\<lparr>tokens := t1 # ts, db := ?d\<rparr>"
    have "user_row_ok v" if "v \<in> set (users (db s))" for v
      using that assms(1) by (auto simp: db_ok_def users_ok_def list_all_iff)
    then have "db_ok ?d"
      using assms(1) by (intro db_ok_update_user) (auto simp: user_row_ok_def)
    moreover have "map u_id (users ?d) = map u_id (users (db s))" by (simp add: map_update_where)
    then have "u_id u \<in> set (user_pks ?d)" using assms(3) by simp
    ultimately have "\<exists>p s'. issue_pair L u None ?t = (Inr p, s')"
      using issue_pair_runs [of ?t u] rnd by fastforce
    moreover have "login L email password s = issue_pair L u None ?t"
      using f h True rnd by (simp add: login_def hash_password_def set_user_def andthen_def run_simps)
    ultimately show ?thesis by simp
  qed
qed

lemma login_refuses:
  assumes "db_ok (db s)" "\<And>u. u \<in> set (users (db s)) \<Longrightarrow> \<not> credentials_match L email password u"
  shows "login L email password s = (Inl (Raised GENERIC_AUTH_FAILURE), s)"
proof (cases "\<exists>u\<in>set (users (db s)). py_lower (u_email u) = py_lower (py_strip email)")
  case True
  then obtain u where u: "u \<in> set (users (db s))" "py_lower (u_email u) = py_lower (py_strip email)" by blast
  from assms(2) [OF u(1)] u(2) email_lookup [OF assms(1) u] show ?thesis
    by (auto simp: login_def credentials_match_def run_simps split: option.splits)
next
  case False
  then have "filter (\<lambda>v. py_lower (u_email v) = py_lower (py_strip email)) (users (db s)) = []"
    by (auto simp: filter_empty_conv)
  then show ?thesis by (simp add: login_def run_simps)
qed

text \<open>C18: login. A pair is issued exactly when an active account has that e-mail (up to case and
  surrounding blanks) and a password hash the presented password verifies against; every other
  request, whatever the reason, gets the same error and leaves the state as it was.\<close>

theorem login_iff_credentials:
  assumes "db_ok (db s)" "fresh_randomness L s"
  shows "if list_ex (credentials_match L email password) (users (db s))
    then \<exists>p s'. login L email password s = (Inr p, s')
    else login L email password s = (Inl (Raised GENERIC_AUTH_FAILURE), s)"
  using login_accepts [OF assms] login_refuses [OF assms(1)] by (auto simp: list_ex_iff)

definition login_db :: database where
  "login_db = users_update (map (\<lambda>u. u\<lparr>u_password_hash := Some ''secret$salt''\<rparr>)) demo_db"

definition login_world :: world where
  "login_world = demo_world\<lparr>db := login_db, committed := login_db\<rparr>"

theorem login_iff_credentials_witness:
  "(\<exists>p s'. login plain_libs '' Tenant@Acme.test '' ''secret'' login_world = (Inr p, s')) \<and>
   login plain_libs ''tenant@acme.test'' ''guess'' login_world = (Inl (Raised GENERIC_AUTH_FAILURE), login_world)"
proof -
  have ok: "db_ok (db login_world)" by code_simp
  have rnd: "fresh_randomness plain_libs login_world" by code_simp
  have "list_ex (credentials_match plain_libs '' Tenant@Acme.test '' ''secret'') (users (db login_world))" by code_simp
  moreover have "\<not> list_ex (credentials_match plain_libs ''tenant@acme.test'' ''guess'') (users (db login_world))" by code_simp
  ultimately show ?thesis
    using login_iff_credentials [OF ok rnd, of "'' Tenant@Acme.test ''" "''secret''"]
      login_iff_credentials [OF ok rnd, of "''tenant@acme.test''" "''guess''"] by simp
qed

section \<open>Invitations\<close>

text \<open>The documented behaviour of Argon2: a password verifies against its own hash, whatever the salt.\<close>

definition argon2_sound :: "libs \<Rightarrow> bool" where
  "argon2_sound L \<longleftrightarrow> (\<forall>salt plain. argon2_verify L (argon2_hash L salt plain) plain = Some True)"

definition invite_valid :: "libs \<Rightarrow> string \<Rightarrow> int \<Rightarrow> invite_token \<Rightarrow> user \<Rightarrow> bool" where
  "invite_valid L raw ts tok u \<longleftrightarrow> it_token_hash tok = sha256_hash L raw \<and> outstanding tok \<and>
     ts \<le> it_expires_at tok \<and> u_id u = it_user_id tok \<and> u_status u = USER_PENDING"

definition activated :: "libs \<Rightarrow> string \<Rightarrow> string \<Rightarrow> user \<Rightarrow> user" where
  "activated L salt pw u = u\<lparr>u_password_hash := Some (argon2_hash L salt pw), u_status := USER_ACTIVE\<rparr>"

lemma invite_lookup:
  assumes "db_ok (db s)" "tok \<in> set (invite_tokens (db s))" "it_token_hash tok = sha256_hash L raw"
  shows "consume L raw s = (Inr (Some tok), s)"
proof -
  have "distinct (map it_token_hash (invite_tokens (db s)))"
    using assms(1) by (simp add: db_ok_def invite_tokens_ok_def unique_on_def)
  from distinct_map_inj_filter [OF this assms(2)] assms(3) show ?thesis
    by (simp add: consume_def one_or_none_run)
qed

lemma user_lookup:
  assumes "db_ok (db s)" "u \<in> set (users (db s))"
  shows "filter (\<lambda>v. u_id v = u_id u) (users (db s)) = [u]"
  using assms by (intro distinct_map_inj_filter) (simp_all add: db_ok_def users_ok_def)

text \<open>The state in which \<open>accept_invite\<close> issues the pair.\<close>

definition accepted :: "libs \<Rightarrow> string \<Rightarrow> invite_token \<Rightarrow> user \<Rightarrow> world \<Rightarrow> database" where
  "accepted L pw tok u s = invite_tokens_update
     (update_where (\<lambda>r. it_id r = it_id tok) (\<lambda>r. r\<lparr>it_used_at := Some (now s)\<rparr>))
     (users_update (update_where (\<lambda>v. u_id v = u_id u) (\<lambda>_. activated L (hd (tokens s)) pw u)) (db s))"

lemma db_ok_accepted:
  assumes "db_ok (db s)" "u \<in> set (users (db s))"
  shows "db_ok (accepted L pw tok u s)"
proof -
  let ?u' = "activated L (hd (tokens s)) pw u"
  have "update_where (\<lambda>v. u_id v = u_id u) (\<lambda>_. ?u') (users (db s)) =
      update_where (\<lambda>v. u_id v = u_id u) (\<lambda>v. v\<lparr>u_password_hash := u_password_hash ?u', u_status := u_status ?u'\<rparr>) (users (db s))"
    using assms by (auto simp: update_where_def activated_def db_ok_def users_ok_def dest: distinct_map_eq)
  moreover have "db_ok (users_update (update_where (\<lambda>v. u_id v = u_id u)
      (\<lambda>v. v\<lparr>u_password_hash := u_password_hash ?u', u_status := u_status ?u'\<rparr>)) (db s))"
    using assms(1) by (intro db_ok_update_user)
      (auto simp: user_row_ok_def activated_def db_ok_def users_ok_def list_all_iff)
  ultimately have "db_ok (users_update (update_where (\<lambda>v. u_id v = u_id u) (\<lambda>_. ?u')) (db s))"
    by (metis (no_types, lifting) database.unfold_congs(2))
  then show ?thesis unfolding accepted_def
    by (rule db_ok_retire_invites) (simp add: outstanding_def)
qed

lemma accept_invite_runs:
  assumes "db_ok (db s)" "tok \<in> set (invite_tokens (db s))" "u \<in> set (users (db s))" "invite_valid L raw (now s) tok u"
    "tokens s = t0 # ts"
  shows "accept_invite L raw pw s =
    issue_pair L (activated L t0 pw u) None (s\<lparr>tokens := ts, db := accepted L pw tok u s\<rparr>)"
proof -
  have tok: "consume L raw s = (Inr (Some tok), s)" "it_used_at tok = None" "it_revoked_at tok = None"
    "\<not> it_expires_at tok < now s" "u_status u = USER_PENDING" "u_id u = it_user_id tok"
    using assms(4) invite_lookup [OF assms(1,2)] by (auto simp: invite_valid_def outstanding_def)
  have "filter (\<lambda>v. u_id v = it_user_id tok) (users (db s)) = [u]"
    using user_lookup [OF assms(1,3)] tok(6) by simp
  moreover have "db_ok (accepted L pw tok u s)" using assms(1,3) by (rule db_ok_accepted)
  ultimately show ?thesis using tok assms(5)
    by (simp add: accept_invite_def bind_Inr hash_password_def set_user_def mark_used_def Let_def andthen_def
        run_simps accepted_def activated_def)
qed

lemma accept_invite_accepts:
  assumes "db_ok (db s)" "fresh_randomness L s" "tok \<in> set (invite_tokens (db s))" "u \<in> set (users (db s))"
    "invite_valid L raw (now s) tok u"
  obtains p s' r where "accept_invite L raw pw s = (Inr p, s')"
    "db s' = refresh_tokens_update (\<lambda>rs. rs @ [r]) (accepted L pw tok u s)" "db_ok (db s')"
proof -
  obtain jti f i us t0 t1 ts where rnd: "uuids s = jti # f # i # us" "tokens s = t0 # t1 # ts"
    "i \<notin> rt_id ` set (refresh_tokens (db s))"
    "sha256_hash L t1 \<notin> rt_token_hash ` set (refresh_tokens (db s))"
    using assms(2) by (auto simp: fresh_randomness_def split: list.splits)
  let ?d = "accepted L pw tok u s" and ?u = "activated L t0 pw u"
  let ?t = "s\<lparr>tokens := t1 # ts, db := ?d\<rparr>"
  have d: "db_ok ?d" "refresh_tokens ?d = refresh_tokens (db s)"
    using db_ok_accepted [OF assms(1,4)] by (simp_all add: accepted_def)
  have "map u_id (users ?d) = map u_id (users (db s))"
    by (simp add: accepted_def activated_def map_update_where)
  then have mem: "u_id ?u \<in> set (user_pks ?d)" using assms(4) by (simp add: activated_def)
  from issue_pair_runs [of ?t ?u jti f i us t1 ts L] rnd d mem obtain p s' where
    "issue_pair L ?u None ?t = (Inr p, s')"
    "db s' = refresh_tokens_update (\<lambda>rs. rs @ [new_refresh_token L i (u_id ?u) f (now ?t) t1]) ?d" by auto
  moreover have "db_ok (refresh_tokens_update (\<lambda>rs. rs @ [new_refresh_token L i (u_id ?u) f (now ?t) t1]) ?d)"
    using rnd d mem by (intro db_ok_insert_refresh_token) (simp_all add: new_refresh_token_def)
  ultimately show ?thesis
    using accept_invite_runs [OF assms(1,3-5) rnd(2), of pw] by (intro that) auto
qed

lemma accept_invite_refuses:
  assumes "db_ok (db s)"
    "\<And>tok u. tok \<in> set (invite_tokens (db s)) \<Longrightarrow> u \<in> set (users (db s)) \<Longrightarrow> \<not> invite_valid L raw (now s) tok u"
  shows "accept_invite L raw pw s = (Inl (Raised InviteAcceptError), s)"
proof (cases "\<exists>tok\<in>set (invite_tokens (db s)). it_token_hash tok = sha256_hash L raw")
  case False
  then have "filter (\<lambda>r. it_token_hash r = sha256_hash L raw) (invite_tokens (db s)) = []"
    by (auto simp: filter_empty_conv)
  then show ?thesis by (simp add: accept_invite_def consume_def run_simps)
next
  case True
  then obtain tok where tok: "tok \<in> set (invite_tokens (db s))" "it_token_hash tok = sha256_hash L raw" by blast
  have "it_user_id tok \<in> set (user_pks (db s))"
    using assms(1) tok(1) by (auto simp: db_ok_def invite_tokens_ok_def fk_ok_def list_all_iff)
  then obtain u where u: "u \<in> set (users (db s))" "u_id u = it_user_id tok" by auto
  from user_lookup [OF assms(1) u(1)] u(2) have "filter (\<lambda>v. u_id v = it_user_id tok) (users (db s)) = [u]" by simp
  with assms(2) [OF tok(1) u(1)] tok(2) u(2) invite_lookup [OF assms(1) tok] show ?thesis
    by (auto simp: accept_invite_def bind_Inr invite_valid_def outstanding_def run_simps)
qed

text \<open>C19: invitations. An invitation is accepted exactly when its token is known, unused, unrevoked and
  unexpired and its user is still pending; every other case gets the same error and changes
  nothing. After acceptance the account is active with the chosen password, so logging in with it
  works, and the same link is refused from then on.\<close>

theorem accept_invite_iff:
  assumes "db_ok (db s)" "fresh_randomness L s" "argon2_sound L"
  shows "if list_ex (\<lambda>tok. list_ex (invite_valid L raw (now s) tok) (users (db s))) (invite_tokens (db s))
    then \<exists>p s'. accept_invite L raw pw s = (Inr p, s') \<and>
      (\<exists>u\<in>set (users (db s)). u_status u = USER_PENDING \<and>
        (\<forall>t. db t = db s' \<and> fresh_randomness L t \<and> py_strip (u_email u) = u_email u \<longrightarrow>
          (\<exists>q t'. login L (u_email u) pw t = (Inr q, t')))) \<and>
      (\<forall>t pw'. db t = db s' \<longrightarrow> accept_invite L raw pw' t = (Inl (Raised InviteAcceptError), t))
    else accept_invite L raw pw s = (Inl (Raised InviteAcceptError), s)"
proof (cases "list_ex (\<lambda>tok. list_ex (invite_valid L raw (now s) tok) (users (db s))) (invite_tokens (db s))")
  case False
  with accept_invite_refuses [OF assms(1)] show ?thesis by (auto simp: list_ex_iff)
next
  case True
  then obtain tok u where tok: "tok \<in> set (invite_tokens (db s))" and u: "u \<in> set (users (db s))"
    and v: "invite_valid L raw (now s) tok u" by (auto simp: list_ex_iff)
  obtain p s' r where run: "accept_invite L raw pw s = (Inr p, s')"
    and d: "db s' = refresh_tokens_update (\<lambda>rs. rs @ [r]) (accepted L pw tok u s)" "db_ok (db s')"
    by (rule accept_invite_accepts [OF assms(1,2) tok u v])
  have row: "activated L (hd (tokens s)) pw u \<in> set (users (db s'))"
    using u by (auto simp: d accepted_def set_update_where)
  have "\<exists>q t'. login L (u_email u) pw t = (Inr q, t')"
    if "db t = db s'" "fresh_randomness L t" "py_strip (u_email u) = u_email u" for t
    using that d(2) row assms(3)
    by (intro login_accepts) (auto simp: credentials_match_def activated_def verify_password_def argon2_sound_def)
  moreover have "accept_invite L raw pw' t = (Inl (Raised InviteAcceptError), t)" if t: "db t = db s'" for t pw'
  proof (rule accept_invite_refuses)
    show "db_ok (db t)" using t d(2) by simp
    fix tok' u' assume "tok' \<in> set (invite_tokens (db t))"
    then obtain x where x: "x \<in> set (invite_tokens (db s))"
      "tok' = (if it_id x = it_id tok then x\<lparr>it_used_at := Some (now s)\<rparr> else x)"
      by (auto simp: t d accepted_def set_update_where)
    have "x = tok" if "it_token_hash x = sha256_hash L raw"
      using invite_lookup [OF assms(1) x(1) that] invite_lookup [OF assms(1) tok, of L raw] v by (simp add: invite_valid_def)
    with x(2) show "\<not> invite_valid L raw (now t) tok' u'" by (auto simp: invite_valid_def outstanding_def)
  qed
  moreover have "u_status u = USER_PENDING" using v by (simp add: invite_valid_def)
  ultimately show ?thesis unfolding if_P [OF True] using run u by blast
qed

definition invite_db :: database where
  "invite_db = users_update (\<lambda>us. us @ [(mk_user 16 10 ''new@acme.test'' AGENT)\<lparr>u_status := USER_PENDING, u_password_hash := None\<rparr>])
     (demo_db\<lparr>invite_tokens := [\<lparr>it_id = 75, it_created_at = 0, it_user_id = 16, it_token_hash = ''welcome'',
        it_expires_at = hours 48, it_used_at = None, it_revoked_at = None\<rparr>]\<rparr>)"

definition invite_world :: world where
  "invite_world = demo_world\<lparr>db := invite_db, committed := invite_db\<rparr>"

lemma plain_libs_argon2: "argon2_sound plain_libs"
  by (simp add: argon2_sound_def plain_libs_def)

theorem accept_invite_iff_witness:
  "\<exists>p s'. accept_invite plain_libs ''welcome'' ''a new password'' invite_world = (Inr p, s') \<and>
     accept_invite plain_libs ''welcome'' ''another one'' s' = (Inl (Raised InviteAcceptError), s')"
proof -
  have ok: "db_ok (db invite_world)" by code_simp
  have rnd: "fresh_randomness plain_libs invite_world" by code_simp
  have "list_ex (\<lambda>tok. list_ex (invite_valid plain_libs ''welcome'' (now invite_world) tok) (users (db invite_world)))
      (invite_tokens (db invite_world))" by code_simp
  then show ?thesis
    using accept_invite_iff [OF ok rnd plain_libs_argon2, of "''welcome''" "''a new password''"] by (auto simp del: list_ex_iff)
qed

section \<open>Reissuing an invitation\<close>

lemma reissue_invite_InrE:
  assumes "reissue_invite L url admin uid s = (Inr u, s')"
  obtains raw i us where
    "filter (\<lambda>v. u_id v = uid) (users (db s)) = [u]" "u_organization_id u = u_organization_id admin"
    "u_status u = USER_PENDING" "u_role admin = ADMIN"
    "outbox s' = outbox s @ [(u_email u, url @ ''/accept-invite?token='' @ raw)]"
    "db s' = invite_tokens_update (\<lambda>rs.
       update_where (\<lambda>r. it_user_id r = u_id u \<and> it_used_at r = None \<and> it_revoked_at r = None)
         (\<lambda>r. r\<lparr>it_revoked_at := Some (now s)\<rparr>) rs @
       [\<lparr>it_id = i, it_created_at = now s, it_user_id = u_id u, it_token_hash = sha256_hash L raw,
         it_expires_at = now s + hours 48, it_used_at = None, it_revoked_at = None\<rparr>]) (db s)"
    "db_ok (db s')"
  using assms
  by (auto simp: reissue_invite_def require_admin_def revoke_unused_for_user_def issue_and_send_invite_def
      invite_issue_def send_invite_email_def INVITE_TOKEN_TTL_def andthen_def comp_def run_simps
      split: option.splits if_splits list.splits intro!: that)

text \<open>C20: reissuing an invitation. It only succeeds for a pending user of the admin's own organization;
  afterwards the user has exactly one outstanding invitation, the one whose link was just mailed
  to the user's address, valid for 48 hours, and every link sent before is refused.\<close>

theorem reissue_invite_effect:
  assumes "reissue_invite L url admin uid s = (Inr u, s')"
  shows "u \<in> set (users (db s)) \<and> u_id u = uid \<and> u_status u = USER_PENDING \<and>
    u_organization_id u = u_organization_id admin \<and> u_role admin = ADMIN \<and>
    (\<exists>raw tok. outbox s' = outbox s @ [(u_email u, url @ ''/accept-invite?token='' @ raw)] \<and>
      filter (\<lambda>r. outstanding r \<and> it_user_id r = uid) (invite_tokens (db s')) = [tok] \<and>
      it_token_hash tok = sha256_hash L raw \<and> it_expires_at tok = now s + hours 48) \<and>
    (\<forall>old. old \<in> set (invite_tokens (db s)) \<and> it_user_id old = uid \<longrightarrow>
      (\<forall>raw' pw t. it_token_hash old = sha256_hash L raw' \<and> db t = db s' \<longrightarrow>
        accept_invite L raw' pw t = (Inl (Raised InviteAcceptError), t)))"
  using assms
proof (rule reissue_invite_InrE)
  fix raw i us
  let ?P = "\<lambda>r. it_user_id r = u_id u \<and> it_used_at r = None \<and> it_revoked_at r = None"
  let ?g = "\<lambda>r. r\<lparr>it_revoked_at := Some (now s)\<rparr>"
  let ?new = "\<lparr>it_id = i, it_created_at = now s, it_user_id = u_id u, it_token_hash = sha256_hash L raw,
    it_expires_at = now s + hours 48, it_used_at = None, it_revoked_at = None\<rparr>"
  assume f: "filter (\<lambda>v. u_id v = uid) (users (db s)) = [u]"
    and who: "u_organization_id u = u_organization_id admin" "u_status u = USER_PENDING" "u_role admin = ADMIN"
    and mail: "outbox s' = outbox s @ [(u_email u, url @ ''/accept-invite?token='' @ raw)]"
    and d: "db s' = invite_tokens_update (\<lambda>rs. update_where ?P ?g rs @ [?new]) (db s)" and ok: "db_ok (db s')"
  from f have "u \<in> set (filter (\<lambda>v. u_id v = uid) (users (db s)))" by simp
  then have u: "u \<in> set (users (db s))" "u_id u = uid" by simp_all
  have none: "filter (\<lambda>r. outstanding r \<and> it_user_id r = uid) (update_where ?P ?g rs) = []" for rs
    using u(2) by (induction rs) (auto simp: update_where_def outstanding_def)
  have one: "filter (\<lambda>r. outstanding r \<and> it_user_id r = uid) (invite_tokens (db s')) = [?new]"
    using none [of "invite_tokens (db s)"] u(2) by (simp add: d outstanding_def)
  have "accept_invite L raw' pw t = (Inl (Raised InviteAcceptError), t)"
    if old: "old \<in> set (invite_tokens (db s))" "it_user_id old = uid" "it_token_hash old = sha256_hash L raw'"
      and t: "db t = db s'" for old raw' pw t
  proof (rule accept_invite_refuses)
    show ok': "db_ok (db t)" using ok t by simp
    fix tok v assume tok: "tok \<in> set (invite_tokens (db t))"
    let ?old = "if ?P old then ?g old else old"
    have mem: "?old \<in> set (invite_tokens (db t))" using old(1) by (auto simp: t d set_update_where)
    have "?old = tok" if "it_token_hash tok = sha256_hash L raw'"
      using invite_lookup [OF ok' mem, of L raw'] invite_lookup [OF ok' tok that] old(3) by (auto split: if_splits)
    with old(2) u(2) show "\<not> invite_valid L raw' (now t) tok v"
      by (auto simp: invite_valid_def outstanding_def split: if_splits)
  qed
  with u who mail one show ?thesis by (auto intro!: exI [of _ raw] exI [of _ ?new])
qed

theorem reissue_invite_effect_witness:
  "\<exists>u s'. reissue_invite plain_libs ''https://app'' (mk_user 11 10 ''admin@acme.test'' ADMIN) 16 invite_world = (Inr u, s') \<and>
     accept_invite plain_libs ''welcome'' ''a new password'' s' = (Inl (Raised InviteAcceptError), s')"
proof -
  let ?run = "reissue_invite plain_libs ''https://app'' (mk_user 11 10 ''admin@acme.test'' ADMIN) 16 invite_world"
  have "\<not> isl (fst ?run)" by code_simp
  then obtain u s' where run: "?run = (Inr u, s')" by (cases ?run; cases "fst ?run") auto
  have "hd (invite_tokens (db invite_world)) \<in> set (invite_tokens (db invite_world)) \<and>
      it_user_id (hd (invite_tokens (db invite_world))) = 16 \<and>
      it_token_hash (hd (invite_tokens (db invite_world))) = sha256_hash plain_libs ''welcome''" by code_simp
  with reissue_invite_effect [OF run] run show ?thesis by blast
qed

section \<open>Disabling a user\<close>

text \<open>An invited user who never accepted cannot be disabled. The row has no password hash, which
  the schema only allows for pending users, so the request fails with an integrity error at commit
  and the user stays pending.\<close>

theorem pending_user_cannot_be_disabled:
  assumes "committed s = db s" "db_ok (db s)" "u \<in> set (users (db s))" "u_organization_id u = Some (organization_id sc)"
    and "u_password_hash u = None"
  shows "\<exists>s'. get_session (disable_user sc (u_id u)) s = (Inl (Raised IntegrityError), s') \<and> db s' = db s"
proof -
  let ?v = "u\<lparr>u_status := USER_DISABLED\<rparr>"
  have "get_or_404 UserRepository sc (Some (u_id u)) s = (Inr u, s)"
    using assms(2-4) get_or_404_visible [of UserRepository s u sc] by (simp add: UserRepository_def db_ok_def users_ok_def)
  then have run: "disable_user sc (u_id u) s =
      (Inr ?v, s\<lparr>db := users_update (update_where (\<lambda>r. u_id r = u_id u) (\<lambda>_. ?v)) (db s)\<rparr>)"
    by (simp add: disable_user_def update_row_def bind_Inr write_row_def andthen_def UserRepository_def Let_def run_simps)
  have "\<not> user_row_ok ?v" using assms(5) by (simp add: user_row_ok_def)
  moreover have "?v \<in> set (update_where (\<lambda>r. u_id r = u_id u) (\<lambda>_. ?v) (users (db s)))"
    using assms(3) by (auto simp: set_update_where)
  ultimately have "\<not> db_ok (users_update (update_where (\<lambda>r. u_id r = u_id u) (\<lambda>_. ?v)) (db s))"
    by (auto simp: db_ok_def users_ok_def list_all_iff)
  with run assms(1) show ?thesis
    by (simp add: get_session_def try_except_def bind_def andthen_def commit_run raise_run ret_run rollback_run)
qed

theorem pending_user_cannot_be_disabled_witness:
  "\<exists>s'. get_session (disable_user (demo_scope 11 ADMIN) 16) invite_world = (Inl (Raised IntegrityError), s') \<and>
     db s' = db invite_world"
proof -
  let ?u = "(mk_user 16 10 ''new@acme.test'' AGENT)\<lparr>u_status := USER_PENDING, u_password_hash := None\<rparr>"
  have "db_ok (db invite_world)" by code_simp
  moreover have "?u \<in> set (users (db invite_world))" by (simp add: invite_world_def invite_db_def)
  ultimately show ?thesis
    using pending_user_cannot_be_disabled [of invite_world ?u "demo_scope 11 ADMIN"]
    by (simp add: invite_world_def mk_user_def)
qed

end
