(* ===== verification/Messages.thy ===== *)
theory Messages
  imports Tickets
begin

text \<open>
  \<open>src/app/services/message_service.py\<close>: the thread of a ticket. The flag
  \<open>outbound_email_required\<close> that \<open>create_message\<close> stashes on the returned object is the second
  component of its result.
\<close>

definition list_messages :: "OrgScope \<Rightarrow> uuid \<Rightarrow> message list service" where
  "list_messages sc tid = bind (get_or_404 TicketRepository sc (Some tid)) (\<lambda>_.
     query (\<lambda>d. sort_key (\<lambda>m. (m_created_at m, m_id m))
       (filter (\<lambda>m. m_ticket_id m = tid \<and> (is_staff sc \<or> \<not> m_is_ai_suggestion m)) (messages d))))"

definition validate_suggestion_reference :: "uuid \<Rightarrow> uuid \<Rightarrow> uuid \<Rightarrow> unit service" where
  "validate_suggestion_reference tid based_on new_id =
    andthen (throw_if (based_on = new_id) InvalidSuggestionReferenceError)
    (bind (one_or_none (\<lambda>d. filter (\<lambda>m. m_id m = based_on) (messages d))) (\<lambda>referenced.
     throw_if (case referenced of None \<Rightarrow> True
                | Some m \<Rightarrow> m_ticket_id m \<noteq> tid \<or> \<not> m_is_ai_suggestion m) InvalidSuggestionReferenceError))"

definition create_message :: "OrgScope \<Rightarrow> uuid \<Rightarrow> string \<Rightarrow> uuid option \<Rightarrow> (message \<times> bool) service" where
  "create_message sc tid content based_on =
    bind (get_or_404 TicketRepository sc (Some tid)) (\<lambda>ticket.
    let author = (if is_staff sc then AUTHOR_AGENT else AUTHOR_USER) in
    bind uuid4 (\<lambda>new_id.
    andthen (case based_on of None \<Rightarrow> ret () | Some b \<Rightarrow> validate_suggestion_reference tid b new_id)
    (bind (reads now) (\<lambda>ts.
    let m = \<lparr>m_id = new_id, m_created_at = ts, m_ticket_id = tid, m_author_type = author,
             m_content = content, m_is_ai_suggestion = False, m_based_on_suggestion_id = based_on\<rparr>
    in andthen (insert_row MessageRepository m)
       (andthen flush (ret (m, t_channel ticket = EMAIL \<and> author = AUTHOR_AGENT)))))))"

section \<open>Lookups of a ticket\<close>

lemma ticket_lookup:
  assumes "db_ok (db s)" "t \<in> set (tickets (db s))"
  shows "get_or_404 TicketRepository sc (Some (t_id t)) s =
    (if ticket_visible sc (db s) t then (Inr t, s) else (Inl (Raised (NotFoundError ''Ticket'' (Some (t_id t)))), s))"
proof (cases "ticket_visible sc (db s) t")
  case True
  with get_or_404_visible [of TicketRepository s t sc] assms db_ok_distinct(5) show ?thesis by simp
next
  case False
  then have "filter (\<lambda>r. Some (t_id t) = Some (pk TicketRepository r)) (select_rows TicketRepository sc (db s)) = []"
    using assms db_ok_distinct(5) [OF assms(1)]
    by (auto simp: filter_empty_conv select_rows_def dest: distinct_map_eq)
  from get_or_404_not_found [OF this] False show ?thesis by simp
qed

lemma db_ok_insert_message:
  assumes "db_ok d" "message_row_ok m" "m_id m \<notin> m_id ` set (messages d)" "m_ticket_id m \<in> set (ticket_pks d)"
    "\<forall>k. m_based_on_suggestion_id m = Some k \<longrightarrow> k \<in> m_id ` set (messages d)"
  shows "db_ok (messages_update (\<lambda>rs. rs @ [m]) d)"
proof -
  have "messages_ok (messages_update (\<lambda>rs. rs @ [m]) d)"
    using assms by (simp add: db_ok_def messages_ok_def split: option.splits)
  with assms(1) show ?thesis by (simp add: db_ok_def table_ok_defs)
qed

text \<open>C38: reading a thread. A caller who cannot see the ticket gets the 404 of a ticket that does not
  exist. A caller who can sees each message of the ticket once, in the order of creation (then
  of id); AI suggestions are in the list exactly for admins and agents.\<close>

theorem list_messages_thread:
  assumes "db_ok (db s)" "t \<in> set (tickets (db s))"
  shows "if ticket_visible sc (db s) t
    then \<exists>ms. list_messages sc (t_id t) s = (Inr ms, s) \<and> distinct (map m_id ms) \<and>
      set ms = {m \<in> set (messages (db s)). m_ticket_id m = t_id t \<and> (m_is_ai_suggestion m \<longrightarrow> is_staff sc)} \<and>
      sorted_wrt (\<lambda>m n. m_created_at m < m_created_at n \<or> m_created_at m = m_created_at n \<and> m_id m < m_id n) ms
    else list_messages sc (t_id t) s = (Inl (Raised (NotFoundError ''Ticket'' (Some (t_id t)))), s)"
proof (cases "ticket_visible sc (db s) t")
  case True
  let ?key = "\<lambda>m. (m_created_at m, m_id m)"
  define sel where "sel = filter (\<lambda>m. m_ticket_id m = t_id t \<and> (is_staff sc \<or> \<not> m_is_ai_suggestion m)) (messages (db s))"
  have run: "list_messages sc (t_id t) s = (Inr (sort_key ?key sel), s)"
    using True ticket_lookup [OF assms, of sc] by (simp add: list_messages_def bind_Inr query_def reads_run sel_def)
  have dist: "distinct (map m_id sel)"
    using assms(1) by (simp add: sel_def db_ok_def messages_ok_def distinct_map_filter)
  then have d: "distinct (map m_id (sort_key ?key sel))"
    by (simp add: distinct_map)
  have "sorted_wrt (\<lambda>m n. ?key m \<le> ?key n \<and> m_id m \<noteq> m_id n) (sort_key ?key sel)"
    using sorted_sort_key [of ?key sel] d by (simp add: sorted_map sorted_wrt_iff_nth_less distinct_conv_nth)
  then have "sorted_wrt (\<lambda>m n. m_created_at m < m_created_at n \<or> m_created_at m = m_created_at n \<and> m_id m < m_id n)
      (sort_key ?key sel)"
    by (rule sorted_wrt_mono_rel [rotated]) auto
  moreover have "set (sort_key ?key sel) =
      {m \<in> set (messages (db s)). m_ticket_id m = t_id t \<and> (m_is_ai_suggestion m \<longrightarrow> is_staff sc)}"
    by (auto simp: sel_def)
  ultimately show ?thesis using True run d by auto
next
  case False
  with ticket_lookup [OF assms, of sc] show ?thesis by (simp add: list_messages_def bind_Inl)
qed

definition thread_db :: database where
  "thread_db = demo_db\<lparr>messages :=
     [\<lparr>m_id = 72, m_created_at = 7, m_ticket_id = 60, m_author_type = AUTHOR_USER, m_content = ''Still cold'',
        m_is_ai_suggestion = False, m_based_on_suggestion_id = None\<rparr>,
      \<lparr>m_id = 71, m_created_at = 5, m_ticket_id = 60, m_author_type = AUTHOR_AGENT, m_content = ''Reset the boiler'',
        m_is_ai_suggestion = True, m_based_on_suggestion_id = None\<rparr>]\<rparr>"

definition thread_world :: world where
  "thread_world = demo_world\<lparr>db := thread_db, committed := thread_db\<rparr>"

lemma distinct_singleton:
  assumes "distinct xs" "set xs = {x}"
  shows "xs = [x]"
proof (cases xs)
  case (Cons y ys)
  with assms have y: "y = x" and ys: "\<forall>z\<in>set ys. z = x" "x \<notin> set ys" by auto
  from ys have "ys = []" by (cases ys) auto
  with Cons y show ?thesis by simp
qed (use assms(2) in simp)

lemma thread_db_ok: "db_ok (db thread_world)"
  by code_simp

abbreviation thread_ticket :: ticket where
  "thread_ticket \<equiv> (mk_ticket 60 10 13)\<lparr>t_property_id := Some 30, t_contract_id := Some 31\<rparr>"

lemma thread_ticket_in: "thread_ticket \<in> set (tickets (db thread_world))"
  by (simp add: thread_world_def thread_db_def demo_db_def)

theorem list_messages_thread_witness:
  "\<exists>ms. list_messages (demo_scope 13 TENANT) 60 thread_world = (Inr ms, thread_world) \<and> map m_id ms = [72]"
proof -
  have vis: "ticket_visible (demo_scope 13 TENANT) (db thread_world) thread_ticket" by code_simp
  have id: "t_id thread_ticket = 60" by (simp add: mk_ticket_def)
  from list_messages_thread [OF thread_db_ok thread_ticket_in, of "demo_scope 13 TENANT", unfolded if_P [OF vis] id]
  obtain ms where run: "list_messages (demo_scope 13 TENANT) 60 thread_world = (Inr ms, thread_world)" and d: "distinct (map m_id ms)"
    and ms: "set ms = {m \<in> set (messages (db thread_world)). m_ticket_id m = 60 \<and> (m_is_ai_suggestion m \<longrightarrow> is_staff (demo_scope 13 TENANT))}"
    by blast
  have "set ms = set (filter (\<lambda>m. m_ticket_id m = 60 \<and> (m_is_ai_suggestion m \<longrightarrow> is_staff (demo_scope 13 TENANT)))
      (messages (db thread_world)))"
    unfolding ms set_filter ..
  also have "\<dots> = {hd (messages thread_db)}" by (simp add: thread_world_def thread_db_def staff_roles_def)
  finally have "set (map m_id ms) = {72}"
    unfolding set_map by (simp add: thread_db_def)
  with d have "map m_id ms = [72]" by (rule distinct_singleton)
  with run show ?thesis by (intro exI conjI)
qed

text \<open>C39: posting a message. It is posted exactly when the caller can see the ticket and the suggestion it
  refers to, if any, is an AI suggestion in the same ticket's thread; then one message is added,
  authored as agent by staff and as user by everyone else, never marked as a suggestion, and an
  outbound e-mail is required exactly for a staff reply in an e-mail ticket. An invisible ticket is
  a 404 and a bad reference a 422, and in both cases the database is untouched.\<close>

definition valid_suggestion :: "database \<Rightarrow> uuid \<Rightarrow> uuid option \<Rightarrow> bool" where
  "valid_suggestion d tid based_on \<longleftrightarrow> (\<forall>b. based_on = Some b \<longrightarrow>
     (\<exists>m\<in>set (messages d). m_id m = b \<and> m_ticket_id m = tid \<and> m_is_ai_suggestion m))"

lemma validate_suggestion_run:
  assumes "db_ok (db s)" "new_id \<notin> m_id ` set (messages (db s))"
  shows "(case based_on of None \<Rightarrow> ret () | Some b \<Rightarrow> validate_suggestion_reference tid b new_id) s =
    (if valid_suggestion (db s) tid based_on then (Inr (), s) else (Inl (Raised InvalidSuggestionReferenceError), s))"
proof (cases based_on)
  case (Some b)
  have dist: "distinct (map m_id (messages (db s)))" using assms(1) by (simp add: db_ok_def messages_ok_def)
  show ?thesis
  proof (cases "\<exists>m\<in>set (messages (db s)). m_id m = b")
    case True
    then obtain m where m: "m \<in> set (messages (db s))" "m_id m = b" by blast
    then have "filter (\<lambda>m. m_id m = b) (messages (db s)) = [m]"
      using distinct_map_inj_filter [OF dist m(1)] by simp
    moreover have "x = m" if "x \<in> set (messages (db s))" "m_id x = b" for x
      by (rule distinct_map_eq [OF dist that(1) m(1)]) (simp add: that(2) m(2))
    then have "valid_suggestion (db s) tid based_on \<longleftrightarrow> m_ticket_id m = tid \<and> m_is_ai_suggestion m"
      unfolding valid_suggestion_def Some option.inject using m by blast
    ultimately show ?thesis
      using Some m assms(2) by (auto simp: validate_suggestion_reference_def andthen_def bind_raise_if bind_one_or_none raise_if_run)
  next
    case False
    then have "filter (\<lambda>m. m_id m = b) (messages (db s)) = []" by (simp add: filter_empty_conv)
    with False Some show ?thesis
      by (auto simp: validate_suggestion_reference_def andthen_def bind_raise_if bind_one_or_none raise_if_run valid_suggestion_def raise_run)
  qed
qed (simp add: valid_suggestion_def ret_run)

theorem create_message_effect:
  assumes "db_ok (db s)" "t \<in> set (tickets (db s))" "uuids s = u # us" "u \<notin> m_id ` set (messages (db s))"
    and "not_blank content"
  shows "if \<not> ticket_visible sc (db s) t
      then create_message sc (t_id t) content based_on s = (Inl (Raised (NotFoundError ''Ticket'' (Some (t_id t)))), s)
    else if \<not> valid_suggestion (db s) (t_id t) based_on
      then create_message sc (t_id t) content based_on s = (Inl (Raised InvalidSuggestionReferenceError), s\<lparr>uuids := us\<rparr>)
    else \<exists>m s'. create_message sc (t_id t) content based_on s = (Inr (m, t_channel t = EMAIL \<and> is_staff sc), s') \<and>
      m_author_type m = (if is_staff sc then AUTHOR_AGENT else AUTHOR_USER) \<and> m_content m = content \<and>
      m_ticket_id m = t_id t \<and> m_based_on_suggestion_id m = based_on \<and> \<not> m_is_ai_suggestion m \<and> m_created_at m = now s \<and>
      s' = s\<lparr>uuids := us, db := messages_update (\<lambda>rs. rs @ [m]) (db s)\<rparr> \<and> db_ok (db s')"
proof -
  let ?new = "\<lparr>m_id = u, m_created_at = now s, m_ticket_id = t_id t, m_author_type = if is_staff sc then AUTHOR_AGENT else AUTHOR_USER,
             m_content = content, m_is_ai_suggestion = False, m_based_on_suggestion_id = based_on\<rparr>"
  have ref: "(case based_on of None \<Rightarrow> ret () | Some b \<Rightarrow> validate_suggestion_reference (t_id t) b u) (s\<lparr>uuids := us\<rparr>) =
    (if valid_suggestion (db s) (t_id t) based_on then (Inr (), s\<lparr>uuids := us\<rparr>)
     else (Inl (Raised InvalidSuggestionReferenceError), s\<lparr>uuids := us\<rparr>))"
    using validate_suggestion_run [of "s\<lparr>uuids := us\<rparr>" u] assms by simp
  have ok: "db_ok (messages_update (\<lambda>rs. rs @ [?new]) (db s))" if "valid_suggestion (db s) (t_id t) based_on"
  proof (rule db_ok_insert_message [OF assms(1)])
    show "\<forall>k. m_based_on_suggestion_id ?new = Some k \<longrightarrow> k \<in> m_id ` set (messages (db s))"
      using that by (auto simp: valid_suggestion_def)
    then show "message_row_ok ?new" using assms(4,5) by (auto simp: message_row_ok_def)
  qed (use assms in auto)
  note draw = uuid4_def assms(3)
  show ?thesis
  proof (cases "ticket_visible sc (db s) t \<and> valid_suggestion (db s) (t_id t) based_on")
    case True
    with ok have "create_message sc (t_id t) content based_on s =
        (Inr (?new, t_channel t = EMAIL \<and> is_staff sc), s\<lparr>uuids := us, db := messages_update (\<lambda>rs. rs @ [?new]) (db s)\<rparr>)"
      using ticket_lookup [OF assms(1,2), of sc] ref
      by (simp add: create_message_def Let_def andthen_def bind_Inr draw bind_reads insert_row_def update_db_def
          modify_run ret_run flush_def MessageRepository_def)
    with True ok show ?thesis by auto
  next
    case False
    then show ?thesis
      using ticket_lookup [OF assms(1,2), of sc] ref
      by (auto simp: create_message_def Let_def andthen_def bind_Inr bind_Inl draw)
  qed
qed

theorem create_message_effect_witness:
  "\<exists>m s'. create_message (demo_scope 12 AGENT) 60 ''Please reset the boiler'' (Some 71) thread_world = (Inr (m, False), s') \<and>
     m_author_type m = AUTHOR_AGENT \<and> db_ok (db s')"
proof -
  have vis: "\<not> \<not> ticket_visible (demo_scope 12 AGENT) (db thread_world) thread_ticket" by code_simp
  have id: "t_id thread_ticket = 60" "t_channel thread_ticket = WEB" by (simp_all add: mk_ticket_def)
  have ref: "\<not> \<not> valid_suggestion (db thread_world) 60 (Some 71)"
    by (simp add: valid_suggestion_def thread_world_def thread_db_def)
  have draw: "uuids thread_world = 100 # [101, 102, 103, 104, 105]" "100 \<notin> m_id ` set (messages (db thread_world))"
    by (simp_all add: thread_world_def demo_world_def thread_db_def)
  have "not_blank ''Please reset the boiler''" by code_simp
  from create_message_effect [OF thread_db_ok thread_ticket_in draw this, of "demo_scope 12 AGENT" "Some 71",
      unfolded id if_not_P [OF vis] if_not_P [OF ref]]
  show ?thesis by (auto simp: staff_roles_def)
qed

end
