(* ===== verification/Classification.thy ===== *)
theory Classification
  imports Security Tickets
begin

text \<open>
  \<open>src/app/services/classifier.py\<close>, \<open>src/app/services/llm_fallback.py\<close> and
  \<open>src/app/workers/classification.py\<close>: the classification of a ticket into the organization's
  taxonomy, by the trained models when they are trusted and by the LLM otherwise, and the worker
  that stores the result.

  The embedding provider, the trained models and the OpenAI client are not part of the source: the
  record \<open>models\<close> holds what they answer; loading an artefact or predicting with it may raise. \<open>complete\<close> is the chat completion call with the prompt
  built from its arguments: it fails transiently, fails otherwise, or answers the parsed JSON of the
  message (\<open>None\<close> when there is no message or it is not JSON). \<open>float_text\<close> is \<open>float(str)\<close>.
\<close>

record TaxonomyOption =
  opt_id :: uuid
  opt_name :: string
  opt_description :: "string option"

record ClassificationResult =
  res_category_id :: uuid
  res_urgency_id :: uuid
  res_predicted_category :: string
  res_predicted_urgency :: string
  res_confidence :: real
  res_urgency_confidence :: real
  res_model_used :: string

datatype llm_reply = TransientFailure | OtherFailure | Message "json option"

record models =
  embed :: "string \<Rightarrow> error + real list"
  predict_category :: "real list \<Rightarrow> error + string \<times> real"
  predict_urgency :: "real list \<Rightarrow> error + string \<times> real"
  confidence_threshold :: real
  api_key_configured :: bool
  complete :: "string \<Rightarrow> TaxonomyOption list \<Rightarrow> TaxonomyOption list \<Rightarrow> llm_reply"
  float_text :: "string \<Rightarrow> real option"

section \<open>llm_fallback\<close>

definition find_by_id :: "TaxonomyOption list \<Rightarrow> uuid \<Rightarrow> TaxonomyOption option" where
  "find_by_id options i = find (\<lambda>x. opt_id x = i) options"

definition require_membership :: "uuid \<Rightarrow> uuid \<Rightarrow> TaxonomyOption list \<Rightarrow> TaxonomyOption list \<Rightarrow>
    error + TaxonomyOption \<times> TaxonomyOption" where
  "require_membership category_id urgency_id cats urgs =
    (case (find_by_id cats category_id, find_by_id urgs urgency_id) of
       (Some c, Some u) \<Rightarrow> Inr (c, u)
     | _ \<Rightarrow> Inl ClassificationUnavailableError)"

fun float_of_json :: "models \<Rightarrow> json option \<Rightarrow> real option" where
  "float_of_json M (Some (JInt n)) = Some (of_int n)"
| "float_of_json M (Some (JFloat x)) = Some x"
| "float_of_json M (Some (JBool b)) = Some (if b then 1 else 0)"
| "float_of_json M (Some (JStr t)) = float_text M t"
| "float_of_json M _ = None"

definition parse_reply :: "models \<Rightarrow> json option \<Rightarrow> (uuid \<times> uuid \<times> real \<times> real) option" where
  "parse_reply M payload = (case payload of
      Some (JObj fs) \<Rightarrow>
        (case (uuid_of_json (map_of fs ''category_id''), uuid_of_json (map_of fs ''urgency_id''),
               float_of_json M (map_of fs ''confidence''), float_of_json M (map_of fs ''urgency_confidence'')) of
           (Inr c, Inr u, Some x, Some y) \<Rightarrow> Some (c, u, x, y)
         | _ \<Rightarrow> None)
    | _ \<Rightarrow> None)"

definition classify_with_llm :: "models \<Rightarrow> string \<Rightarrow> TaxonomyOption list \<Rightarrow> TaxonomyOption list \<Rightarrow>
    error + ClassificationResult" where
  "classify_with_llm M txt cats urgs =
    (if \<not> api_key_configured M then Inl ClassificationUnavailableError
     else case complete M txt cats urgs of
        TransientFailure \<Rightarrow> Inl ClassificationTransientError
      | OtherFailure \<Rightarrow> Inl ClassificationUnavailableError
      | Message payload \<Rightarrow>
         (case parse_reply M payload of
            None \<Rightarrow> Inl ClassificationUnavailableError
          | Some (category_id, urgency_id, confidence, urgency_confidence) \<Rightarrow>
             (case require_membership category_id urgency_id cats urgs of
                Inl e \<Rightarrow> Inl e
              | Inr (c, u) \<Rightarrow> Inr \<lparr>res_category_id = opt_id c, res_urgency_id = opt_id u,
                  res_predicted_category = opt_name c, res_predicted_urgency = opt_name u,
                  res_confidence = confidence, res_urgency_confidence = urgency_confidence,
                  res_model_used = ''llm_fallback''\<rparr>)))"

section \<open>classifier\<close>

definition find_by_name :: "TaxonomyOption list \<Rightarrow> string \<Rightarrow> TaxonomyOption option" where
  "find_by_name options name = find (\<lambda>x. py_lower (opt_name x) = py_lower name) options"

definition classify :: "models \<Rightarrow> string \<Rightarrow> TaxonomyOption list \<Rightarrow> TaxonomyOption list \<Rightarrow>
    error + ClassificationResult" where
  "classify M txt cats urgs =
    (case embed M txt of Inl e \<Rightarrow> Inl e | Inr embedding \<Rightarrow>
      case predict_category M embedding of Inl e \<Rightarrow> Inl e | Inr (category_name, category_confidence) \<Rightarrow>
      case predict_urgency M embedding of Inl e \<Rightarrow> Inl e | Inr (urgency_name, urgency_confidence) \<Rightarrow>
      case (find_by_name cats category_name, find_by_name urgs urgency_name) of
           (Some c, Some u) \<Rightarrow>
             if category_confidence \<ge> confidence_threshold M
             then Inr \<lparr>res_category_id = opt_id c, res_urgency_id = opt_id u,
                    res_predicted_category = opt_name c, res_predicted_urgency = opt_name u,
                    res_confidence = category_confidence, res_urgency_confidence = urgency_confidence,
                    res_model_used = ''sklearn_v1''\<rparr>
             else classify_with_llm M txt cats urgs
         | _ \<Rightarrow> classify_with_llm M txt cats urgs)"

section \<open>The worker\<close>

definition category_option :: "category \<Rightarrow> TaxonomyOption" where
  "category_option row = \<lparr>opt_id = cat_id row, opt_name = cat_name row, opt_description = cat_description row\<rparr>"

definition urgency_option :: "urgency_level \<Rightarrow> TaxonomyOption" where
  "urgency_option row = \<lparr>opt_id = ul_id row, opt_name = ul_name row, opt_description = ul_description row\<rparr>"

definition ticket_text :: "ticket \<Rightarrow> string" where
  "ticket_text t = (case t_description t of Some (c # cs) \<Rightarrow> c # cs | _ \<Rightarrow> t_title t)"

definition store_classification :: "uuid \<Rightarrow> ClassificationResult \<Rightarrow> int \<Rightarrow> unit service" where
  "store_classification tid result due =
    andthen (write_row TicketRepository tid (\<lambda>t. t\<lparr>t_category_id := Some (res_category_id result),
        t_urgency_id := Some (res_urgency_id result), t_classification_status := CLASSIFIED, t_sla_due_at := Some due\<rparr>))
    (andthen (classification_upsert tid (Some (res_predicted_category result)) (Some (res_confidence result))
        (Some (res_predicted_urgency result)) (Some (res_urgency_confidence result)) (Some (res_model_used result)))
     commit)"

definition classify_body :: "models \<Rightarrow> (string \<Rightarrow> zone option) \<Rightarrow> nat \<Rightarrow> uuid \<Rightarrow> uuid \<Rightarrow> unit service" where
  "classify_body M zones job_try tid org =
    (let sc = for_background_worker org in
     bind (get_or_404 TicketRepository sc (Some tid)) (\<lambda>ticket.
     if t_classification_status ticket \<noteq> PENDING then ret ()
     else bind (query (category_list sc (Some True))) (\<lambda>category_rows.
       bind (query (urgency_list sc (Some True))) (\<lambda>urgency_rows.
       case classify M (ticket_text ticket) (map category_option category_rows) (map urgency_option urgency_rows) of
         Inl e \<Rightarrow>
           if e = ClassificationTransientError then throw (Retry (2 ^ job_try))
           else if e = ClassificationUnavailableError then ret () else throw e
       | Inr result \<Rightarrow>
          (case find (\<lambda>row. ul_id row = res_urgency_id result) urgency_rows of
             None \<Rightarrow> throw StopIteration
           | Some urgency_row \<Rightarrow>
               bind (resolve_sla_due_at zones org urgency_row (t_created_at ticket)) (\<lambda>due.
               store_classification tid result due))))))"

definition classify_ticket :: "models \<Rightarrow> (string \<Rightarrow> zone option) \<Rightarrow> nat \<Rightarrow> uuid \<Rightarrow> uuid \<Rightarrow> unit service" where
  "classify_ticket M zones job_try tid org = with_session (classify_body M zones job_try tid org)"

definition SWEEP_STALE_AFTER :: int where "SWEEP_STALE_AFTER = minutes 5"

definition enqueue_job :: "job \<Rightarrow> unit service" where
  "enqueue_job j = modify (\<lambda>s. s\<lparr>jobs := jobs s @ [j]\<rparr>)"

definition sweep_pending_classifications :: "unit service" where
  "sweep_pending_classifications = bind (reads now) (\<lambda>ts. with_session
     (bind (query (\<lambda>d. filter (\<lambda>t. t_classification_status t = PENDING \<and> t_created_at t < ts - SWEEP_STALE_AFTER) (tickets d)))
       (\<lambda>stale. for_each stale (\<lambda>t. enqueue_job (ClassifyTicket (t_id t) (t_organization_id t))))))"

definition enqueue_classification :: "uuid \<Rightarrow> uuid \<Rightarrow> unit service" where
  "enqueue_classification tid org = enqueue_job (ClassifyTicket tid org)"

section \<open>What classify can answer\<close>

text \<open>The result points into the offered taxonomy, whatever the models and the LLM answered.\<close>

definition result_offered :: "TaxonomyOption list \<Rightarrow> TaxonomyOption list \<Rightarrow> ClassificationResult \<Rightarrow> bool" where
  "result_offered cats urgs r \<longleftrightarrow>
     (\<exists>c\<in>set cats. res_category_id r = opt_id c \<and> res_predicted_category r = opt_name c) \<and>
     (\<exists>u\<in>set urgs. res_urgency_id r = opt_id u \<and> res_predicted_urgency r = opt_name u) \<and>
     res_model_used r \<in> {''sklearn_v1'', ''llm_fallback''}"

lemma find_in_set: "find P xs = Some x \<Longrightarrow> x \<in> set xs \<and> P x"
  by (auto simp: find_Some_iff)

lemma classify_with_llm_offered:
  "classify_with_llm M txt cats urgs = Inr r \<Longrightarrow> result_offered cats urgs r"
  by (auto simp: classify_with_llm_def require_membership_def find_by_id_def result_offered_def
      dest!: find_in_set split: if_splits llm_reply.splits option.splits sum.splits) blast+

lemma classify_offered: "classify M txt cats urgs = Inr r \<Longrightarrow> result_offered cats urgs r"
  unfolding classify_def
  by (auto simp: find_by_name_def Let_def result_offered_def [of cats urgs "\<lparr>res_category_id = i, res_urgency_id = j,
        res_predicted_category = a, res_predicted_urgency = b, res_confidence = x, res_urgency_confidence = y,
        res_model_used = m\<rparr>" for i j a b x y m]
      dest!: find_in_set dest: classify_with_llm_offered
      split: prod.splits sum.splits option.splits if_splits)

text \<open>C32: no hallucinated taxonomy. Whatever the trained models predict and whatever the LLM returns,
  a classification that comes back names a category and an urgency level among the active rows it
  was offered, by id and by name. The models' own prediction is used exactly when both models answer, both names match
  an offered row (up to case) and the category confidence reaches the threshold.\<close>

theorem classify_stays_in_taxonomy:
  assumes "classify M txt cats urgs = Inr r"
  shows "(\<exists>c\<in>set cats. res_category_id r = opt_id c \<and> res_predicted_category r = opt_name c) \<and>
    (\<exists>u\<in>set urgs. res_urgency_id r = opt_id u \<and> res_predicted_urgency r = opt_name u) \<and>
    (res_model_used r = ''sklearn_v1'' \<longleftrightarrow>
      (\<exists>e category_name category_confidence urgency_name urgency_confidence. embed M txt = Inr e \<and>
        predict_category M e = Inr (category_name, category_confidence) \<and> predict_urgency M e = Inr (urgency_name, urgency_confidence) \<and>
        confidence_threshold M \<le> category_confidence \<and>
        (\<exists>c\<in>set cats. py_lower (opt_name c) = py_lower category_name) \<and>
        (\<exists>u\<in>set urgs. py_lower (opt_name u) = py_lower urgency_name)))"
proof -
  have llm: "res_model_used q = ''llm_fallback''" if "classify_with_llm M txt cats urgs = Inr q" for q
    using that by (auto simp: classify_with_llm_def split: if_splits llm_reply.splits option.splits sum.splits)
  obtain e cn cc un uc where e: "embed M txt = Inr e" "predict_category M e = Inr (cn, cc)" "predict_urgency M e = Inr (un, uc)"
    using assms by (auto simp: classify_def split: sum.splits prod.splits)
  have "res_model_used r = ''sklearn_v1'' \<longleftrightarrow> confidence_threshold M \<le> cc \<and>
      find_by_name cats cn \<noteq> None \<and> find_by_name urgs un \<noteq> None"
    using assms by (auto simp: classify_def e split: option.splits if_splits dest!: llm)
  with classify_offered [OF assms] show ?thesis
    by (auto simp: e result_offered_def find_by_name_def find_None_iff)
qed

definition toy_models :: models where
  "toy_models = \<lparr>embed = (\<lambda>t. Inr [1]), predict_category = (\<lambda>_. Inr (''billing'', 9 / 10)),
     predict_urgency = (\<lambda>_. Inr (''medium'', 1 / 2)), confidence_threshold = 3 / 5, api_key_configured = True,
     complete = (\<lambda>_ _ _. TransientFailure), float_text = (\<lambda>_. None)\<rparr>"

theorem classify_stays_in_taxonomy_witness:
  "\<exists>r. classify toy_models ''pipe'' [\<lparr>opt_id = 40, opt_name = ''Billing'', opt_description = None\<rparr>]
      [\<lparr>opt_id = 51, opt_name = ''Medium'', opt_description = None\<rparr>] = Inr r \<and>
    res_category_id r = 40 \<and> res_model_used r = ''sklearn_v1''"
proof -
  let ?cats = "[\<lparr>opt_id = 40, opt_name = ''Billing'', opt_description = None\<rparr>]"
  let ?urgs = "[\<lparr>opt_id = 51, opt_name = ''Medium'', opt_description = None\<rparr>]"
  have low: "py_lower ''Billing'' = py_lower ''billing''" "py_lower ''Medium'' = py_lower ''medium''" by code_simp+
  have "\<exists>r. classify toy_models ''pipe'' ?cats ?urgs = Inr r"
    by (simp add: classify_def toy_models_def find_by_name_def low)
  then obtain r where run: "classify toy_models ''pipe'' ?cats ?urgs = Inr r" by blast
  have trusted: "\<exists>e category_name category_confidence urgency_name urgency_confidence. embed toy_models ''pipe'' = Inr e \<and>
      predict_category toy_models e = Inr (category_name, category_confidence) \<and>
      predict_urgency toy_models e = Inr (urgency_name, urgency_confidence) \<and> confidence_threshold toy_models \<le> category_confidence \<and>
      (\<exists>c\<in>set ?cats. py_lower (opt_name c) = py_lower category_name) \<and> (\<exists>u\<in>set ?urgs. py_lower (opt_name u) = py_lower urgency_name)"
    by (rule exI [of _ "[1]"], rule exI [of _ "''billing''"], rule exI [of _ "9 / 10"], rule exI [of _ "''medium''"], rule exI [of _ "1 / 2"])
      (simp add: toy_models_def low)
  note result = classify_stays_in_taxonomy [OF run]
  from result [THEN conjunct2, THEN conjunct2, THEN iffD2, OF trusted] result [THEN conjunct1] run show ?thesis by auto
qed

section \<open>The worker stores what classify answered\<close>

definition classified_ticket :: "ClassificationResult \<Rightarrow> int \<Rightarrow> ticket \<Rightarrow> ticket" where
  "classified_ticket r due t = t\<lparr>t_category_id := Some (res_category_id r), t_urgency_id := Some (res_urgency_id r),
     t_classification_status := CLASSIFIED, t_sla_due_at := Some due\<rparr>"

definition only_classified :: "database \<Rightarrow> database \<Rightarrow> bool" where
  "only_classified d d' \<longleftrightarrow>
     d' = d\<lparr>tickets := tickets d', classifications := classifications d'\<rparr>"

definition offered_categories :: "uuid \<Rightarrow> database \<Rightarrow> TaxonomyOption list" where
  "offered_categories org d = map category_option (category_list (for_background_worker org) (Some True) d)"

definition offered_urgencies :: "uuid \<Rightarrow> database \<Rightarrow> TaxonomyOption list" where
  "offered_urgencies org d = map urgency_option (urgency_list (for_background_worker org) (Some True) d)"

definition upserted :: "uuid \<Rightarrow> ClassificationResult \<Rightarrow> uuid \<Rightarrow> int \<Rightarrow> classification list \<Rightarrow> classification list" where
  "upserted tid r u ts rs =
    (if list_ex (\<lambda>c. cl_ticket_id c = tid) rs
     then update_where (\<lambda>c. cl_ticket_id c = tid)
       (\<lambda>c. c\<lparr>cl_predicted_category := Some (res_predicted_category r), cl_confidence := Some (res_confidence r),
              cl_predicted_urgency := Some (res_predicted_urgency r), cl_urgency_confidence := Some (res_urgency_confidence r),
              cl_model_used := Some (res_model_used r)\<rparr>) rs
     else rs @ [\<lparr>cl_id = u, cl_created_at = ts, cl_ticket_id = tid, cl_predicted_category = Some (res_predicted_category r),
                 cl_confidence = Some (res_confidence r), cl_human_corrected = False, cl_model_used = Some (res_model_used r),
                 cl_predicted_urgency = Some (res_predicted_urgency r), cl_urgency_confidence = Some (res_urgency_confidence r)\<rparr>])"

lemma store_classification_run:
  assumes "uuids s = u # us"
    and "d = classifications_update (upserted tid r u (now s))
      (tickets_update (update_where (\<lambda>t. t_id t = tid) (classified_ticket r due)) (db s))"
  shows "store_classification tid r due s =
    (if db_ok d then (Inr (), s\<lparr>uuids := us, db := d, committed := d\<rparr>)
     else (Inl (Raised IntegrityError), s\<lparr>uuids := us, db := d\<rparr>))"
  using assms
  by (simp add: store_classification_def write_row_def classification_upsert_def andthen_def run_simps
      upserted_def [abs_def] classified_ticket_def [abs_def] cong: if_cong)

lemma upserted_row:
  "\<exists>c\<in>set (upserted tid r u ts rs). cl_ticket_id c = tid \<and> cl_predicted_category c = Some (res_predicted_category r) \<and>
     cl_predicted_urgency c = Some (res_predicted_urgency r) \<and> cl_model_used c = Some (res_model_used r) \<and>
     cl_confidence c = Some (res_confidence r)"
proof (cases "list_ex (\<lambda>c. cl_ticket_id c = tid) rs")
  case True
  then obtain c where c: "c \<in> set rs" "cl_ticket_id c = tid" by (auto simp: list_ex_iff)
  let ?g = "\<lambda>c. c\<lparr>cl_predicted_category := Some (res_predicted_category r), cl_confidence := Some (res_confidence r),
    cl_predicted_urgency := Some (res_predicted_urgency r), cl_urgency_confidence := Some (res_urgency_confidence r),
    cl_model_used := Some (res_model_used r)\<rparr>"
  have "?g c \<in> set (upserted tid r u ts rs)"
    using True c by (auto simp: upserted_def set_update_where)
  with c(2) show ?thesis by (intro bexI [of _ "?g c"]) simp_all
qed (simp add: upserted_def)

lemma only_classified_update: "only_classified d (classifications_update f (tickets_update g d))"
  by (cases d) (simp add: only_classified_def)

lemma store_classification_Inr:
  assumes "store_classification tid r due s = (Inr x, s')"
  shows "db_ok (db s') \<and> committed s' = db s' \<and> only_classified (db s) (db s') \<and>
    tickets (db s') = update_where (\<lambda>t. t_id t = tid) (classified_ticket r due) (tickets (db s)) \<and>
    (\<exists>c\<in>set (classifications (db s')). cl_ticket_id c = tid \<and> cl_predicted_category c = Some (res_predicted_category r) \<and>
       cl_predicted_urgency c = Some (res_predicted_urgency r) \<and> cl_model_used c = Some (res_model_used r))"
proof (cases "uuids s")
  case Nil
  with assms show ?thesis
    by (simp add: store_classification_def write_row_def classification_upsert_def andthen_def run_simps)
next
  case (Cons u us)
  let ?d = "classifications_update (upserted tid r u (now s))
      (tickets_update (update_where (\<lambda>t. t_id t = tid) (classified_ticket r due)) (db s))"
  from store_classification_run [OF Cons refl, of tid r due] assms
  have "db_ok ?d" "s' = s\<lparr>uuids := us, db := ?d, committed := ?d\<rparr>" by (auto split: if_splits)
  then show ?thesis using only_classified_update upserted_row [of tid r u "now s" "classifications (db s)"] by auto
qed

lemma worker_sees_ticket:
  assumes "distinct (map t_id (tickets (db s)))" "t \<in> set (tickets (db s))" "t_organization_id t = org"
  shows "get_or_404 TicketRepository (for_background_worker org) (Some (t_id t)) s = (Inr t, s)"
  using get_or_404_visible [of TicketRepository s t "for_background_worker org"] assms
  by (simp add: ticket_visible_def for_background_worker_def)

lemma classify_body_run:
  assumes "distinct (map t_id (tickets (db s)))" "t \<in> set (tickets (db s))" "t_organization_id t = org"
  shows "classify_body M zones n (t_id t) org s =
    (if t_classification_status t \<noteq> PENDING then (Inr (), s)
     else case classify M (ticket_text t) (offered_categories org (db s)) (offered_urgencies org (db s)) of
       Inl e \<Rightarrow> if e = ClassificationTransientError then (Inl (Raised (Retry (2 ^ n))), s)
                else if e = ClassificationUnavailableError then (Inr (), s) else (Inl (Raised e), s)
     | Inr r \<Rightarrow>
        (case find (\<lambda>row. ul_id row = res_urgency_id r) (urgency_list (for_background_worker org) (Some True) (db s)) of
           None \<Rightarrow> (Inl (Raised StopIteration), s)
         | Some u \<Rightarrow> bind (resolve_sla_due_at zones org u (t_created_at t)) (\<lambda>due. store_classification (t_id t) r due) s))"
  using worker_sees_ticket [OF assms]
  by (simp add: classify_body_def Let_def bind_Inr bind_query ret_run raise_run offered_categories_def
      offered_urgencies_def split: sum.splits option.splits)

lemma classify_ticket_run:
  assumes "committed s = db s" "db_ok (db s)" "t \<in> set (tickets (db s))"
  shows "classify_ticket M zones n (t_id t) (t_organization_id t) s =
    (case classify_body M zones n (t_id t) (t_organization_id t) s of (r, s') \<Rightarrow> (r, s'\<lparr>db := committed s'\<rparr>))"
  by (simp add: classify_ticket_def with_session_def)

lemma category_offered:
  "c \<in> set (offered_categories org d) \<longleftrightarrow>
     (\<exists>row\<in>set (categories d). cat_organization_id row = org \<and> cat_active row \<and> c = category_option row)"
  by (auto simp: offered_categories_def category_list_def select_rows_def CategoryRepository_def opt_where_def
      for_background_worker_def)

lemma urgency_offered:
  "row \<in> set (urgency_list (for_background_worker org) (Some True) d) \<longleftrightarrow>
     row \<in> set (urgency_levels d) \<and> ul_organization_id row = org \<and> ul_active row"
  by (auto simp: urgency_list_def select_rows_def UrgencyLevelRepository_def opt_where_def for_background_worker_def)

text \<open>C22: what the classification worker does when it returns. A ticket that is not pending, and one
  whose classification fails permanently, is left alone. Otherwise the ticket gets a category and
  an urgency level that are active rows of its own organization, the status \<open>classified\<close> and the SLA
  due instant of that urgency level counted from the ticket's creation; the prediction is stored;
  every other ticket and every other table is as before, and the database is consistent.\<close>

theorem classify_ticket_effect:
  assumes "committed s = db s" "db_ok (db s)" "t \<in> set (tickets (db s))"
    and "classify_ticket M zones n (t_id t) (t_organization_id t) s = (Inr x, s')"
  shows "if t_classification_status t \<noteq> PENDING \<or>
      classify M (ticket_text t) (offered_categories (t_organization_id t) (db s))
        (offered_urgencies (t_organization_id t) (db s)) = Inl ClassificationUnavailableError
    then s' = s
    else \<exists>r due row ul. r \<in> set (categories (db s)) \<and> cat_organization_id r = t_organization_id t \<and> cat_active r \<and>
      ul \<in> set (urgency_levels (db s)) \<and> ul_organization_id ul = t_organization_id t \<and> ul_active ul \<and>
      resolve_sla_due_at zones (t_organization_id t) ul (t_created_at t) s = (Inr due, s) \<and>
      row = t\<lparr>t_category_id := Some (cat_id r), t_urgency_id := Some (ul_id ul), t_classification_status := CLASSIFIED,
              t_sla_due_at := Some due\<rparr> \<and>
      tickets (db s') = update_where (\<lambda>z. t_id z = t_id t) (\<lambda>_. row) (tickets (db s)) \<and>
      only_classified (db s) (db s') \<and> db_ok (db s') \<and> committed s' = db s' \<and>
      (\<exists>c\<in>set (classifications (db s')). cl_ticket_id c = t_id t \<and> cl_predicted_category c = Some (cat_name r) \<and>
        cl_predicted_urgency c = Some (ul_name ul))"
proof -
  let ?org = "t_organization_id t"
  let ?cats = "offered_categories ?org (db s)" and ?urgs = "offered_urgencies ?org (db s)"
  have ids: "distinct (map t_id (tickets (db s)))" using assms(2) by (simp add: db_ok_def tickets_ok_def)
  note run = assms(4) [unfolded classify_ticket_run [OF assms(1-3)] classify_body_run [OF ids assms(3) refl]]
  show ?thesis
  proof (cases "t_classification_status t \<noteq> PENDING \<or> classify M (ticket_text t) ?cats ?urgs = Inl ClassificationUnavailableError")
    case True
    with run assms(1) have "s' = s" by (auto split: if_splits)
    with True show ?thesis by simp
  next
    case False
    with run obtain q ul where q: "classify M (ticket_text t) ?cats ?urgs = Inr q"
      and ul: "find (\<lambda>row. ul_id row = res_urgency_id q) (urgency_list (for_background_worker ?org) (Some True) (db s)) = Some ul"
      by (auto split: sum.splits option.splits if_splits)
    from run q ul False obtain due w where due: "resolve_sla_due_at zones ?org ul (t_created_at t) s = (Inr due, s)"
      and st: "store_classification (t_id t) q due s = (Inr x, w)" and s': "s' = w\<lparr>db := committed w\<rparr>"
      by (auto split: prod.splits elim!: bind_readonly_InrE [OF _ readonly_resolve_sla_due_at])
    from classify_offered [OF q] obtain r where r: "r \<in> set (categories (db s))" "cat_organization_id r = ?org" "cat_active r"
      "res_category_id q = cat_id r" "res_predicted_category q = cat_name r"
      by (auto simp: result_offered_def category_offered category_option_def)
    from classify_offered [OF q] obtain ul' where ul': "ul' \<in> set (urgency_levels (db s))"
      "res_urgency_id q = ul_id ul'" "res_predicted_urgency q = ul_name ul'"
      by (auto simp: result_offered_def offered_urgencies_def urgency_offered urgency_option_def)
    have u: "ul \<in> set (urgency_levels (db s))" "ul_organization_id ul = ?org" "ul_active ul" "ul_id ul = res_urgency_id q"
      using find_in_set [OF ul] by (auto simp: urgency_offered)
    have uls: "distinct (map ul_id (urgency_levels (db s)))"
      using assms(2) by (simp add: db_ok_def urgency_levels_ok_def)
    have same: "ul' = ul"
      by (rule distinct_map_eq [OF uls ul'(1) u(1)]) (metis ul'(2) u(4))
    have upd: "update_where (\<lambda>z. t_id z = t_id t) (classified_ticket q due) (tickets (db s)) =
        update_where (\<lambda>z. t_id z = t_id t) (\<lambda>_. classified_ticket q due t) (tickets (db s))"
      using distinct_map_eq [OF ids _ assms(3)] by (auto simp: update_where_def)
    note eff = store_classification_Inr [OF st]
    have w: "s' = w" using s' eff by simp
    have row: "classified_ticket q due t = t\<lparr>t_category_id := Some (cat_id r), t_urgency_id := Some (ul_id ul),
        t_classification_status := CLASSIFIED, t_sla_due_at := Some due\<rparr>"
      using r u by (simp add: classified_ticket_def)
    have pred: "\<exists>c\<in>set (classifications (db s')). cl_ticket_id c = t_id t \<and> cl_predicted_category c = Some (cat_name r) \<and>
        cl_predicted_urgency c = Some (ul_name ul)"
      using eff unfolding w r(5) ul'(3) same by blast
    have tickets: "tickets (db s') = update_where (\<lambda>z. t_id z = t_id t) (\<lambda>_. classified_ticket q due t) (tickets (db s))"
      using eff upd w by simp
    show ?thesis
      unfolding if_not_P [OF False]
      by (rule exI [of _ r], rule exI [of _ due], rule exI [of _ "classified_ticket q due t"], rule exI [of _ ul])
        (use r(1-3) u(1-3) due row tickets pred eff w in \<open>intro conjI, simp_all\<close>)
  qed
qed

theorem classify_ticket_effect_witness:
  "\<exists>s'. classify_ticket toy_models demo_zones 1 60 10 demo_world = (Inr (), s') \<and>
     (\<exists>t\<in>set (tickets (db s')). t_id t = 60 \<and> t_category_id t = Some 40 \<and> t_classification_status t = CLASSIFIED) \<and>
     only_classified (db demo_world) (db s')"
proof -
  let ?t = "(mk_ticket 60 10 13)\<lparr>t_property_id := Some 30, t_contract_id := Some 31\<rparr>"
  have id: "t_id ?t = 60" "t_organization_id ?t = 10" "t_classification_status ?t = PENDING" by (simp_all add: mk_ticket_def)
  have t: "?t \<in> set (tickets (db demo_world))" by (simp add: demo_db_def)
  have "\<not> isl (fst (classify_ticket toy_models demo_zones 1 60 10 demo_world)) \<and> True" by code_simp
  from returned [OF this] obtain s' where
    run: "classify_ticket toy_models demo_zones 1 (t_id ?t) (t_organization_id ?t) demo_world = (Inr (), s')"
    unfolding id by auto
  have "classify toy_models (ticket_text ?t) (offered_categories 10 demo_db) (offered_urgencies 10 demo_db)
      \<noteq> Inl ClassificationUnavailableError"
    by code_simp
  then have pending: "\<not> (t_classification_status ?t \<noteq> PENDING \<or> classify toy_models (ticket_text ?t)
      (offered_categories (t_organization_id ?t) (db demo_world)) (offered_urgencies (t_organization_id ?t) (db demo_world)) =
      Inl ClassificationUnavailableError)"
    by (simp add: id(2,3))
  have consistent: "committed demo_world = db demo_world" "db_ok (db demo_world)" using demo_db_ok by simp_all
  from classify_ticket_effect [OF consistent t run, unfolded if_not_P [OF pending]] obtain r row where
    r: "r \<in> set (categories demo_db)" "cat_organization_id r = 10"
    and ts: "tickets (db s') = update_where (\<lambda>z. t_id z = 60) (\<lambda>_. row) (tickets demo_db)"
    and frame: "only_classified demo_db (db s')"
    and row: "t_id row = 60" "t_category_id row = Some (cat_id r)" "t_classification_status row = CLASSIFIED"
    unfolding id demo_db_eq by (elim exE conjE) (rule that, assumption+, simp_all add: mk_ticket_def)
  have cat: "cat_id r = 40" using r by (auto simp: demo_db_def mk_category_def)
  have mem: "row \<in> set (tickets (db s'))"
    using t by (auto simp: ts set_update_where id(1) intro!: rev_image_eqI [of ?t])
  show ?thesis
    using run frame by (intro exI [of _ s'] conjI bexI [OF _ mem]) (simp_all add: id row cat)
qed

text \<open>C33: failures of the classification of a pending ticket. A transient failure asks the queue to
  retry after \<open>2 ^ job_try\<close> seconds, a permanent one ends the job; in both cases nothing of the world
  has changed, so the ticket stays pending. A ticket the job's organization does not hold is a 404.\<close>

theorem classify_ticket_failures:
  assumes "committed s = db s" "db_ok (db s)" "t \<in> set (tickets (db s))" "t_classification_status t = PENDING"
    and "classify M (ticket_text t) (offered_categories (t_organization_id t) (db s))
           (offered_urgencies (t_organization_id t) (db s)) = Inl e"
  shows "classify_ticket M zones n (t_id t) (t_organization_id t) s =
      (if e = ClassificationTransientError then Inl (Raised (Retry (2 ^ n)))
       else if e = ClassificationUnavailableError then Inr () else Inl (Raised e), s) \<and>
    (org \<noteq> t_organization_id t \<longrightarrow>
      classify_ticket M zones n (t_id t) org s = (Inl (Raised (NotFoundError ''Ticket'' (Some (t_id t)))), s))"
proof -
  have ids: "distinct (map t_id (tickets (db s)))" using assms(2) by (simp add: db_ok_def tickets_ok_def)
  have "get_or_404 TicketRepository (for_background_worker org) (Some (t_id t)) s =
      (Inl (Raised (NotFoundError ''Ticket'' (Some (t_id t)))), s)" if "org \<noteq> t_organization_id t"
    using get_or_404_cases [of TicketRepository s "for_background_worker org" "t_id t"] ids that distinct_map_eq [OF ids _ assms(3)]
    by (auto simp: ticket_visible_def for_background_worker_def split: option.splits dest!: find_in_set)
  then have "org \<noteq> t_organization_id t \<longrightarrow>
      classify_ticket M zones n (t_id t) org s = (Inl (Raised (NotFoundError ''Ticket'' (Some (t_id t)))), s)"
    using assms(1) by (auto simp: classify_ticket_def with_session_def classify_body_def Let_def bind_Inl)
  moreover have "s\<lparr>db := db s\<rparr> = s" by simp
  ultimately show ?thesis
    using assms(1,4,5) by (simp add: classify_ticket_run [OF assms(1-3)] classify_body_run [OF ids assms(3) refl])
qed

theorem classify_ticket_failures_witness:
  "classify_ticket (toy_models\<lparr>confidence_threshold := 1\<rparr>) demo_zones 3 60 10 demo_world =
     (Inl (Raised (Retry 8)), demo_world) \<and>
   classify_ticket (toy_models\<lparr>confidence_threshold := 1\<rparr>) demo_zones 3 60 20 demo_world =
     (Inl (Raised (NotFoundError ''Ticket'' (Some 60))), demo_world)"
proof -
  let ?t = "(mk_ticket 60 10 13)\<lparr>t_property_id := Some 30, t_contract_id := Some 31\<rparr>"
  have id: "t_id ?t = 60" "t_organization_id ?t = 10" "t_classification_status ?t = PENDING" by (simp_all add: mk_ticket_def)
  have t: "?t \<in> set (tickets (db demo_world))" by (simp add: demo_db_def)
  have "classify (toy_models\<lparr>confidence_threshold := 1\<rparr>) (ticket_text ?t) (offered_categories 10 demo_db)
      (offered_urgencies 10 demo_db) = Inl ClassificationTransientError"
    by (rule raised_value) code_simp
  with classify_ticket_failures [OF _ _ t, of "toy_models\<lparr>confidence_threshold := 1\<rparr>" _ demo_zones 3 20] demo_db_ok
  show ?thesis by (simp add: id)
qed

text \<open>C34: the sweep. It enqueues one classification job for each ticket of any organization that is still
  pending more than five minutes after it was created, in the order of the table, and changes nothing else.\<close>

theorem sweep_enqueues_stale:
  assumes "committed s = db s"
  shows "sweep_pending_classifications s = (Inr (), s\<lparr>jobs := jobs s @
     [ClassifyTicket (t_id t) (t_organization_id t). t \<leftarrow> tickets (db s),
        t_classification_status t = PENDING, t_created_at t + minutes 5 < now s]\<rparr>)"
proof -
  have loop: "for_each ts (\<lambda>t. enqueue_job (ClassifyTicket (t_id t) (t_organization_id t))) w =
      (Inr (), w\<lparr>jobs := jobs w @ map (\<lambda>t. ClassifyTicket (t_id t) (t_organization_id t)) ts\<rparr>)" for ts w
    by (induction ts arbitrary: w) (simp_all add: run_simps enqueue_job_def)
  have "concat (map (\<lambda>t. if P t then [f t] else []) xs) = map f (filter P xs)"
    for P and f :: "ticket \<Rightarrow> job" and xs by (induction xs) simp_all
  then show ?thesis
    using assms
    by (simp add: sweep_pending_classifications_def with_session_def bind_reads bind_query loop SWEEP_STALE_AFTER_def
        less_diff_eq if_if_eq_conj del: if_conn)
qed

theorem sweep_enqueues_stale_witness:
  "jobs (snd (sweep_pending_classifications demo_world)) = [ClassifyTicket 60 10, ClassifyTicket 61 20]"
  using sweep_enqueues_stale [of demo_world]
  by (simp add: demo_world_def demo_db_def mk_ticket_def time_defs)

text \<open>The worker overrides an explicit choice. Tenant 13 reports a ticket with category 40 and urgency
  level 50 chosen in the form; the ticket is still \<open>pending\<close>, so the job that follows replaces the urgency level by
  the one the models predict, and with it the SLA due instant.\<close>

theorem worker_overrides_explicit_taxonomy:
  "case bind (get_session (create_ticket demo_zones (demo_scope 13 TENANT) (Some 30) (Some 31) ''Leak'' None (Some 40) (Some 50) WEB))
      (\<lambda>t. andthen (classify_ticket toy_models demo_zones 1 (t_id t) 10) (ret t)) demo_world of
     (Inl e, s') \<Rightarrow> False
   | (Inr t, s') \<Rightarrow> t_urgency_id t = Some 50 \<and>
       (\<exists>t'\<in>set (tickets (db s')). t_id t' = t_id t \<and> t_urgency_id t' = Some 51 \<and> t_sla_due_at t' \<noteq> t_sla_due_at t)"
  by code_simp

text \<open>An unchecked confidence of the LLM. A reply that names offered rows with a confidence outside
  the unit interval is taken as it is; the constraint of the \<open>classifications\<close> table then makes the job
  fail with an integrity error rather than as an unavailable classification, and the ticket stays pending.\<close>

definition loud_models :: models where
  "loud_models = toy_models\<lparr>confidence_threshold := 1, complete := (\<lambda>_ cs us. Message (Some (JObj
     [(''category_id'', JStr (uuid_str (opt_id (hd cs)))), (''urgency_id'', JStr (uuid_str (opt_id (hd us)))),
      (''confidence'', JInt 95), (''urgency_confidence'', JFloat 1)])))\<rparr>"

theorem llm_confidence_not_bounded:
  "fst (classify_ticket loud_models demo_zones 1 60 10 demo_world) = Inl (Raised IntegrityError)"
  by code_simp

end
