(* ===== verification/Catalog.thy ===== *)
theory Catalog
  imports Tickets Security
begin

text \<open>
  The organization's catalogue: \<open>src/app/services/taxonomy_service.py\<close>, \<open>category_service.py\<close>,
  \<open>urgency_level_service.py\<close>, \<open>property_service.py\<close>, \<open>contract_service.py\<close>,
  \<open>knowledge_base_service.py\<close>, \<open>organization_service.py\<close> and \<open>taxonomy_seed.py\<close>, with the
  seed data of \<open>src/app/core/taxonomy_defaults.py\<close> and \<open>src/app/core/crypto.py\<close>.

  The keyword arguments \<open>**fields\<close> of an update are the function that assigns them to the row.
\<close>

section \<open>Secrets at rest\<close>

text \<open>Fernet is a library: a key is well formed or \<open>Fernet(key)\<close> raises \<open>ValueError\<close>, and
  \<open>MultiFernet(keys)\<close> encrypts and decrypts with a list of keys.\<close>

record fernet =
  key_ok :: "string \<Rightarrow> bool"
  multi_encrypt :: "string list \<Rightarrow> string \<Rightarrow> string"
  multi_decrypt :: "string list \<Rightarrow> string \<Rightarrow> string option"

fun py_split :: "char \<Rightarrow> string \<Rightarrow> string list" where
  "py_split sep [] = [[]]"
| "py_split sep (c # cs) =
    (if c = sep then [] # py_split sep cs
     else case py_split sep cs of [] \<Rightarrow> [[c]] | w # ws \<Rightarrow> (c # w) # ws)"

definition multi_fernet :: "fernet \<Rightarrow> string \<Rightarrow> error + string list" where
  "multi_fernet F raw_key =
    (if raw_key = [] then Inl SecretEncryptionUnavailableError
     else let keys = map py_strip (filter (\<lambda>part. py_strip part \<noteq> []) (py_split (CHR '','') raw_key))
       in if \<not> list_all (key_ok F) keys then Inl ValueError
          else if keys = [] then Inl SecretEncryptionUnavailableError
          else Inr keys)"

definition secret_encryption_available :: "string \<Rightarrow> bool" where
  "secret_encryption_available raw_key \<longleftrightarrow> raw_key \<noteq> []"

definition encrypt_secret :: "fernet \<Rightarrow> string \<Rightarrow> string \<Rightarrow> error + string" where
  "encrypt_secret F raw_key plaintext =
    (case multi_fernet F raw_key of Inl e \<Rightarrow> Inl e | Inr keys \<Rightarrow> Inr (multi_encrypt F keys plaintext))"

definition decrypt_secret :: "fernet \<Rightarrow> string \<Rightarrow> string \<Rightarrow> error + string" where
  "decrypt_secret F raw_key token =
    (case multi_fernet F raw_key of Inl e \<Rightarrow> Inl e
     | Inr keys \<Rightarrow> (case multi_decrypt F keys token of None \<Rightarrow> Inl SecretDecryptionError | Some p \<Rightarrow> Inr p))"

section \<open>Taxonomy\<close>

record TaxonomyDeleteResult =
  tdr_id :: uuid
  tdr_deleted :: bool
  tdr_active :: bool

text \<open>\<open>except IntegrityError as exc: raise ... from exc\<close>.\<close>

definition on_integrity_error :: "'a service \<Rightarrow> 'a service \<Rightarrow> 'a service" where
  "on_integrity_error body handler =
    try_except body (\<lambda>e. if e = Raised IntegrityError then handler else raise e)"

definition delete_or_deactivate :: "'r repository \<Rightarrow> ('r \<Rightarrow> 'r) \<Rightarrow> OrgScope \<Rightarrow> uuid \<Rightarrow> TaxonomyDeleteResult service" where
  "delete_or_deactivate R inactive sc i = bind (get_or_404 R sc (Some i)) (\<lambda>_.
    on_integrity_error
      (andthen (begin_nested (andthen (update_db (upd_rows R (delete_where (\<lambda>r. pk R r = i)))) flush))
        (ret \<lparr>tdr_id = i, tdr_deleted = True, tdr_active = False\<rparr>))
      (andthen (write_row R i inactive)
        (andthen flush (ret \<lparr>tdr_id = i, tdr_deleted = False, tdr_active = False\<rparr>))))"

definition create_category :: "OrgScope \<Rightarrow> string \<Rightarrow> string option \<Rightarrow> category service" where
  "create_category sc name description = bind (reads now) (\<lambda>ts.
    bind (add_row CategoryRepository sc (\<lambda>u. \<lparr>cat_id = u, cat_created_at = ts, cat_organization_id = organization_id sc,
      cat_name = name, cat_description = description, cat_active = True\<rparr>)) (\<lambda>r.
    andthen (on_integrity_error flush (throw ConflictError)) (ret r)))"

definition list_categories :: "OrgScope \<Rightarrow> bool \<Rightarrow> category list service" where
  "list_categories sc include_inactive = query (category_list sc (if include_inactive then None else Some True))"

definition get_category :: "OrgScope \<Rightarrow> uuid \<Rightarrow> category service" where
  "get_category sc i = get_or_404 CategoryRepository sc (Some i)"

definition update_category :: "OrgScope \<Rightarrow> uuid \<Rightarrow> (category \<Rightarrow> category) \<Rightarrow> category service" where
  "update_category sc i assign = bind (update_row CategoryRepository sc i assign) (\<lambda>r.
    andthen (on_integrity_error flush (throw ConflictError)) (ret r))"

definition delete_category :: "OrgScope \<Rightarrow> uuid \<Rightarrow> TaxonomyDeleteResult service" where
  "delete_category sc i = delete_or_deactivate CategoryRepository (\<lambda>r. r\<lparr>cat_active := False\<rparr>) sc i"

definition create_urgency_level :: "OrgScope \<Rightarrow> string \<Rightarrow> int \<Rightarrow> int \<Rightarrow> bool \<Rightarrow> urgency_level service" where
  "create_urgency_level sc name sla order pauses = bind (reads now) (\<lambda>ts.
    bind (add_row UrgencyLevelRepository sc (\<lambda>u. \<lparr>ul_id = u, ul_created_at = ts, ul_organization_id = organization_id sc,
      ul_name = name, ul_description = None, ul_sla_hours = sla, ul_sort_order = order, ul_active = True,
      ul_respects_business_hours = pauses\<rparr>)) (\<lambda>r.
    andthen (on_integrity_error flush (throw ConflictError)) (ret r)))"

definition list_urgency_levels :: "OrgScope \<Rightarrow> bool \<Rightarrow> urgency_level list service" where
  "list_urgency_levels sc include_inactive = query (urgency_list sc (if include_inactive then None else Some True))"

definition get_urgency_level :: "OrgScope \<Rightarrow> uuid \<Rightarrow> urgency_level service" where
  "get_urgency_level sc i = get_or_404 UrgencyLevelRepository sc (Some i)"

definition update_urgency_level :: "OrgScope \<Rightarrow> uuid \<Rightarrow> (urgency_level \<Rightarrow> urgency_level) \<Rightarrow> urgency_level service" where
  "update_urgency_level sc i assign = bind (update_row UrgencyLevelRepository sc i assign) (\<lambda>r.
    andthen (on_integrity_error flush (throw ConflictError)) (ret r))"

definition delete_urgency_level :: "OrgScope \<Rightarrow> uuid \<Rightarrow> TaxonomyDeleteResult service" where
  "delete_urgency_level sc i = delete_or_deactivate UrgencyLevelRepository (\<lambda>r. r\<lparr>ul_active := False\<rparr>) sc i"

section \<open>Properties and contracts\<close>

definition create_property :: "OrgScope \<Rightarrow> uuid \<Rightarrow> string \<Rightarrow> PropertyType \<Rightarrow> property service" where
  "create_property sc owner_id address kind = bind (get_or_404 UserRepository sc (Some owner_id)) (\<lambda>owner.
    andthen (throw_if (u_role owner \<noteq> OWNER) InvalidOwnerRoleError)
    (bind (reads now) (\<lambda>ts.
     bind (add_row PropertyRepository sc (\<lambda>u. \<lparr>p_id = u, p_created_at = ts, p_organization_id = organization_id sc,
       p_owner_id = owner_id, p_address = address, p_type = kind, p_deleted_at = None\<rparr>)) (\<lambda>r.
     andthen flush (ret r)))))"

definition list_properties :: "OrgScope \<Rightarrow> property list service" where
  "list_properties sc = query (select_rows PropertyRepository sc)"

definition get_property :: "OrgScope \<Rightarrow> uuid \<Rightarrow> property service" where
  "get_property sc i = get_or_404 PropertyRepository sc (Some i)"

definition update_property :: "OrgScope \<Rightarrow> uuid \<Rightarrow> (property \<Rightarrow> property) \<Rightarrow> property service" where
  "update_property sc i assign = update_row PropertyRepository sc i assign"

definition delete_property :: "OrgScope \<Rightarrow> uuid \<Rightarrow> property service" where
  "delete_property sc i = bind (reads now) (\<lambda>ts. update_row PropertyRepository sc i (\<lambda>r. r\<lparr>p_deleted_at := Some ts\<rparr>))"

definition create_contract :: "OrgScope \<Rightarrow> uuid \<Rightarrow> uuid \<Rightarrow> int \<Rightarrow> int \<Rightarrow> contract service" where
  "create_contract sc property_id tenant_id start_date end_date =
    bind (get_or_404 PropertyRepository sc (Some property_id)) (\<lambda>_.
    bind (get_or_404 UserRepository sc (Some tenant_id)) (\<lambda>tenant.
    andthen (throw_if (u_role tenant \<noteq> TENANT) InvalidTenantRoleError)
    (bind (reads now) (\<lambda>ts.
     bind (add_row ContractRepository sc (\<lambda>u. \<lparr>c_id = u, c_created_at = ts, c_property_id = property_id,
       c_tenant_id = tenant_id, c_start_date = start_date, c_end_date = end_date, c_status = CONTRACT_ACTIVE\<rparr>)) (\<lambda>r.
     andthen flush (ret r))))))"

definition list_contracts :: "OrgScope \<Rightarrow> contract list service" where
  "list_contracts sc = query (select_rows ContractRepository sc)"

definition get_contract :: "OrgScope \<Rightarrow> uuid \<Rightarrow> contract service" where
  "get_contract sc i = get_or_404 ContractRepository sc (Some i)"

definition update_contract :: "OrgScope \<Rightarrow> uuid \<Rightarrow> (contract \<Rightarrow> contract) \<Rightarrow> contract service" where
  "update_contract sc i assign = update_row ContractRepository sc i assign"

section \<open>Knowledge base articles\<close>

definition create_knowledge_base :: "OrgScope \<Rightarrow> string \<Rightarrow> string \<Rightarrow> string option \<Rightarrow> knowledge_base service" where
  "create_knowledge_base sc title content source_type = bind (reads now) (\<lambda>ts.
    bind (add_row KnowledgeBaseRepository sc (\<lambda>u. \<lparr>kb_id = u, kb_created_at = ts, kb_organization_id = organization_id sc,
      kb_title = title, kb_content = content, kb_source_type = source_type, kb_status = ''pending'',
      kb_embedding_error = None\<rparr>)) (\<lambda>r.
    andthen flush (ret r)))"

definition list_knowledge_base :: "OrgScope \<Rightarrow> knowledge_base list service" where
  "list_knowledge_base sc = query (select_rows KnowledgeBaseRepository sc)"

definition get_knowledge_base :: "OrgScope \<Rightarrow> uuid \<Rightarrow> knowledge_base service" where
  "get_knowledge_base sc i = get_or_404 KnowledgeBaseRepository sc (Some i)"

definition update_knowledge_base :: "OrgScope \<Rightarrow> uuid \<Rightarrow> (knowledge_base \<Rightarrow> knowledge_base) \<Rightarrow> knowledge_base service" where
  "update_knowledge_base sc i assign =
    bind (update_row KnowledgeBaseRepository sc i
      (\<lambda>r. (assign r)\<lparr>kb_status := ''pending'', kb_embedding_error := None\<rparr>)) (\<lambda>r.
    andthen flush (ret r))"

definition delete_knowledge_base :: "OrgScope \<Rightarrow> uuid \<Rightarrow> unit service" where
  "delete_knowledge_base sc i =
    bind (get_or_404 KnowledgeBaseRepository sc (Some i)) (\<lambda>kb.
    andthen (delete_for_knowledge_base sc i)
    (andthen (update_db (knowledge_bases_update (delete_where (\<lambda>r. kb_id r = kb_id kb)))) flush))"

section \<open>Organizations and their seeds\<close>

record CategorySeed =
  seed_name :: string
  seed_description :: string

record UrgencySeed =
  useed_name :: string
  useed_sla_hours :: int
  useed_sort_order :: int
  useed_respects_business_hours :: bool

definition DEFAULT_CATEGORIES :: "CategorySeed list" where
  "DEFAULT_CATEGORIES =
    [\<lparr>seed_name = ''Maintenance'', seed_description = ''Repairs or failures inside the unit or common areas''\<rparr>,
     \<lparr>seed_name = ''Billing'', seed_description = ''Payments, invoices, due dates, arrears''\<rparr>,
     \<lparr>seed_name = ''Contract'', seed_description = ''Renewals, terminations, clauses, deposits''\<rparr>,
     \<lparr>seed_name = ''Administrative'', seed_description = ''Documents, receipts, certificates, ownership changes''\<rparr>,
     \<lparr>seed_name = ''Complaints'', seed_description = ''Noise, coexistence issues, breaches''\<rparr>,
     \<lparr>seed_name = ''Sales inquiry'', seed_description = ''Prospective tenants/owners, new listings, appraisals''\<rparr>]"

definition DEFAULT_URGENCY_LEVELS :: "UrgencySeed list" where
  "DEFAULT_URGENCY_LEVELS =
    [\<lparr>useed_name = ''Critical'', useed_sla_hours = 2, useed_sort_order = 1, useed_respects_business_hours = False\<rparr>,
     \<lparr>useed_name = ''High'', useed_sla_hours = 24, useed_sort_order = 2, useed_respects_business_hours = False\<rparr>,
     \<lparr>useed_name = ''Medium'', useed_sla_hours = 48, useed_sort_order = 3, useed_respects_business_hours = True\<rparr>,
     \<lparr>useed_name = ''Low'', useed_sla_hours = 120, useed_sort_order = 4, useed_respects_business_hours = True\<rparr>]"

definition seed_default_taxonomy :: "OrgScope \<Rightarrow> unit service" where
  "seed_default_taxonomy sc = bind (reads now) (\<lambda>ts.
    andthen (for_each DEFAULT_CATEGORIES (\<lambda>seed.
      bind (add_row CategoryRepository sc (\<lambda>u. \<lparr>cat_id = u, cat_created_at = ts, cat_organization_id = organization_id sc,
        cat_name = seed_name seed, cat_description = Some (seed_description seed), cat_active = True\<rparr>)) (\<lambda>_. ret ())))
    (for_each DEFAULT_URGENCY_LEVELS (\<lambda>seed.
      bind (add_row UrgencyLevelRepository sc (\<lambda>u. \<lparr>ul_id = u, ul_created_at = ts, ul_organization_id = organization_id sc,
        ul_name = useed_name seed, ul_description = None, ul_sla_hours = useed_sla_hours seed,
        ul_sort_order = useed_sort_order seed, ul_active = True,
        ul_respects_business_hours = useed_respects_business_hours seed\<rparr>)) (\<lambda>_. ret ()))))"

definition create_organization :: "string \<Rightarrow> user \<Rightarrow> string option \<Rightarrow> json option \<Rightarrow> organization service" where
  "create_organization name actor timezone business_hours = bind (reads now) (\<lambda>ts. bind new_opaque_token (\<lambda>key.
    bind (organization_add (\<lambda>u. \<lparr>o_id = u, o_created_at = ts, o_name = name, o_chat_widget_key = key,
      o_whatsapp_phone_number_id = None, o_whatsapp_access_token_encrypted = None, o_support_email_address = None,
      o_timezone = (case timezone of None \<Rightarrow> DEFAULT_TIMEZONE | Some tz \<Rightarrow> tz),
      o_business_hours = (case business_hours of None \<Rightarrow> DEFAULT_BUSINESS_HOURS | Some bh \<Rightarrow> bh)\<rparr>)) (\<lambda>org.
    andthen (on_integrity_error flush (throw ConflictError))
    (andthen (seed_default_taxonomy (for_new_organization (o_id org) actor))
    (andthen flush (ret org))))))"

definition get_organization :: "uuid \<Rightarrow> organization service" where
  "get_organization i = organization_get_or_404 i"

text \<open>\<open>token\<close> is the entry \<open>whatsapp_access_token\<close> of the fields: absent, explicitly
  \<open>None\<close>, or a secret.\<close>

definition update_organization :: "fernet \<Rightarrow> string \<Rightarrow> uuid \<Rightarrow> (organization \<Rightarrow> organization) \<Rightarrow> string option option \<Rightarrow>
    organization service" where
  "update_organization F raw_key i assign token =
    bind (case token of
        None \<Rightarrow> ret (\<lambda>r. r)
      | Some None \<Rightarrow> ret (\<lambda>r. r\<lparr>o_whatsapp_access_token_encrypted := None\<rparr>)
      | Some (Some plain) \<Rightarrow> (case encrypt_secret F raw_key plain of
            Inl e \<Rightarrow> throw e
          | Inr cipher \<Rightarrow> ret (\<lambda>r. r\<lparr>o_whatsapp_access_token_encrypted := Some cipher\<rparr>))) (\<lambda>set_token.
    bind (organization_update i (\<lambda>r. set_token (assign r))) (\<lambda>org.
    andthen (on_integrity_error flush (throw ConflictError)) (ret org)))"

section \<open>Removing a row of the taxonomy\<close>

lemma on_integrity_error_run:
  "on_integrity_error m h s = (case m s of (Inl e, s') \<Rightarrow> if e = Raised IntegrityError then h s' else (Inl e, s') | (Inr x, s') \<Rightarrow> (Inr x, s'))"
  by (simp add: on_integrity_error_def try_except_def raise_run split: prod.splits sum.splits)

lemma set_delete_where: "set (delete_where P rs) = {r \<in> set rs. \<not> P r}"
  by (auto simp: delete_where_def)

lemma distinct_delete_where: "distinct (map k rs) \<Longrightarrow> distinct (map k (delete_where P rs))"
  by (simp add: delete_where_def distinct_map_filter)

lemma unique_on_delete_where: "unique_on Q key rs \<Longrightarrow> unique_on Q key (delete_where P rs)"
  using distinct_map_filter [of key "filter Q rs" "\<lambda>r. \<not> P r"]
  by (simp add: unique_on_def delete_where_def conj_commute)

lemma fk_ok_delete_where: "fk_ok ref rs pks \<Longrightarrow> fk_ok ref (delete_where P rs) pks"
  by (simp add: fk_ok_def delete_where_def list_all_iff)

lemma fk_ok_deleted_key:
  "fk_ok ref rs (map k xs) \<Longrightarrow> fk_ok ref rs (map k (delete_where (\<lambda>x. k x = i) xs)) \<longleftrightarrow> (\<forall>r\<in>set rs. ref r \<noteq> Some i)"
  by (auto simp: fk_ok_def list_all_iff set_delete_where split: option.splits) (use not_None_eq in blast)+

lemma begin_nested_flushed:
  assumes "db_ok (db s)"
  shows "begin_nested (andthen (update_db f) flush) s =
    (if db_ok (f (db s)) then (Inr (), s\<lparr>db := f (db s)\<rparr>) else (Inl (Raised IntegrityError), s))"
  using assms
  by (simp add: begin_nested_def andthen_def bind_query bind_flush bind_update_db try_except_def bind_assoc
      update_db_run raise_run ret_run)

text \<open>What the shared helper needs of a taxonomy table: the rows are keyed, deactivating a row
  respects every constraint, and removing one respects them exactly when no ticket refers to it.\<close>

locale taxonomy_table =
  fixes R :: "'r repository" and inactive :: "'r \<Rightarrow> 'r" and ticket_ref :: "ticket \<Rightarrow> uuid option"
  assumes keyed: "db_ok d \<Longrightarrow> distinct (map (pk R) (rows R d))"
    and deactivated_ok: "db_ok d \<Longrightarrow> db_ok (upd_rows R (update_where (\<lambda>r. pk R r = i) inactive) d)"
    and deleted_ok: "db_ok d \<Longrightarrow>
      db_ok (upd_rows R (delete_where (\<lambda>r. pk R r = i)) d) \<longleftrightarrow> (\<forall>t\<in>set (tickets d). ticket_ref t \<noteq> Some i)"
begin

lemma delete_or_deactivate_run:
  assumes ok: "db_ok (db s)" and r: "r \<in> set (rows R (db s))"
  shows "delete_or_deactivate R inactive sc (pk R r) s =
    (if \<not> clause R sc (db s) r then (Inl (Raised (NotFoundError (model_name R) (Some (pk R r)))), s)
     else if \<exists>t\<in>set (tickets (db s)). ticket_ref t = Some (pk R r)
       then (Inr \<lparr>tdr_id = pk R r, tdr_deleted = False, tdr_active = False\<rparr>,
             s\<lparr>db := upd_rows R (update_where (\<lambda>x. pk R x = pk R r) inactive) (db s)\<rparr>)
       else (Inr \<lparr>tdr_id = pk R r, tdr_deleted = True, tdr_active = False\<rparr>,
             s\<lparr>db := upd_rows R (delete_where (\<lambda>x. pk R x = pk R r)) (db s)\<rparr>))"
proof (cases "clause R sc (db s) r")
  case True
  note get = get_or_404_visible [OF keyed [OF ok] r True]
  note del = begin_nested_flushed [OF ok, of "upd_rows R (delete_where (\<lambda>x. pk R x = pk R r))"]
  show ?thesis
  proof (cases "\<exists>t\<in>set (tickets (db s)). ticket_ref t = Some (pk R r)")
    case used: True
    then have "\<not> db_ok (upd_rows R (delete_where (\<lambda>x. pk R x = pk R r)) (db s))"
      using deleted_ok [OF ok] by blast
    with del have "andthen (begin_nested (andthen (update_db (upd_rows R (delete_where (\<lambda>x. pk R x = pk R r)))) flush)) k s =
        (Inl (Raised IntegrityError), s)" for k :: "TaxonomyDeleteResult service"
      by (simp add: andthen_def bind_Inl)
    with get True used deactivated_ok [OF ok] show ?thesis
      by (simp add: delete_or_deactivate_def bind_Inr on_integrity_error_run)
        (simp add: andthen_def write_row_def bind_update_db bind_flush ret_run)
  next
    case unused: False
    then have "db_ok (upd_rows R (delete_where (\<lambda>x. pk R x = pk R r)) (db s))"
      using deleted_ok [OF ok] by blast
    with del have "andthen (begin_nested (andthen (update_db (upd_rows R (delete_where (\<lambda>x. pk R x = pk R r)))) flush)) (ret z) s =
        (Inr z, s\<lparr>db := upd_rows R (delete_where (\<lambda>x. pk R x = pk R r)) (db s)\<rparr>)" for z :: TaxonomyDeleteResult
      by (simp add: andthen_def bind_Inr ret_run)
    with get True unused show ?thesis
      by (simp add: delete_or_deactivate_def bind_Inr on_integrity_error_run)
  qed
next
  case False
  have "filter (\<lambda>x. Some (pk R r) = Some (pk R x)) (select_rows R sc (db s)) = []"
    using False r keyed [OF ok] by (auto simp: filter_empty_conv select_rows_def dest: distinct_map_eq)
  from get_or_404_not_found [OF this] False show ?thesis by (simp add: delete_or_deactivate_def bind_Inl)
qed

end

lemma db_ok_categories:
  assumes "db_ok d" "categories_ok (categories_update f d)"
    "fk_ok t_category_id (tickets d) (map cat_id (f (categories d)))"
  shows "db_ok (categories_update f d)"
  using assms by (simp add: db_ok_def table_ok_defs)

lemma db_ok_urgency_levels:
  assumes "db_ok d" "urgency_levels_ok (urgency_levels_update f d)"
    "fk_ok t_urgency_id (tickets d) (map ul_id (f (urgency_levels d)))"
  shows "db_ok (urgency_levels_update f d)"
  using assms by (simp add: db_ok_def table_ok_defs)

lemma db_ok_fk_taxonomy:
  "db_ok d \<Longrightarrow> fk_ok t_category_id (tickets d) (category_pks d)"
  "db_ok d \<Longrightarrow> fk_ok t_urgency_id (tickets d) (urgency_pks d)"
  by (simp_all add: db_ok_def tickets_ok_def)

interpretation category_table: taxonomy_table CategoryRepository "\<lambda>r. r\<lparr>cat_active := False\<rparr>" t_category_id
proof
  fix d i assume ok: "db_ok d"
  show "distinct (map (pk CategoryRepository) (rows CategoryRepository d))"
    using db_ok_distinct(3) [OF ok] by (simp add: CategoryRepository_def)
  have table: "categories_ok d" using ok by (simp add: db_ok_def)
  have keys: "map cat_id (update_where (\<lambda>r. cat_id r = i) (\<lambda>r. r\<lparr>cat_active := False\<rparr>) (categories d)) = category_pks d"
    by (rule map_update_where) simp
  have "categories_ok (categories_update (update_where (\<lambda>r. cat_id r = i) (\<lambda>r. r\<lparr>cat_active := False\<rparr>)) d)"
    using table keys by (auto simp: categories_ok_def intro: unique_on_update_where fk_ok_update_where)
  then show "db_ok (upd_rows CategoryRepository (update_where (\<lambda>r. pk CategoryRepository r = i) (\<lambda>r. r\<lparr>cat_active := False\<rparr>)) d)"
    using db_ok_categories [OF ok] db_ok_fk_taxonomy(1) [OF ok] keys by (simp add: CategoryRepository_def)
  have "categories_ok (categories_update (delete_where (\<lambda>r. cat_id r = i)) d)"
    using table by (auto simp: categories_ok_def intro: unique_on_delete_where fk_ok_delete_where distinct_delete_where)
  then have "db_ok (categories_update (delete_where (\<lambda>r. cat_id r = i)) d) \<longleftrightarrow>
      fk_ok t_category_id (tickets d) (map cat_id (delete_where (\<lambda>r. cat_id r = i) (categories d)))"
    using db_ok_categories [OF ok] by (auto simp: db_ok_def tickets_ok_def)
  then show "db_ok (upd_rows CategoryRepository (delete_where (\<lambda>r. pk CategoryRepository r = i)) d) \<longleftrightarrow>
      (\<forall>t\<in>set (tickets d). t_category_id t \<noteq> Some i)"
    using fk_ok_deleted_key [OF db_ok_fk_taxonomy(1) [OF ok]] by (simp add: CategoryRepository_def)
qed

interpretation urgency_table: taxonomy_table UrgencyLevelRepository "\<lambda>r. r\<lparr>ul_active := False\<rparr>" t_urgency_id
proof
  fix d i assume ok: "db_ok d"
  show "distinct (map (pk UrgencyLevelRepository) (rows UrgencyLevelRepository d))"
    using db_ok_distinct(4) [OF ok] by (simp add: UrgencyLevelRepository_def)
  have table: "urgency_levels_ok d" using ok by (simp add: db_ok_def)
  have keys: "map ul_id (update_where (\<lambda>r. ul_id r = i) (\<lambda>r. r\<lparr>ul_active := False\<rparr>) (urgency_levels d)) = urgency_pks d"
    by (rule map_update_where) simp
  have rows: "list_all urgency_row_ok (update_where (\<lambda>r. ul_id r = i) (\<lambda>r. r\<lparr>ul_active := False\<rparr>) (urgency_levels d))"
    using table by (auto simp: urgency_levels_ok_def list_all_iff set_update_where urgency_row_ok_def)
  have "urgency_levels_ok (urgency_levels_update (update_where (\<lambda>r. ul_id r = i) (\<lambda>r. r\<lparr>ul_active := False\<rparr>)) d)"
    using table keys rows by (auto simp: urgency_levels_ok_def intro: unique_on_update_where fk_ok_update_where)
  then show "db_ok (upd_rows UrgencyLevelRepository (update_where (\<lambda>r. pk UrgencyLevelRepository r = i) (\<lambda>r. r\<lparr>ul_active := False\<rparr>)) d)"
    using db_ok_urgency_levels [OF ok] db_ok_fk_taxonomy(2) [OF ok] keys by (simp add: UrgencyLevelRepository_def)
  have "urgency_levels_ok (urgency_levels_update (delete_where (\<lambda>r. ul_id r = i)) d)"
    using table by (auto simp: urgency_levels_ok_def list_all_iff set_delete_where
        intro: unique_on_delete_where fk_ok_delete_where distinct_delete_where)
  then have "db_ok (urgency_levels_update (delete_where (\<lambda>r. ul_id r = i)) d) \<longleftrightarrow>
      fk_ok t_urgency_id (tickets d) (map ul_id (delete_where (\<lambda>r. ul_id r = i) (urgency_levels d)))"
    using db_ok_urgency_levels [OF ok] by (auto simp: db_ok_def tickets_ok_def)
  then show "db_ok (upd_rows UrgencyLevelRepository (delete_where (\<lambda>r. pk UrgencyLevelRepository r = i)) d) \<longleftrightarrow>
      (\<forall>t\<in>set (tickets d). t_urgency_id t \<noteq> Some i)"
    using fk_ok_deleted_key [OF db_ok_fk_taxonomy(2) [OF ok]] by (simp add: UrgencyLevelRepository_def)
qed

text \<open>C23: deleting from the taxonomy never breaks a ticket. Deleting a category of the caller's organization
  removes the row when no ticket (of any organization) refers to it and otherwise only marks it
  inactive; the answer says which; the same holds of an urgency level. The call does not fail, nothing
  else changes and the database stays consistent.\<close>

theorem taxonomy_delete_effect:
  assumes ok: "db_ok (db s)" and c: "c \<in> set (categories (db s))" "cat_organization_id c = organization_id sc"
    and u: "u \<in> set (urgency_levels (db s))" "ul_organization_id u = organization_id sc"
  shows "(let used = (\<exists>t\<in>set (tickets (db s)). t_category_id t = Some (cat_id c));
      d = categories_update (if used then update_where (\<lambda>x. cat_id x = cat_id c) (\<lambda>r. r\<lparr>cat_active := False\<rparr>)
        else delete_where (\<lambda>x. cat_id x = cat_id c)) (db s)
    in delete_category sc (cat_id c) s = (Inr \<lparr>tdr_id = cat_id c, tdr_deleted = (\<not> used), tdr_active = False\<rparr>, s\<lparr>db := d\<rparr>) \<and> db_ok d) \<and>
   (let used = (\<exists>t\<in>set (tickets (db s)). t_urgency_id t = Some (ul_id u));
      d = urgency_levels_update (if used then update_where (\<lambda>x. ul_id x = ul_id u) (\<lambda>r. r\<lparr>ul_active := False\<rparr>)
        else delete_where (\<lambda>x. ul_id x = ul_id u)) (db s)
    in delete_urgency_level sc (ul_id u) s = (Inr \<lparr>tdr_id = ul_id u, tdr_deleted = (\<not> used), tdr_active = False\<rparr>, s\<lparr>db := d\<rparr>) \<and> db_ok d)"
  using category_table.delete_or_deactivate_run [of s c sc] urgency_table.delete_or_deactivate_run [of s u sc]
    category_table.deactivated_ok [OF ok, of "cat_id c"] category_table.deleted_ok [OF ok, of "cat_id c"]
    urgency_table.deactivated_ok [OF ok, of "ul_id u"] urgency_table.deleted_ok [OF ok, of "ul_id u"] assms
  by (auto simp: Let_def delete_category_def delete_urgency_level_def CategoryRepository_def UrgencyLevelRepository_def)

theorem taxonomy_delete_effect_witness:
  "tdr_deleted (projr (fst (delete_category (demo_scope 11 ADMIN) 40 demo_world))) \<and>
   urgency_levels (db (snd (delete_urgency_level (demo_scope 11 ADMIN) 51 demo_world))) = [mk_urgency 50 10 ''High'' 24 False]"
proof -
  have "mk_category 40 10 \<in> set (categories (db demo_world))" "cat_organization_id (mk_category 40 10) = 10"
    "mk_urgency 51 10 ''Medium'' 48 True \<in> set (urgency_levels (db demo_world))"
    "ul_organization_id (mk_urgency 51 10 ''Medium'' 48 True) = 10"
    by (simp_all add: demo_db_def mk_category_def mk_urgency_def)
  from taxonomy_delete_effect [of demo_world _ "demo_scope 11 ADMIN", OF _ this(1) _ this(3)] this(2,4) demo_db_ok
  show ?thesis
    by (simp add: Let_def demo_db_def mk_category_def mk_urgency_def mk_ticket_def delete_where_def)
qed

section \<open>Creating contracts\<close>

lemma db_ok_insert_contract:
  assumes "db_ok d" "c_id c \<notin> set (contract_pks d)" "c_property_id c \<in> set (property_pks d)" "c_tenant_id c \<in> set (user_pks d)"
  shows "db_ok (contracts_update (\<lambda>rs. rs @ [c]) d) \<longleftrightarrow> c_start_date c \<le> c_end_date c"
  using assms by (auto simp: db_ok_def table_ok_defs contract_row_ok_def)

lemma get_or_404_found_iff:
  assumes "distinct (map (pk R) (rows R (db s)))"
  shows "(\<exists>r\<in>set (rows R (db s)). pk R r = i \<and> clause R sc (db s) r \<and> get_or_404 R sc (Some i) s = (Inr r, s)) \<or>
    (\<forall>r\<in>set (rows R (db s)). pk R r = i \<longrightarrow> \<not> clause R sc (db s) r) \<and>
      get_or_404 R sc (Some i) s = (Inl (Raised (NotFoundError (model_name R) (Some i))), s)"
proof (cases "\<exists>r\<in>set (rows R (db s)). pk R r = i \<and> clause R sc (db s) r")
  case True
  then show ?thesis using get_or_404_visible [OF assms] by blast
next
  case False
  then have "filter (\<lambda>r. Some i = Some (pk R r)) (select_rows R sc (db s)) = []"
    by (auto simp: filter_empty_conv select_rows_def)
  from get_or_404_not_found [OF this] False show ?thesis by blast
qed

text \<open>C28: creating a contract, every branch in the order of the code. The property must be a live one of
  the caller's organization and the tenant a person of it (404 otherwise, foreign and missing alike),
  with the role tenant (422); then the contract is added, active, under a fresh id. Dates in the wrong
  order are not checked by the service and surface as an integrity error of the database.\<close>

theorem create_contract_outcomes:
  assumes ok: "db_ok (db s)" and u: "uuids s = u # us" "u \<notin> set (contract_pks (db s))"
  shows "create_contract sc pid tid since till s =
    (if \<not> (\<exists>p\<in>set (properties (db s)). p_id p = pid \<and> p_organization_id p = organization_id sc \<and> p_deleted_at p = None)
       then (Inl (Raised (NotFoundError ''Property'' (Some pid))), s)
     else if \<not> (\<exists>x\<in>set (users (db s)). u_id x = tid \<and> u_organization_id x = Some (organization_id sc))
       then (Inl (Raised (NotFoundError ''User'' (Some tid))), s)
     else if \<not> (\<exists>x\<in>set (users (db s)). u_id x = tid \<and> u_role x = TENANT)
       then (Inl (Raised InvalidTenantRoleError), s)
     else let c = \<lparr>c_id = u, c_created_at = now s, c_property_id = pid, c_tenant_id = tid, c_start_date = since,
                    c_end_date = till, c_status = CONTRACT_ACTIVE\<rparr>
       in (if since \<le> till then Inr c else Inl (Raised IntegrityError),
           s\<lparr>uuids := us, db := contracts_update (\<lambda>rs. rs @ [c]) (db s)\<rparr>))"
proof (cases "\<exists>p\<in>set (properties (db s)). p_id p = pid \<and> p_organization_id p = organization_id sc \<and> p_deleted_at p = None")
  case False
  then have "get_or_404 PropertyRepository sc (Some pid) s = (Inl (Raised (NotFoundError ''Property'' (Some pid))), s)"
    using get_or_404_found_iff [of PropertyRepository s pid sc] db_ok_distinct(1) [OF ok] by (auto simp: PropertyRepository_def)
  with False show ?thesis by (simp add: create_contract_def bind_Inl)
next
  case live: True
  then obtain p where "get_or_404 PropertyRepository sc (Some pid) s = (Inr p, s)" "pid \<in> set (property_pks (db s))"
    using get_or_404_found_iff [of PropertyRepository s pid sc] db_ok_distinct(1) [OF ok] by (auto simp: PropertyRepository_def)
  note prop_run = this
  show ?thesis
  proof (cases "\<exists>x\<in>set (users (db s)). u_id x = tid \<and> u_organization_id x = Some (organization_id sc)")
    case False
    then have "get_or_404 UserRepository sc (Some tid) s = (Inl (Raised (NotFoundError ''User'' (Some tid))), s)"
      using get_or_404_found_iff [of UserRepository s tid sc] db_ok_distinct(7) [OF ok] by (auto simp: UserRepository_def)
    with False live prop_run show ?thesis by (simp add: create_contract_def bind_Inl bind_Inr)
  next
    case True
    then obtain x where x: "get_or_404 UserRepository sc (Some tid) s = (Inr x, s)" "x \<in> set (users (db s))" "u_id x = tid"
      using get_or_404_found_iff [of UserRepository s tid sc] db_ok_distinct(7) [OF ok] by (auto simp: UserRepository_def)
    have tenant: "(\<exists>y\<in>set (users (db s)). u_id y = tid \<and> u_role y = TENANT) \<longleftrightarrow> u_role x = TENANT"
      using x(2,3) distinct_map_eq [OF db_ok_distinct(7) [OF ok] _ x(2)] by metis
    let ?c = "\<lparr>c_id = u, c_created_at = now s, c_property_id = pid, c_tenant_id = tid, c_start_date = since,
                    c_end_date = till, c_status = CONTRACT_ACTIVE\<rparr>"
    have "db_ok (contracts_update (\<lambda>rs. rs @ [?c]) (db s)) \<longleftrightarrow> since \<le> till"
      using db_ok_insert_contract [OF ok, of ?c] u(2) prop_run(2) x(2,3) by auto
    with live True prop_run(1) x(1) u(1) show ?thesis
      by (simp add: create_contract_def bind_Inr andthen_def bind_raise_if bind_reads add_row_def Let_def tenant
          insert_row_def bind_update_db bind_flush ret_run raise_run ContractRepository_def bind_assoc bind_uuid4 bind_ret)
  qed
qed

theorem create_contract_outcomes_witness:
  "fst (create_contract (demo_scope 11 ADMIN) 30 13 5 4 demo_world) = Inl (Raised IntegrityError) \<and>
   fst (create_contract (demo_scope 11 ADMIN) 30 12 5 4 demo_world) = Inl (Raised InvalidTenantRoleError) \<and>
   fst (create_contract (demo_scope 11 ADMIN) 30 21 5 4 demo_world) = Inl (Raised (NotFoundError ''User'' (Some 21)))"
proof -
  have "uuids demo_world = 100 # [101, 102, 103, 104, 105]" "100 \<notin> set (contract_pks (db demo_world))" "db_ok (db demo_world)"
    using demo_db_ok by (simp_all add: demo_world_def demo_db_def contract_a_def)
  from create_contract_outcomes [OF this(3,1,2), of "demo_scope 11 ADMIN"]
  show ?thesis by (simp add: Let_def demo_db_def property_a_def mk_user_def)
qed

section \<open>Creating an organization\<close>

lemma add_rows_run:
  assumes comp: "\<And>f g d. upd_rows R f (upd_rows R g d) = upd_rows R (\<lambda>rs. f (g rs)) d"
    and ident: "\<And>d. upd_rows R (\<lambda>rs. rs) d = d"
    and "uuids s = us @ rest" "length us = length xs"
  shows "for_each xs (\<lambda>x. bind (add_row R sc (mk x)) (\<lambda>_. ret ())) s =
    (Inr (), s\<lparr>uuids := rest, db := upd_rows R (\<lambda>rs. rs @ map2 (\<lambda>u x. force_org R (organization_id sc) (mk x u)) us xs) (db s)\<rparr>)"
  using assms(3,4)
proof (induction xs arbitrary: s us)
  case Nil
  then show ?case by (simp add: ret_run ident)
next
  case (Cons x xs)
  then obtain u us' where us: "us = u # us'" "length us' = length xs" by (cases us) auto
  let ?s = "s\<lparr>uuids := us' @ rest, db := upd_rows R (\<lambda>rs. rs @ [force_org R (organization_id sc) (mk x u)]) (db s)\<rparr>"
  have "add_row R sc (mk x) s = (Inr (force_org R (organization_id sc) (mk x u)), ?s)"
    using Cons.prems us by (simp add: add_row_def bind_uuid4 Let_def insert_row_def andthen_def bind_update_db ret_run)
  then have "for_each (x # xs) (\<lambda>x. bind (add_row R sc (mk x)) (\<lambda>_. ret ())) s =
      for_each xs (\<lambda>x. bind (add_row R sc (mk x)) (\<lambda>_. ret ())) ?s"
    by (simp add: andthen_run bind_assoc bind_Inr bind_ret)
  with Cons.IH [of ?s us'] us show ?case by (simp add: comp)
qed

lemma distinct_append_keys:
  "distinct (map k (rs @ ns)) \<longleftrightarrow> distinct (map k rs) \<and> distinct (map k ns) \<and> k ` set rs \<inter> k ` set ns = {}"
  by auto

lemma db_ok_add_categories:
  assumes ok: "db_ok d" and org: "\<forall>c\<in>set ns. cat_organization_id c = org" "org \<in> set (org_pks d)"
    and new: "\<forall>c\<in>set (categories d). cat_organization_id c \<noteq> org"
    and keys: "distinct (map cat_id ns)" "cat_id ` set ns \<inter> set (category_pks d) = {}"
    and names: "distinct (map (\<lambda>c. py_lower (btrim (cat_name c))) ns)"
  shows "db_ok (categories_update (\<lambda>rs. rs @ ns) d)"
proof (rule db_ok_categories [OF ok])
  have old: "categories_ok d" using ok by (simp add: db_ok_def)
  have "distinct (map (\<lambda>r. (cat_organization_id r, py_lower (btrim (cat_name r)))) ns)"
    using names by (auto simp: distinct_map inj_on_def)
  then have "unique_on (\<lambda>_. True) (\<lambda>r. (cat_organization_id r, py_lower (btrim (cat_name r)))) (categories d @ ns)"
    using old org(1) new by (auto simp: categories_ok_def unique_on_def)
  moreover have "fk_ok (\<lambda>r. Some (cat_organization_id r)) (categories d @ ns) (org_pks d)"
    using old org by (auto simp: categories_ok_def fk_ok_def list_all_iff)
  ultimately show "categories_ok (categories_update (\<lambda>rs. rs @ ns) d)"
    using old keys by (auto simp: categories_ok_def)
  show "fk_ok t_category_id (tickets d) (map cat_id (categories d @ ns))"
    using db_ok_fk_taxonomy(1) [OF ok] by simp
qed

lemma db_ok_add_urgency_levels:
  assumes ok: "db_ok d" and org: "\<forall>c\<in>set ns. ul_organization_id c = org" "org \<in> set (org_pks d)"
    and new: "\<forall>c\<in>set (urgency_levels d). ul_organization_id c \<noteq> org"
    and keys: "distinct (map ul_id ns)" "ul_id ` set ns \<inter> set (urgency_pks d) = {}"
    and names: "distinct (map (\<lambda>c. py_lower (btrim (ul_name c))) ns)" and sla: "\<forall>c\<in>set ns. 0 < ul_sla_hours c"
  shows "db_ok (urgency_levels_update (\<lambda>rs. rs @ ns) d)"
proof (rule db_ok_urgency_levels [OF ok])
  have old: "urgency_levels_ok d" using ok by (simp add: db_ok_def)
  have "distinct (map (\<lambda>r. (ul_organization_id r, py_lower (btrim (ul_name r)))) ns)"
    using names by (auto simp: distinct_map inj_on_def)
  then have "unique_on (\<lambda>_. True) (\<lambda>r. (ul_organization_id r, py_lower (btrim (ul_name r)))) (urgency_levels d @ ns)"
    using old org(1) new by (auto simp: urgency_levels_ok_def unique_on_def)
  moreover have "fk_ok (\<lambda>r. Some (ul_organization_id r)) (urgency_levels d @ ns) (org_pks d)"
    using old org by (auto simp: urgency_levels_ok_def fk_ok_def list_all_iff)
  moreover have "list_all urgency_row_ok (urgency_levels d @ ns)"
    using old sla by (auto simp: urgency_levels_ok_def list_all_iff urgency_row_ok_def)
  ultimately show "urgency_levels_ok (urgency_levels_update (\<lambda>rs. rs @ ns) d)"
    using old keys by (auto simp: urgency_levels_ok_def)
  show "fk_ok t_urgency_id (tickets d) (map ul_id (urgency_levels d @ ns))"
    using db_ok_fk_taxonomy(2) [OF ok] by simp
qed

lemma db_ok_add_organization:
  assumes ok: "db_ok d" and fresh: "o_id org \<notin> set (org_pks d)" "o_chat_widget_key org \<notin> o_chat_widget_key ` set (organizations d)"
    and plain: "o_whatsapp_phone_number_id org = None" "o_whatsapp_access_token_encrypted org = None" "o_support_email_address org = None"
  shows "db_ok (organizations_update (\<lambda>rs. rs @ [org]) d) \<longleftrightarrow>
    not_blank (o_name org) \<and> not_blank (o_timezone org) \<and>
    (\<forall>r\<in>set (organizations d). py_lower (btrim (o_name r)) \<noteq> py_lower (btrim (o_name org)))"
proof -
  have "organizations_ok d" using ok by (simp add: db_ok_def)
  then have "organizations_ok (organizations_update (\<lambda>rs. rs @ [org]) d) \<longleftrightarrow>
      not_blank (o_name org) \<and> not_blank (o_timezone org) \<and>
      (\<forall>r\<in>set (organizations d). py_lower (btrim (o_name r)) \<noteq> py_lower (btrim (o_name org)))"
    using fresh plain
    by (auto simp: organizations_ok_def unique_on_append organization_row_ok_def) (metis image_eqI)
  moreover have "db_ok (organizations_update (\<lambda>rs. rs @ [org]) d) \<longleftrightarrow> organizations_ok (organizations_update (\<lambda>rs. rs @ [org]) d)"
    using ok by (simp add: db_ok_def table_ok_defs)
  ultimately show ?thesis by simp
qed

definition seeded_category :: "uuid \<Rightarrow> int \<Rightarrow> uuid \<Rightarrow> CategorySeed \<Rightarrow> category" where
  "seeded_category org ts u seed = \<lparr>cat_id = u, cat_created_at = ts, cat_organization_id = org, cat_name = seed_name seed,
     cat_description = Some (seed_description seed), cat_active = True\<rparr>"

definition seeded_urgency :: "uuid \<Rightarrow> int \<Rightarrow> uuid \<Rightarrow> UrgencySeed \<Rightarrow> urgency_level" where
  "seeded_urgency org ts u seed = \<lparr>ul_id = u, ul_created_at = ts, ul_organization_id = org, ul_name = useed_name seed,
     ul_description = None, ul_sla_hours = useed_sla_hours seed, ul_sort_order = useed_sort_order seed, ul_active = True,
     ul_respects_business_hours = useed_respects_business_hours seed\<rparr>"

definition with_taxonomy :: "uuid \<Rightarrow> int \<Rightarrow> uuid list \<Rightarrow> uuid list \<Rightarrow> database \<Rightarrow> database" where
  "with_taxonomy org ts cs us d =
     urgency_levels_update (\<lambda>rs. rs @ map2 (seeded_urgency org ts) us DEFAULT_URGENCY_LEVELS)
       (categories_update (\<lambda>rs. rs @ map2 (seeded_category org ts) cs DEFAULT_CATEGORIES) d)"

lemma seed_default_taxonomy_run:
  assumes "uuids s = cs @ us @ rest" "length cs = length DEFAULT_CATEGORIES" "length us = length DEFAULT_URGENCY_LEVELS"
  shows "seed_default_taxonomy sc s = (Inr (), s\<lparr>uuids := rest, db := with_taxonomy (organization_id sc) (now s) cs us (db s)\<rparr>)"
  using add_rows_run [of CategoryRepository s cs "us @ rest" DEFAULT_CATEGORIES]
    add_rows_run [of UrgencyLevelRepository _ us rest DEFAULT_URGENCY_LEVELS] assms
  by (simp add: seed_default_taxonomy_def bind_reads andthen_def bind_Inr CategoryRepository_def UrgencyLevelRepository_def
      with_taxonomy_def seeded_category_def seeded_urgency_def comp_def)

lemma map2_snd: "length us = length xs \<Longrightarrow> (\<And>u x. g (f u x) = h x) \<Longrightarrow> map g (map2 f us xs) = map h xs"
  by (induction us xs rule: list_induct2) simp_all

lemma map2_fst: "length us = length xs \<Longrightarrow> (\<And>u x. g (f u x) = u) \<Longrightarrow> map g (map2 f us xs) = us"
  by (induction us xs rule: list_induct2) simp_all

lemma default_names_distinct:
  "distinct (map (\<lambda>c. py_lower (btrim (seed_name c))) DEFAULT_CATEGORIES)"
  "distinct (map (\<lambda>c. py_lower (btrim (useed_name c))) DEFAULT_URGENCY_LEVELS)"
  "\<forall>c\<in>set DEFAULT_URGENCY_LEVELS. 0 < useed_sla_hours c"
  by code_simp+

lemma db_ok_with_taxonomy:
  assumes ok: "db_ok d" and org: "org \<in> set (org_pks d)" "\<forall>c\<in>set (categories d). cat_organization_id c \<noteq> org"
      "\<forall>c\<in>set (urgency_levels d). ul_organization_id c \<noteq> org"
    and cs: "length cs = length DEFAULT_CATEGORIES" "distinct cs" "set cs \<inter> set (category_pks d) = {}"
    and us: "length us = length DEFAULT_URGENCY_LEVELS" "distinct us" "set us \<inter> set (urgency_pks d) = {}"
  shows "db_ok (with_taxonomy org ts cs us d)"
proof -
  let ?cs = "map2 (seeded_category org ts) cs DEFAULT_CATEGORIES" and ?us = "map2 (seeded_urgency org ts) us DEFAULT_URGENCY_LEVELS"
  have c: "map cat_id ?cs = cs" "map (\<lambda>c. py_lower (btrim (cat_name c))) ?cs = map (\<lambda>c. py_lower (btrim (seed_name c))) DEFAULT_CATEGORIES"
    using cs(1) by (auto intro!: map2_fst map2_snd simp: seeded_category_def simp del: map_map)
  have u: "map ul_id ?us = us" "map (\<lambda>c. py_lower (btrim (ul_name c))) ?us = map (\<lambda>c. py_lower (btrim (useed_name c))) DEFAULT_URGENCY_LEVELS"
    using us(1) by (auto intro!: map2_fst map2_snd simp: seeded_urgency_def simp del: map_map)
  have ids: "cat_id ` set ?cs = set cs" "ul_id ` set ?us = set us"
    using arg_cong [OF c(1), of set] arg_cong [OF u(1), of set] by (simp_all only: set_map)
  have owned: "\<forall>c\<in>set ?cs. cat_organization_id c = org" "\<forall>c\<in>set ?us. ul_organization_id c = org"
    "\<forall>c\<in>set ?us. 0 < ul_sla_hours c"
    using default_names_distinct(3) by (auto simp: seeded_category_def seeded_urgency_def dest!: set_zip_rightD)
  have frame: "organizations (categories_update f d) = organizations d" "urgency_levels (categories_update f d) = urgency_levels d" for f
    by simp_all
  have cats: "db_ok (categories_update (\<lambda>rs. rs @ ?cs) d)"
    by (rule db_ok_add_categories [OF ok owned(1) org(1,2)]) (use cs c ids default_names_distinct(1) in \<open>simp_all only:\<close>)
  have "db_ok (urgency_levels_update (\<lambda>rs. rs @ ?us) (categories_update (\<lambda>rs. rs @ ?cs) d))"
    by (rule db_ok_add_urgency_levels [OF cats owned(2) _ _ _ _ _ owned(3)])
      (use org us u ids default_names_distinct(2) in \<open>simp_all only: frame\<close>)
  then show ?thesis by (simp only: with_taxonomy_def)
qed

text \<open>C24: a new organization. When the name is not blank and no organization has it (up to case and
  surrounding blanks), and the time zone is not blank, the organization is created with the given or default
  time zone and business hours and a fresh widget key, together with its six categories and four urgency
  levels under their default names, hours, order and calendar; nothing else changes. Otherwise the call
  raises the conflict error, a blank name or time zone included.\<close>

theorem create_organization_effect:
  assumes ok: "db_ok (db s)"
    and ids: "uuids s = u # cs @ us @ rest" "length cs = 6" "length us = 4" "distinct (cs @ us)"
      "u \<notin> set (org_pks (db s))" "set cs \<inter> set (category_pks (db s)) = {}" "set us \<inter> set (urgency_pks (db s)) = {}"
    and key: "tokens s = key # toks" "key \<notin> o_chat_widget_key ` set (organizations (db s))"
  shows "let tz = (case timezone of None \<Rightarrow> DEFAULT_TIMEZONE | Some tz \<Rightarrow> tz);
      org = \<lparr>o_id = u, o_created_at = now s, o_name = name, o_chat_widget_key = key, o_whatsapp_phone_number_id = None,
        o_whatsapp_access_token_encrypted = None, o_support_email_address = None, o_timezone = tz,
        o_business_hours = (case calendar of None \<Rightarrow> DEFAULT_BUSINESS_HOURS | Some bh \<Rightarrow> bh)\<rparr>;
      d = with_taxonomy u (now s) cs us (organizations_update (\<lambda>rs. rs @ [org]) (db s))
    in if not_blank name \<and> not_blank tz \<and> (\<forall>r\<in>set (organizations (db s)). py_lower (btrim (o_name r)) \<noteq> py_lower (btrim name))
      then create_organization name actor timezone calendar s = (Inr org, s\<lparr>tokens := toks, uuids := rest, db := d\<rparr>) \<and> db_ok d
      else fst (create_organization name actor timezone calendar s) = Inl (Raised ConflictError)"
proof -
  define tz where "tz = (case timezone of None \<Rightarrow> DEFAULT_TIMEZONE | Some tz \<Rightarrow> tz)"
  define org where "org = \<lparr>o_id = u, o_created_at = now s, o_name = name, o_chat_widget_key = key, o_whatsapp_phone_number_id = None,
        o_whatsapp_access_token_encrypted = None, o_support_email_address = None, o_timezone = tz,
        o_business_hours = (case calendar of None \<Rightarrow> DEFAULT_BUSINESS_HOURS | Some bh \<Rightarrow> bh)\<rparr>"
  define d1 where "d1 = organizations_update (\<lambda>rs. rs @ [org]) (db s)"
  let ?good = "not_blank name \<and> not_blank tz \<and> (\<forall>r\<in>set (organizations (db s)). py_lower (btrim (o_name r)) \<noteq> py_lower (btrim name))"
  have ok1: "db_ok d1 \<longleftrightarrow> ?good"
    using db_ok_add_organization [OF ok, of org] ids(5) key(2) by (simp add: d1_def org_def)
  have start: "create_organization name actor timezone calendar s =
      andthen (on_integrity_error flush (throw ConflictError))
        (andthen (seed_default_taxonomy (for_new_organization u actor)) (andthen flush (ret org)))
        (s\<lparr>tokens := toks, uuids := cs @ us @ rest, db := d1\<rparr>)"
    using ids(1) key(1)
    by (simp add: create_organization_def bind_reads bind_new_opaque_token organization_add_def bind_assoc bind_uuid4 Let_def
        andthen_def bind_update_db bind_ret d1_def org_def tz_def)
  have run: "create_organization name actor timezone calendar s =
      (Inr org, s\<lparr>tokens := toks, uuids := rest, db := with_taxonomy u (now s) cs us d1\<rparr>) \<and> db_ok (with_taxonomy u (now s) cs us d1)"
    if good: ?good
  proof -
    have len: "length cs = length DEFAULT_CATEGORIES" "length us = length DEFAULT_URGENCY_LEVELS"
      using ids(2,3) by (simp_all add: DEFAULT_CATEGORIES_def DEFAULT_URGENCY_LEVELS_def)
    have "\<forall>c\<in>set (categories (db s)). cat_organization_id c \<noteq> u" "\<forall>c\<in>set (urgency_levels (db s)). ul_organization_id c \<noteq> u"
      using ok ids(5) by (auto simp: db_ok_def categories_ok_def urgency_levels_ok_def fk_ok_def list_all_iff)
    then have "db_ok (with_taxonomy u (now s) cs us d1)"
      using good ok1 len ids(4-7) by (intro db_ok_with_taxonomy) (auto simp: d1_def org_def)
    with good ok1 seed_default_taxonomy_run [of "s\<lparr>tokens := toks, uuids := cs @ us @ rest, db := d1\<rparr>" cs us rest, OF _ len]
    show ?thesis
      by (simp add: start andthen_def bind_assoc bind_def on_integrity_error_run flush_run for_new_organization_def ret_run)
  qed
  have "fst (create_organization name actor timezone calendar s) = Inl (Raised ConflictError)" if "\<not> ?good"
  proof -
    have "\<not> db_ok d1" using that ok1 by blast
    then show ?thesis by (simp add: start andthen_def bind_def on_integrity_error_run flush_run raise_run)
  qed
  with run show ?thesis unfolding Let_def d1_def org_def tz_def by (simp only: split: if_split) blast
qed

theorem create_organization_effect_witness:
  "\<exists>org s'. create_organization '' Cove '' (mk_user 1 10 ''root@x'' ADMIN) (Some ''UTC'') None
      (demo_world\<lparr>uuids := [100, 101, 102, 103, 104, 105, 106, 107, 108, 109, 110]\<rparr>) = (Inr org, s') \<and>
    o_name org = '' Cove '' \<and> o_business_hours org = DEFAULT_BUSINESS_HOURS \<and> length (categories (db s')) = 8 \<and> db_ok (db s')"
proof -
  let ?s = "demo_world\<lparr>uuids := [100, 101, 102, 103, 104, 105, 106, 107, 108, 109, 110]\<rparr>"
  have hyps: "db_ok (db ?s)" "uuids ?s = 100 # [101, 102, 103, 104, 105, 106] @ [107, 108, 109, 110] @ []"
    "distinct ([101, 102, 103, 104, 105, 106] @ [107, 108, 109, 110 :: uuid])"
    "100 \<notin> set (org_pks (db ?s))" "set [101, 102, 103, 104, 105, 106] \<inter> set (category_pks (db ?s)) = {}"
    "set [107, 108, 109, 110] \<inter> set (urgency_pks (db ?s)) = {}"
    "tokens ?s = ''tok-0'' # [''tok-1'', ''tok-2'']" "''tok-0'' \<notin> o_chat_widget_key ` set (organizations (db ?s))"
    using demo_db_ok by (simp_all add: demo_world_def demo_db_def org_a_def org_b_def mk_category_def mk_urgency_def)
  have good: "not_blank '' Cove '' \<and> not_blank ''UTC'' \<and>
      (\<forall>r\<in>set (organizations (db ?s)). py_lower (btrim (o_name r)) \<noteq> py_lower (btrim '' Cove ''))"
    by code_simp
  from create_organization_effect [OF hyps(1,2) _ _ hyps(3-8), where name = "'' Cove ''" and timezone = "Some ''UTC''" and calendar = None
      and actor = "mk_user 1 10 ''root@x'' ADMIN"] good
  show ?thesis
    by (simp add: Let_def with_taxonomy_def demo_db_def DEFAULT_CATEGORIES_def del: length_zip)
qed

text \<open>An incomplete WhatsApp configuration is reported as a conflict. Setting the phone number id of an
  organization that has no access token violates the constraint that the two come together, and the
  service answers that the update conflicts with an existing organization, although none has the number.\<close>

definition toy_fernet :: fernet where
  "toy_fernet = \<lparr>key_ok = (\<lambda>_. True), multi_encrypt = (\<lambda>ks p. hd ks @ p), multi_decrypt = (\<lambda>ks c. Some c)\<rparr>"

theorem incomplete_whatsapp_config_conflicts:
  "fst (update_organization toy_fernet ''key'' 10 (\<lambda>r. r\<lparr>o_whatsapp_phone_number_id := Some ''551''\<rparr>) None demo_world) =
     Inl (Raised ConflictError) \<and>
   (\<forall>r\<in>set (organizations (db demo_world)). o_whatsapp_phone_number_id r \<noteq> Some ''551'') \<and>
   \<not> isl (fst (update_organization toy_fernet ''key'' 10 (\<lambda>r. r\<lparr>o_whatsapp_phone_number_id := Some ''551''\<rparr>) (Some (Some ''tok'')) demo_world))"
  by code_simp

end
