(* ===== verification/Channels.thy ===== *)
theory Channels
  imports Tickets Security
begin

text \<open>
  What the inbound channels share: \<open>src/app/services/channel_metadata.py\<close> (the JSON of a row's
  \<open>channel_metadata\<close>), \<open>src/app/services/email_threading.py\<close> (the text of subjects and reference
  headers) and \<open>src/app/services/channel_identity.py\<close> (who a sender is).

  The regular expressions are written out as functions on character lists: \<open>\s\<close> is \<open>str.isspace\<close>,
  a repetition is greedy, and \<open>sub\<close> goes on after the match.
\<close>

section \<open>Channel metadata\<close>

text \<open>\<open>dict(metadata) if metadata else {}\<close>; \<open>list(v)\<close> and \<open>x in v\<close> raise \<open>TypeError\<close> on a
  value that cannot be iterated.\<close>

fun json_falsy :: "json \<Rightarrow> bool" where
  "json_falsy JNull = True"
| "json_falsy (JBool b) = (\<not> b)"
| "json_falsy (JInt n) = (n = 0)"
| "json_falsy (JFloat x) = (x = 0)"
| "json_falsy (JStr t) = (t = [])"
| "json_falsy (JArr xs) = (xs = [])"
| "json_falsy (JObj fs) = (fs = [])"

definition as_dict :: "json option \<Rightarrow> error + (string \<times> json) list" where
  "as_dict metadata = (case metadata of
      None \<Rightarrow> Inr []
    | Some (JObj fs) \<Rightarrow> Inr fs
    | Some v \<Rightarrow> if json_falsy v then Inr [] else Inl TypeError)"

fun json_items :: "json \<Rightarrow> error + json list" where
  "json_items (JArr xs) = Inr xs"
| "json_items (JStr t) = Inr (map (\<lambda>c. JStr [c]) t)"
| "json_items (JObj fs) = Inr (map (\<lambda>(k, v). JStr k) fs)"
| "json_items _ = Inl TypeError"

fun is_substring :: "string \<Rightarrow> string \<Rightarrow> bool" where
  "is_substring p [] = (p = [])"
| "is_substring p (c # cs) = (py_startswith (c # cs) p \<or> is_substring p cs)"

fun json_in :: "string \<Rightarrow> json \<Rightarrow> error + bool" where
  "json_in x (JArr xs) = Inr (JStr x \<in> set xs)"
| "json_in x (JStr t) = Inr (is_substring x t)"
| "json_in x (JObj fs) = Inr (x \<in> fst ` set fs)"
| "json_in x _ = Inl TypeError"

definition json_get :: "(string \<times> json) list \<Rightarrow> string \<Rightarrow> json \<Rightarrow> json" where
  "json_get fs key dflt = (case map_of fs key of None \<Rightarrow> dflt | Some v \<Rightarrow> v)"

definition with_appended :: "json option \<Rightarrow> string \<Rightarrow> json \<Rightarrow> nat option \<Rightarrow> error + json" where
  "with_appended metadata key v cap =
    (case as_dict metadata of Inl e \<Rightarrow> Inl e | Inr result \<Rightarrow>
     case json_items (json_get result key (JArr [])) of Inl e \<Rightarrow> Inl e | Inr existing \<Rightarrow>
       let appended = existing @ [v];
           kept = (case cap of None \<Rightarrow> appended | Some n \<Rightarrow> if n = 0 then appended else take_last n appended)
       in Inr (JObj (dict_set key (JArr kept) result)))"

fun dict_update :: "(string \<times> json) list \<Rightarrow> (string \<times> json) list \<Rightarrow> (string \<times> json) list" where
  "dict_update result [] = result"
| "dict_update result ((k, v) # updates) = dict_update (dict_set k v result) updates"

definition with_values :: "json option \<Rightarrow> (string \<times> json) list \<Rightarrow> error + json" where
  "with_values metadata updates =
    (case as_dict metadata of Inl e \<Rightarrow> Inl e | Inr result \<Rightarrow> Inr (JObj (dict_update result updates)))"

definition contains :: "json option \<Rightarrow> string \<Rightarrow> string \<Rightarrow> error + bool" where
  "contains metadata key v =
    (case metadata of
       None \<Rightarrow> Inr False
     | Some (JObj fs) \<Rightarrow> if fs = [] then Inr False else json_in v (json_get fs key (JArr []))
     | Some j \<Rightarrow> if json_falsy j then Inr False else Inl AttributeError)"

section \<open>E-mail threading\<close>

text \<open>\<open>^(re|fwd|fw)\s*:?\s*\<close>, ignoring case: the rest of the text after a match.\<close>

definition after_marker :: "string \<Rightarrow> string" where
  "after_marker cs = (case dropWhile py_isspace cs of
      c # ds \<Rightarrow> if c = CHR '':'' then dropWhile py_isspace ds else c # ds
    | [] \<Rightarrow> [])"

definition strip_reply_prefix :: "string \<Rightarrow> string option" where
  "strip_reply_prefix t =
    (let low = py_lower t
     in if py_startswith low ''re'' then Some (after_marker (drop 2 t))
        else if py_startswith low ''fwd'' then Some (after_marker (drop 3 t))
        else if py_startswith low ''fw'' then Some (after_marker (drop 2 t))
        else None)"

text \<open>\<open>\[#([0-9a-f]{8})\]\<close> at the start of the text: the eight digits and the rest.\<close>

definition match_ticket_tag :: "string \<Rightarrow> (string \<times> string) option" where
  "match_ticket_tag t =
    (let tag = take 8 (drop 2 t)
     in if take 2 t = ''[#'' \<and> length tag = 8 \<and> list_all (\<lambda>c. c \<in> set ''0123456789abcdef'') tag \<and>
           take 1 (drop 10 t) = '']'' then Some (tag, drop 11 t) else None)"

lemma length_after_marker: "length (after_marker cs) \<le> length cs"
proof (cases "dropWhile py_isspace cs")
  case (Cons c ds)
  have "length (c # ds) \<le> length cs" unfolding Cons [symmetric] by (rule length_dropWhile_le)
  moreover have "length (dropWhile py_isspace ds) \<le> length ds" by (rule length_dropWhile_le)
  ultimately show ?thesis by (simp add: after_marker_def Cons)
next
  case Nil
  then show ?thesis unfolding after_marker_def by (simp only: list.case list.size)
qed

lemma py_startswith_length:
  assumes "py_startswith t p"
  shows "length p \<le> length t"
proof -
  have "length (take (length p) t) = length p" using assms by (simp add: py_startswith_def)
  then show ?thesis by simp
qed

lemma strip_reply_prefix_shorter: "strip_reply_prefix t = Some u \<Longrightarrow> length u < length t"
proof -
  assume h: "strip_reply_prefix t = Some u"
  have shorter: "length (after_marker (drop k t)) < length t" if "k \<le> length t" "0 < k" for k
    using length_after_marker [of "drop k t"] that by (metis diff_less length_drop order_le_less_trans order_less_le_trans)
  have low: "length (py_lower t) = length t" by (simp add: py_lower_def)
  show ?thesis
    using h py_startswith_length [of "py_lower t" "''re''"] py_startswith_length [of "py_lower t" "''fwd''"]
      py_startswith_length [of "py_lower t" "''fw''"] shorter [of 2] shorter [of 3]
    unfolding strip_reply_prefix_def Let_def low by (auto split: if_splits)
qed

lemma match_ticket_tag_length: "match_ticket_tag t = Some (tag, u) \<Longrightarrow> length u < length t"
  by (cases t) (auto simp: match_ticket_tag_def Let_def split: if_splits)

text \<open>The loop of \<open>normalize_subject\<close>: strip prefixes until the text no longer changes.\<close>

function strip_reply_prefixes :: "string \<Rightarrow> string" where
  "strip_reply_prefixes t = (case strip_reply_prefix t of None \<Rightarrow> t | Some u \<Rightarrow> strip_reply_prefixes u)"
  by pat_completeness auto
termination by (relation "measure length") (auto dest: strip_reply_prefix_shorter)

function remove_ticket_tags :: "string \<Rightarrow> string" where
  "remove_ticket_tags [] = []"
| "remove_ticket_tags (c # cs) = (case match_ticket_tag (c # cs) of
      Some (_, u) \<Rightarrow> remove_ticket_tags u
    | None \<Rightarrow> c # remove_ticket_tags cs)"
  by pat_completeness auto
termination
  by (relation "measure length") (auto dest: match_ticket_tag_length)

function collapse_whitespace :: "string \<Rightarrow> string" where
  "collapse_whitespace [] = []"
| "collapse_whitespace (c # cs) =
    (if py_isspace c then CHR '' '' # collapse_whitespace (dropWhile py_isspace cs) else c # collapse_whitespace cs)"
  by pat_completeness auto
termination
  by (relation "measure length") (auto simp: less_Suc_eq_le length_dropWhile_le)

declare strip_reply_prefixes.simps [simp del]

definition normalize_subject :: "string \<Rightarrow> string" where
  "normalize_subject subject =
    py_lower (py_strip (collapse_whitespace (remove_ticket_tags (strip_reply_prefixes subject))))"

fun first_occurrences :: "string list \<Rightarrow> string list \<Rightarrow> string list" where
  "first_occurrences seen [] = []"
| "first_occurrences seen (c # cs) =
    (if c = [] \<or> c \<in> set seen then first_occurrences seen cs else c # first_occurrences (c # seen) cs)"

definition extract_reference_ids :: "string option \<Rightarrow> string list \<Rightarrow> string list" where
  "extract_reference_ids in_reply_to references =
    first_occurrences [] ((case in_reply_to of None \<Rightarrow> [] | Some i \<Rightarrow> [i]) @ rev references)"

fun parse_ticket_tag :: "string \<Rightarrow> string option" where
  "parse_ticket_tag [] = None"
| "parse_ticket_tag (c # cs) =
    (case match_ticket_tag (c # cs) of Some (tag, _) \<Rightarrow> Some tag | None \<Rightarrow> parse_ticket_tag cs)"

record reply_headers =
  h_subject :: string
  h_in_reply_to :: string
  h_references :: string

definition build_reply_headers :: "uuid \<Rightarrow> string \<Rightarrow> string \<Rightarrow> string list \<Rightarrow> reply_headers" where
  "build_reply_headers ticket_id original_subject in_reply_to_message_id references_message_ids =
    (let tag = take 8 (uuid_str ticket_id);
         subject = (if parse_ticket_tag original_subject = None then original_subject @ '' [#'' @ tag @ '']''
                    else original_subject);
         references = (if in_reply_to_message_id \<in> set references_message_ids then references_message_ids
                       else references_message_ids @ [in_reply_to_message_id])
     in \<lparr>h_subject = subject, h_in_reply_to = in_reply_to_message_id, h_references = py_join '' '' references\<rparr>)"

section \<open>Sender identity\<close>

definition strip_msisdn :: "string \<Rightarrow> string" where
  "strip_msisdn raw = filter (\<lambda>c. \<not> (py_isspace c \<or> c \<in> set ''-()'')) (py_strip raw)"

definition normalize_msisdn :: "string \<Rightarrow> error + string" where
  "normalize_msisdn raw =
    (let stripped = strip_msisdn raw
     in if stripped = [] then Inl ValueError
        else let number = (if py_startswith stripped ''+'' then stripped else CHR ''+'' # stripped)
             in if is_e164 number then Inr number else Inl ValueError)"

definition find_user_by_email :: "string \<Rightarrow> user option service" where
  "find_user_by_email email = one_or_none (\<lambda>d. filter (\<lambda>u. py_lower (u_email u) = py_lower email) (users d))"

definition find_user_by_phone_number :: "string \<Rightarrow> user option service" where
  "find_user_by_phone_number phone = one_or_none (\<lambda>d. filter (\<lambda>u. u_phone_number u = Some phone) (users d))"

definition resolve_or_provision :: "uuid \<Rightarrow> user option \<Rightarrow> (uuid \<Rightarrow> int \<Rightarrow> user) \<Rightarrow> user service" where
  "resolve_or_provision org existing_user build_new_user =
    (case existing_user of
       Some u \<Rightarrow> andthen (throw_if (u_organization_id u \<noteq> Some org) CrossOrgSenderConflict) (ret u)
     | None \<Rightarrow> bind uuid4 (\<lambda>i. bind (reads now) (\<lambda>ts.
         let u = build_new_user i ts
         in andthen (insert_row UserRepository u) (andthen flush (ret u)))))"

definition or_else :: "string option \<Rightarrow> string \<Rightarrow> string" where
  "or_else x dflt = (case x of Some (c # cs) \<Rightarrow> c # cs | _ \<Rightarrow> dflt)"

definition resolve_email_sender_identity :: "uuid \<Rightarrow> string \<Rightarrow> string option \<Rightarrow> user service" where
  "resolve_email_sender_identity org email display_name = bind (find_user_by_email email) (\<lambda>existing.
    resolve_or_provision org existing (\<lambda>i ts. \<lparr>u_id = i, u_created_at = ts, u_organization_id = Some org,
      u_name = or_else display_name email, u_email = email, u_role = TENANT, u_password_hash = None,
      u_status = USER_PENDING, u_phone_number = None, u_auto_provisioned_channel = Some EMAIL\<rparr>))"

definition resolve_whatsapp_sender_identity :: "uuid \<Rightarrow> string \<Rightarrow> string option \<Rightarrow> user service" where
  "resolve_whatsapp_sender_identity org wa_id display_name =
    (case normalize_msisdn wa_id of
       Inl e \<Rightarrow> throw e
     | Inr phone \<Rightarrow> bind (find_user_by_phone_number phone) (\<lambda>existing.
        resolve_or_provision org existing (\<lambda>i ts. \<lparr>u_id = i, u_created_at = ts, u_organization_id = Some org,
          u_name = or_else display_name wa_id, u_email = ''wa+'' @ wa_id @ ''@whatsapp.invalid'', u_role = TENANT,
          u_password_hash = None, u_status = USER_PENDING, u_phone_number = Some phone,
          u_auto_provisioned_channel = Some WHATSAPP\<rparr>)))"

section \<open>Phone numbers\<close>

lemma dropWhile_none_of: "(\<And>c. c \<in> set xs \<Longrightarrow> \<not> P c) \<Longrightarrow> dropWhile P xs = xs"
  by (cases xs) auto

lemma py_strip_no_space:
  assumes "\<And>c. c \<in> set t \<Longrightarrow> \<not> py_isspace c"
  shows "py_strip t = t"
proof -
  have "dropWhile py_isspace t = t" "dropWhile py_isspace (rev t) = rev t"
    using assms by (auto intro!: dropWhile_none_of)
  then show ?thesis by (simp only: py_strip_def rev_rev_ident)
qed

text \<open>C31: what is stored as a phone number. Whatever the channel sent, a normalized number has the E.164 shape the
  column's constraint asks for, is its own normal form, and is the text sent without blanks, dashes and
  parentheses, with a plus sign in front when it had none.\<close>

theorem normalize_msisdn_e164:
  assumes "normalize_msisdn raw = Inr p"
  shows "is_e164 p \<and> normalize_msisdn p = Inr p \<and>
    p = (if py_startswith (strip_msisdn raw) ''+'' then strip_msisdn raw else ''+'' @ strip_msisdn raw)"
proof -
  have p: "is_e164 p" "p = (if py_startswith (strip_msisdn raw) ''+'' then strip_msisdn raw else CHR ''+'' # strip_msisdn raw)"
    using assms by (auto simp: normalize_msisdn_def Let_def split: if_splits)
  obtain d ds where shape: "p = CHR ''+'' # d # ds" "list_all is_digit ds" "d \<in> set ''123456789''"
    using p(1) by (cases p rule: is_e164.cases) auto
  have digits: "\<not> (py_isspace c \<or> c \<in> set ''-()'')" if "c \<in> set p" for c
  proof -
    have "\<forall>d\<in>set ''123456789''. d \<in> set ''+0123456789''" by code_simp
    with shape(3) have "d \<in> set ''+0123456789''" by blast
    moreover have "c \<in> set ''+0123456789''" if "c \<in> set ds" for c
      by (rule subsetD [OF set_subset_Cons bspec [OF shape(2) [unfolded list_all_iff is_digit_def] that]])
    moreover have "CHR ''+'' \<in> set ''+0123456789''" by (rule list.set_intros(1))
    moreover have "c = CHR ''+'' \<or> c = d \<or> c \<in> set ds" using \<open>c \<in> set p\<close> unfolding shape(1) list.set by blast
    ultimately have "c \<in> set ''+0123456789''" by blast
    moreover have "\<forall>c\<in>set ''+0123456789''. \<not> (py_isspace c \<or> c \<in> set ''-()'')" by code_simp
    ultimately show ?thesis by blast
  qed
  have strip: "py_strip p = p"
    using digits by (intro py_strip_no_space) blast
  have "strip_msisdn p = p" unfolding strip_msisdn_def strip using digits by (simp add: filter_id_conv)
  moreover have "py_startswith p ''+''" using shape(1) by (simp add: py_startswith_def)
  ultimately have "normalize_msisdn p = Inr p" using p(1) shape(1) by (simp add: normalize_msisdn_def Let_def)
  with p show ?thesis by simp
qed

theorem normalize_msisdn_e164_witness:
  "normalize_msisdn '' 54 (911) 2345-6789 '' = Inr ''+5491123456789'' \<and> is_e164 ''+5491123456789''"
proof -
  have run: "normalize_msisdn '' 54 (911) 2345-6789 '' = Inr ''+5491123456789''" by code_simp
  from normalize_msisdn_e164 [OF run] have "is_e164 ''+5491123456789''" by (rule conjunct1)
  with run show ?thesis by (rule conjI)
qed

section \<open>Senders\<close>

lemma find_unique:
  assumes "unique_on (\<lambda>_. True) key xs"
  shows "scalar_one_or_none (filter (\<lambda>r. key r = k) xs) = Some (find (\<lambda>r. key r = k) xs)"
proof -
  have d: "distinct (map key xs)" using assms by (simp add: unique_on_def)
  show ?thesis
  proof (cases "\<exists>r\<in>set xs. key r = k")
    case True
    then obtain r where r: "r \<in> set xs" "key r = k" by blast
    then have "filter (\<lambda>x. key x = k) xs = [r]" using distinct_map_inj_filter [OF d r(1)] by simp
    moreover have "find (\<lambda>x. key x = k) xs = Some r"
    proof (cases "find (\<lambda>x. key x = k) xs")
      case None with r show ?thesis by (auto simp: find_None_iff)
    next
      case (Some y)
      then have "y \<in> set xs" "key y = k" by (auto simp: find_Some_iff)
      with distinct_map_eq [OF d this(1) r(1)] r(2) Some show ?thesis by simp
    qed
    ultimately show ?thesis by simp
  next
    case False
    then have "filter (\<lambda>x. key x = k) xs = []" "find (\<lambda>x. key x = k) xs = None"
      by (auto simp: filter_empty_conv find_None_iff)
    then show ?thesis by simp
  qed
qed

lemma db_ok_add_user:
  assumes ok: "db_ok d" and new: "u_id u \<notin> set (user_pks d)" "user_row_ok u"
    and email: "\<forall>x\<in>set (users d). py_lower (u_email x) \<noteq> py_lower (u_email u)"
    and phone: "\<forall>x\<in>set (users d). u_phone_number u \<noteq> None \<longrightarrow> u_phone_number x \<noteq> u_phone_number u"
    and org: "\<forall>k. u_organization_id u = Some k \<longrightarrow> k \<in> set (org_pks d)"
  shows "db_ok (users_update (\<lambda>rs. rs @ [u]) d)"
proof -
  have "users_ok d" using ok by (simp add: db_ok_def)
  then have "users_ok (users_update (\<lambda>rs. rs @ [u]) d)"
    using new email phone org by (auto simp: users_ok_def unique_on_append split: option.splits)
  with ok show ?thesis by (simp add: db_ok_def table_ok_defs)
qed

text \<open>C29: who an inbound e-mail is from. An address known in the organization the mail was routed to is that
  user; one known anywhere else is a conflict, and nothing is created; an unknown one becomes a pending
  tenant of that organization without a password, in a database that stays consistent.\<close>

theorem email_sender_identity:
  assumes ok: "db_ok (db s)" and org: "org \<in> set (org_pks (db s))"
    and fresh: "uuids s = i # us" "i \<notin> set (user_pks (db s))"
  shows "case find (\<lambda>u. py_lower (u_email u) = py_lower email) (users (db s)) of
      Some u \<Rightarrow> resolve_email_sender_identity org email name s =
        (if u_organization_id u = Some org then Inr u else Inl (Raised CrossOrgSenderConflict), s)
    | None \<Rightarrow> \<exists>u. resolve_email_sender_identity org email name s =
          (Inr u, s\<lparr>uuids := us, db := users_update (\<lambda>rs. rs @ [u]) (db s)\<rparr>) \<and>
        db_ok (users_update (\<lambda>rs. rs @ [u]) (db s)) \<and> u_id u = i \<and> u_email u = email \<and> u_organization_id u = Some org \<and>
        u_role u = TENANT \<and> u_status u = USER_PENDING \<and> u_password_hash u = None"
proof -
  have "unique_on (\<lambda>_. True) (\<lambda>r. py_lower (u_email r)) (users (db s))" using ok by (simp add: db_ok_def users_ok_def)
  note found = find_unique [OF this, of "py_lower email"]
  show ?thesis
  proof (cases "find (\<lambda>u. py_lower (u_email u) = py_lower email) (users (db s))")
    case (Some u)
    with found show ?thesis
      by (simp add: resolve_email_sender_identity_def find_user_by_email_def bind_one_or_none resolve_or_provision_def
          andthen_def bind_raise_if ret_run)
  next
    case None
    let ?u = "\<lparr>u_id = i, u_created_at = now s, u_organization_id = Some org, u_name = or_else name email, u_email = email,
      u_role = TENANT, u_password_hash = None, u_status = USER_PENDING, u_phone_number = None,
      u_auto_provisioned_channel = Some EMAIL\<rparr>"
    have "db_ok (users_update (\<lambda>rs. rs @ [?u]) (db s))"
      using None fresh(2) org by (intro db_ok_add_user [OF ok]) (auto simp: user_row_ok_def find_None_iff)
    with None found fresh(1) show ?thesis
      by (simp add: resolve_email_sender_identity_def find_user_by_email_def bind_one_or_none resolve_or_provision_def
          bind_uuid4 bind_reads Let_def andthen_def insert_row_def bind_update_db bind_flush ret_run UserRepository_def)
  qed
qed

theorem email_sender_identity_witness:
  "resolve_email_sender_identity 10 ''ADMIN@bolt.test'' None demo_world = (Inl (Raised CrossOrgSenderConflict), demo_world) \<and>
   resolve_email_sender_identity 20 ''ADMIN@bolt.test'' None demo_world = (Inr (mk_user 21 20 ''admin@bolt.test'' ADMIN), demo_world)"
proof -
  have hyps: "db_ok (db demo_world)" "10 \<in> set (org_pks (db demo_world))" "20 \<in> set (org_pks (db demo_world))"
    "uuids demo_world = 100 # [101, 102, 103, 104, 105]" "100 \<notin> set (user_pks (db demo_world))"
    using demo_db_ok by (simp_all add: demo_db_def demo_world_def org_a_def org_b_def mk_user_def)
  have "find (\<lambda>u. py_lower (u_email u) = py_lower ''ADMIN@bolt.test'') (users (db demo_world)) =
      Some (mk_user 21 20 ''admin@bolt.test'' ADMIN)"
    by code_simp
  with email_sender_identity [OF hyps(1,2,4,5), of "''ADMIN@bolt.test''" None]
    email_sender_identity [OF hyps(1,3,4,5), of "''ADMIN@bolt.test''" None]
  show ?thesis by (simp add: mk_user_def)
qed

section \<open>Subjects\<close>

text \<open>The markers a match begins with or contains never include a blank, so nothing matches across one.\<close>

abbreviation is_tag :: "string \<Rightarrow> bool" where
  "is_tag g \<equiv> length g = 8 \<and> list_all (\<lambda>c. c \<in> set ''0123456789abcdef'') g"

lemma match_ticket_tag_iff:
  "match_ticket_tag t = Some (g, u) \<longleftrightarrow> t = ''[#'' @ g @ '']'' @ u \<and> is_tag g"
proof
  assume "match_ticket_tag t = Some (g, u)"
  then have h: "take 2 t = ''[#''" "g = take 8 (drop 2 t)" "is_tag g" "take 1 (drop 10 t) = '']''" "u = drop 11 t"
    by (auto simp: match_ticket_tag_def Let_def simp del: set_simps split: if_splits)
  have "t = take 2 t @ take 8 (drop 2 t) @ take 1 (drop 10 t) @ drop 11 t"
    using append_take_drop_id [of 2 t] append_take_drop_id [of 8 "drop 2 t"] append_take_drop_id [of 1 "drop 10 t"] by simp
  with h show "t = ''[#'' @ g @ '']'' @ u \<and> is_tag g" by metis
next
  assume "t = ''[#'' @ g @ '']'' @ u \<and> is_tag g"
  then show "match_ticket_tag t = Some (g, u)" by (simp add: match_ticket_tag_def Let_def del: set_simps)
qed

abbreviation tag_suffix :: "string \<Rightarrow> string" where
  "tag_suffix g \<equiv> ''[#'' @ g @ '']''"

lemma match_before_blank:
  assumes "match_ticket_tag (t @ CHR '' '' # v) = Some (g, u)" "t \<noteq> []"
  obtains w where "match_ticket_tag t = Some (g, w)" "u = w @ CHR '' '' # v"
proof -
  from assms(1) have eq: "t @ CHR '' '' # v = tag_suffix g @ u" and g: "is_tag g" by (simp_all add: match_ticket_tag_iff)
  have blank: "CHR '' '' \<notin> set (tag_suffix g)"
  proof -
    have "CHR '' '' \<notin> set ''0123456789abcdef''" by code_simp
    then have "CHR '' '' \<notin> set g" using g by (auto simp: list_all_iff simp del: set_simps)
    then show ?thesis by simp
  qed
  from eq consider w where "t = tag_suffix g @ w" "w @ CHR '' '' # v = u" | w where "t @ w = tag_suffix g" "CHR '' '' # v = w @ u"
    by (auto simp only: append_eq_append_conv2)
  then show thesis
  proof cases
    case 1
    then show thesis using g by (intro that [of w]) (simp_all add: match_ticket_tag_iff)
  next
    case 2
    show thesis
    proof (cases w)
      case Nil
      with 2 show thesis using g by (intro that [of "[]"]) (simp_all add: match_ticket_tag_iff)
    next
      case (Cons c w')
      with 2(2) have "c = CHR '' ''" by simp
      with Cons 2(1) have "CHR '' '' \<in> set (tag_suffix g)" by (metis in_set_conv_decomp)
      with blank show thesis by contradiction
    qed
  qed
qed

lemma match_ticket_tag_blank [simp]: "match_ticket_tag (CHR '' '' # v) = None"
  by (simp add: match_ticket_tag_def Let_def)

lemma parse_tag_after_blank:
  "parse_ticket_tag t = None \<Longrightarrow> parse_ticket_tag (t @ CHR '' '' # v) = parse_ticket_tag v"
proof (induction t rule: parse_ticket_tag.induct)
  case (2 c cs)
  have none: "match_ticket_tag (c # cs) = None" "parse_ticket_tag cs = None"
    using 2 by (auto split: option.splits)
  have "match_ticket_tag ((c # cs) @ CHR '' '' # v) = None"
  proof (rule ccontr)
    assume "match_ticket_tag ((c # cs) @ CHR '' '' # v) \<noteq> None"
    then obtain g u where "match_ticket_tag ((c # cs) @ CHR '' '' # v) = Some (g, u)" by auto
    then show False by (rule match_before_blank) (use none in simp_all)
  qed
  with none 2 show ?case by simp
qed simp

lemma remove_tags_after_blank:
  "remove_ticket_tags (t @ CHR '' '' # v) = remove_ticket_tags t @ CHR '' '' # remove_ticket_tags v"
proof (induction t rule: remove_ticket_tags.induct)
  case (2 c cs)
  show ?case
  proof (cases "match_ticket_tag ((c # cs) @ CHR '' '' # v)")
    case None
    then have "match_ticket_tag (c # cs) = None"
    proof (rule contrapos_pp)
      assume "match_ticket_tag (c # cs) \<noteq> None"
      then obtain g u where m: "match_ticket_tag (c # cs) = Some (g, u)" by auto
      then have "match_ticket_tag ((c # cs) @ CHR '' '' # v) = Some (g, u @ CHR '' '' # v)"
        unfolding match_ticket_tag_iff by simp
      then show "match_ticket_tag ((c # cs) @ CHR '' '' # v) \<noteq> None" by simp
    qed
    with None 2 show ?thesis by simp
  next
    case (Some p)
    obtain g u where p: "p = (g, u)" by (cases p)
    from Some [unfolded p] obtain w where "match_ticket_tag (c # cs) = Some (g, w)" "u = w @ CHR '' '' # v"
      by (rule match_before_blank) simp
    with Some p 2 show ?thesis by simp
  qed
qed simp

lemma remove_tag_suffix: "is_tag g \<Longrightarrow> remove_ticket_tags (tag_suffix g) = []"
  using match_ticket_tag_iff [of "tag_suffix g" g "[]"] by (simp del: set_simps)

lemma collapse_trailing_blank: "py_strip (collapse_whitespace (t @ '' '')) = py_strip (collapse_whitespace t)"
proof -
  have blank: "py_isspace (CHR '' '')" by code_simp
  have "collapse_whitespace (t @ '' '') = collapse_whitespace t \<or> collapse_whitespace (t @ '' '') = collapse_whitespace t @ '' ''"
  proof (induction t rule: collapse_whitespace.induct)
    case 1
    then show ?case by (simp add: blank)
  next
    case (2 c cs)
    show ?case
    proof (cases "py_isspace c")
      case True
      then show ?thesis
      proof (cases "\<forall>x\<in>set cs. py_isspace x")
        case all: True
        then have "dropWhile py_isspace (cs @ '' '') = []" "dropWhile py_isspace cs = []" using blank by simp_all
        then have "collapse_whitespace ((c # cs) @ '' '') = collapse_whitespace (c # cs)"
          using True by (simp only: append_Cons collapse_whitespace.simps if_True)
        then show ?thesis by (rule disjI1)
      next
        case False
        then have "dropWhile py_isspace (cs @ '' '') = dropWhile py_isspace cs @ '' ''" by (auto simp: dropWhile_append1)
        with True 2(1) show ?thesis by auto
      qed
    next
      case False
      with 2(2) show ?thesis by auto
    qed
  qed
  moreover have "py_strip (x @ '' '') = py_strip x" for x
  proof (cases "\<forall>c\<in>set x. py_isspace c")
    case True
    then have "dropWhile py_isspace (x @ '' '') = []" "dropWhile py_isspace x = []" using blank by simp_all
    then show ?thesis by (simp only: py_strip_def)
  next
    case False
    then have "dropWhile py_isspace (x @ '' '') = dropWhile py_isspace x @ '' ''" by (auto simp: dropWhile_append1)
    then show ?thesis by (simp add: py_strip_def blank)
  qed
  ultimately show ?thesis by auto
qed

lemma after_marker_blank:
  assumes "s = CHR '' '' # CHR ''['' # v"
  shows "after_marker (t @ s) = after_marker t @ s \<or> after_marker t = [] \<and> after_marker (t @ s) = tl s"
proof -
  have blank: "py_isspace (CHR '' '')" "\<not> py_isspace (CHR ''['')" by code_simp+
  have drop: "dropWhile py_isspace (x @ s) = (if \<forall>c\<in>set x. py_isspace c then tl s else dropWhile py_isspace x @ s)" for x
    using blank assms by (auto simp: dropWhile_append3 dropWhile_append1 dropWhile_append2)
  show ?thesis
  proof (cases "\<forall>c\<in>set t. py_isspace c")
    case True
    then have "dropWhile py_isspace t = []" by simp
    then have "after_marker t = []" by (simp only: after_marker_def list.case)
    moreover have "after_marker (t @ s) = tl s" using True assms by (simp add: after_marker_def drop blank)
    ultimately show ?thesis by blast
  next
    case False
    then obtain c ds where cd: "dropWhile py_isspace t = c # ds" by (cases "dropWhile py_isspace t") auto
    have all: "dropWhile py_isspace ds = [] " if "\<forall>c\<in>set ds. py_isspace c" using that by simp
    show ?thesis using False cd all by (auto simp only: after_marker_def drop if_False list.case append_Cons split: if_splits)
  qed
qed

lemma py_startswith_blank:
  assumes "CHR '' '' \<notin> set p"
  shows "py_startswith (py_lower (t @ CHR '' '' # v)) p \<longleftrightarrow> py_startswith (py_lower t) p"
proof -
  have low: "py_lower (t @ CHR '' '' # v) = py_lower t @ CHR '' '' # py_lower v"
    by (simp add: py_lower_def py_lower_char_def)
  show ?thesis
  proof (cases "length p \<le> length (py_lower t)")
    case True
    then show ?thesis by (simp add: low py_startswith_def)
  next
    case False
    then have "CHR '' '' \<in> set (take (length p) (py_lower t @ CHR '' '' # py_lower v))" by (auto simp: take_Cons')
    with assms have "\<not> py_startswith (py_lower (t @ CHR '' '' # v)) p" by (metis low py_startswith_def)
    moreover have "\<not> py_startswith (py_lower t) p" using False py_startswith_length by blast
    ultimately show ?thesis by blast
  qed
qed

lemma strip_reply_prefix_blank:
  assumes s: "s = CHR '' '' # CHR ''['' # v"
  shows "case strip_reply_prefix t of
      None \<Rightarrow> strip_reply_prefix (t @ s) = None
    | Some u \<Rightarrow> strip_reply_prefix (t @ s) = Some (u @ s) \<or> u = [] \<and> strip_reply_prefix (t @ s) = Some (tl s)"
proof -
  have starts: "py_startswith (py_lower (t @ s)) p = py_startswith (py_lower t) p" if "CHR '' '' \<notin> set p" for p
    using py_startswith_blank [OF that] by (simp add: s)
  have rest: "drop k (t @ s) = drop k t @ s" if "k \<le> length t" for k using that by simp
  have low: "length (py_lower t) = length t" by (simp add: py_lower_def)
  have after: "after_marker (drop k (t @ s)) = after_marker (drop k t) @ s \<or>
      after_marker (drop k t) = [] \<and> after_marker (drop k (t @ s)) = tl s" if "k \<le> length t" for k
    unfolding rest [OF that] by (rule after_marker_blank [OF s])
  consider "py_startswith (py_lower t) ''re''" | "\<not> py_startswith (py_lower t) ''re''" "py_startswith (py_lower t) ''fwd''"
    | "\<not> py_startswith (py_lower t) ''re''" "\<not> py_startswith (py_lower t) ''fwd''" "py_startswith (py_lower t) ''fw''"
    | "\<not> py_startswith (py_lower t) ''re''" "\<not> py_startswith (py_lower t) ''fwd''" "\<not> py_startswith (py_lower t) ''fw''"
    by blast
  then show ?thesis
  proof cases
    case 1
    with after [of 2] py_startswith_length [OF 1] low starts [of "''re''"] show ?thesis
      by (auto simp: strip_reply_prefix_def Let_def simp del: drop_append)
  next
    case 2
    with after [of 3] py_startswith_length [OF 2(2)] low starts [of "''re''"] starts [of "''fwd''"] show ?thesis
      by (auto simp: strip_reply_prefix_def Let_def simp del: drop_append)
  next
    case 3
    with after [of 2] py_startswith_length [OF 3(3)] low starts [of "''re''"] starts [of "''fwd''"] starts [of "''fw''"] show ?thesis
      by (auto simp: strip_reply_prefix_def Let_def simp del: drop_append)
  next
    case 4
    with starts [of "''re''"] starts [of "''fwd''"] starts [of "''fw''"] show ?thesis
      by (simp add: strip_reply_prefix_def Let_def)
  qed
qed

lemma no_prefix: "strip_reply_prefix (CHR ''['' # v) = None" "strip_reply_prefix (CHR '' '' # v) = None" "strip_reply_prefix [] = None"
  by (simp_all add: strip_reply_prefix_def Let_def py_startswith_def py_lower_def py_lower_char_def)

lemma strip_reply_prefixes_blank:
  assumes s: "s = CHR '' '' # CHR ''['' # v"
  shows "strip_reply_prefixes (t @ s) = strip_reply_prefixes t @ s \<or>
    strip_reply_prefixes t = [] \<and> strip_reply_prefixes (t @ s) = tl s"
proof (induction t rule: strip_reply_prefixes.induct)
  case (1 t)
  show ?case
  proof (cases "strip_reply_prefix t")
    case None
    with strip_reply_prefix_blank [OF s, of t] show ?thesis
      by (simp add: strip_reply_prefixes.simps [of t] strip_reply_prefixes.simps [of "t @ s"])
  next
    case (Some u)
    from strip_reply_prefix_blank [OF s, of t] Some
    consider "strip_reply_prefix (t @ s) = Some (u @ s)" | "u = []" "strip_reply_prefix (t @ s) = Some (tl s)" by auto
    then show ?thesis
    proof cases
      case 1
      with Some "1.IH" [OF Some] show ?thesis
        by (simp add: strip_reply_prefixes.simps [of t] strip_reply_prefixes.simps [of "t @ s"])
    next
      case 2
      then have "strip_reply_prefixes t = []"
        using Some by (simp add: strip_reply_prefixes.simps [of t] strip_reply_prefixes.simps [of "[]"] no_prefix)
      moreover have "strip_reply_prefixes (t @ s) = tl s"
        unfolding strip_reply_prefixes.simps [of "t @ s"] 2(2) option.case strip_reply_prefixes.simps [of "tl s"]
        by (simp add: s no_prefix)
      ultimately show ?thesis by blast
    qed
  qed
qed

lemma normalize_tag_suffix:
  assumes "is_tag g"
  shows "normalize_subject (t @ CHR '' '' # tag_suffix g) = normalize_subject t"
proof -
  have none: "remove_ticket_tags (tag_suffix g) = []" by (rule remove_tag_suffix [OF assms])
  have "CHR '' '' # tag_suffix g = CHR '' '' # CHR ''['' # (CHR ''#'' # g @ '']'')" by simp
  from strip_reply_prefixes_blank [OF this, of t]
  consider "strip_reply_prefixes (t @ CHR '' '' # tag_suffix g) = strip_reply_prefixes t @ CHR '' '' # tag_suffix g"
    | "strip_reply_prefixes t = []" "strip_reply_prefixes (t @ CHR '' '' # tag_suffix g) = tag_suffix g"
    by (auto simp only: list.sel)
  then show ?thesis
  proof cases
    case 1
    show ?thesis unfolding normalize_subject_def 1 remove_tags_after_blank none collapse_trailing_blank ..
  next
    case 2
    show ?thesis unfolding normalize_subject_def 2 none by (simp only: remove_ticket_tags.simps)
  qed
qed

lemma hex_lower:
  assumes "c \<in> set (uuid_hex u)"
  shows "c \<in> set ''0123456789abcdef''"
proof -
  from assms obtain n where n: "c = hex_digit n" "0 \<le> n" "n < 16" by (auto simp: uuid_hex_def)
  then have "n \<in> {0..15}" by simp
  moreover have "\<forall>n\<in>{0..15}. hex_digit n \<in> set ''0123456789abcdef''" by code_simp
  ultimately show ?thesis using n(1) by blast
qed

text \<open>C30: the subject of a reply leads back to its ticket. A subject that carries no ticket tag gets the one of its
  ticket, the first eight digits of its id: parsing the reply's subject gives it back, the id starts with it, and
  normalizing the reply's subject gives what normalizing the original gave. A subject that carries a tag is
  kept as it is.\<close>

theorem reply_subject_roundtrip:
  "if parse_ticket_tag subject = None
   then parse_ticket_tag (h_subject (build_reply_headers i subject m refs)) = Some (take 8 (uuid_str i)) \<and>
     py_startswith (filter (\<lambda>c. c \<noteq> CHR ''-'') (uuid_str i)) (take 8 (uuid_str i)) \<and>
     normalize_subject (h_subject (build_reply_headers i subject m refs)) = normalize_subject subject
   else h_subject (build_reply_headers i subject m refs) = subject"
proof (cases "parse_ticket_tag subject")
  case None
  let ?g = "take 8 (uuid_str i)"
  have g: "?g = take 8 (uuid_hex i)" by (simp add: uuid_str_def Let_def)
  have tag: "is_tag ?g"
    using hex_lower by (auto simp: g list_all_iff dest!: in_set_takeD simp del: set_simps)
  have subj: "h_subject (build_reply_headers i subject m refs) = subject @ CHR '' '' # tag_suffix ?g"
    using None by (simp add: build_reply_headers_def Let_def)
  have "parse_ticket_tag (tag_suffix ?g) = Some ?g"
    using match_ticket_tag_iff [of "tag_suffix ?g" ?g "[]"] tag by (simp del: set_simps)
  then have parse: "parse_ticket_tag (subject @ CHR '' '' # tag_suffix ?g) = Some ?g"
    using parse_tag_after_blank [OF None] by metis
  have prefix: "py_startswith (filter (\<lambda>c. c \<noteq> CHR ''-'') (uuid_str i)) ?g"
    by (simp add: filter_hyphens_uuid_str py_startswith_def g)
  have "normalize_subject (subject @ CHR '' '' # tag_suffix ?g) = normalize_subject subject"
    by (rule normalize_tag_suffix [OF tag])
  then show ?thesis unfolding if_P [OF None] subj using parse prefix by (intro conjI)
next
  case (Some g)
  then show ?thesis by (simp add: build_reply_headers_def Let_def)
qed

text \<open>Normalizing is not idempotent, and it eats the beginning of ordinary words: the prefix needs no colon and no
  word boundary.\<close>

theorem normalize_subject_not_idempotent:
  "normalize_subject ''[#0123abcd] Re: Leak'' = ''re: leak''" "normalize_subject ''re: leak'' = ''leak''"
  "normalize_subject ''Refund request'' = ''fund request''"
  by code_simp+

end
