(* ===== verification/Settings.thy ===== *)
theory Settings
  imports Session
begin

text \<open>
  What the channels share with their surroundings: the settings of \<open>src/app/core/config.py\<close> the
  modelled code reads (with their defaults), the Redis commands it issues (\<open>SET NX EX\<close> and the
  pipeline \<open>INCR\<close>; \<open>EXPIRE NX\<close>), and the parsing functions of Python's standard library that
  decide what a request means.
\<close>

section \<open>Settings\<close>

record settings =
  classifier_confidence_threshold :: real
  rag_similarity_threshold :: real
  rag_kb_top_k :: nat
  rag_ticket_top_k :: nat
  rag_search_overfetch :: nat
  rag_chunk_max_tokens :: nat
  rag_chunk_overlap_tokens :: nat
  chat_session_token_ttl_minutes :: int
  chat_rate_limit_per_hour :: int
  chat_history_turns :: nat
  chat_max_tool_rounds :: nat
  secret_encryption_key :: "string option"
  whatsapp_verify_token :: "string option"
  whatsapp_app_secret :: "string option"
  whatsapp_api_base_url :: string
  whatsapp_api_version :: string
  whatsapp_session_idle_minutes :: int
  whatsapp_customer_window_hours :: int
  email_webhook_provider :: string
  mailgun_signing_key :: "string option"
  email_webhook_max_age_seconds :: int
  email_thread_subject_match_days :: int
  email_message_id_domain :: string
  email_from_fallback_address :: string

definition default_settings :: settings where
  "default_settings = \<lparr>classifier_confidence_threshold = 6 / 10,
     rag_similarity_threshold = 1 / 2, rag_kb_top_k = 5, rag_ticket_top_k = 3, rag_search_overfetch = 4,
     rag_chunk_max_tokens = 512, rag_chunk_overlap_tokens = 64,
     chat_session_token_ttl_minutes = 60, chat_rate_limit_per_hour = 30, chat_history_turns = 10,
     chat_max_tool_rounds = 2, secret_encryption_key = None, whatsapp_verify_token = None, whatsapp_app_secret = None,
     whatsapp_api_base_url = ''https://graph.facebook.com'', whatsapp_api_version = ''v21.0'',
     whatsapp_session_idle_minutes = 1440, whatsapp_customer_window_hours = 24,
     email_webhook_provider = ''mailgun'', mailgun_signing_key = None, email_webhook_max_age_seconds = 300,
     email_thread_subject_match_days = 30, email_message_id_domain = ''helpdesk.local'',
     email_from_fallback_address = ''no-reply@real-estate-helpdesk.local''\<rparr>"

section \<open>Redis\<close>

text \<open>The value of a key and the instant it expires at; an expired key is as good as absent.\<close>

definition redis_get :: "string \<Rightarrow> world \<Rightarrow> (int \<times> int option) option" where
  "redis_get key s = (case map_of (redis s) key of
      None \<Rightarrow> None
    | Some (v, expires) \<Rightarrow> (case expires of
          None \<Rightarrow> Some (v, None)
        | Some until \<Rightarrow> if now s < until then Some (v, Some until) else None))"

definition redis_put :: "string \<Rightarrow> int \<Rightarrow> int option \<Rightarrow> unit service" where
  "redis_put key v expires = modify (\<lambda>s. s\<lparr>redis := dict_set key (v, expires) (redis s)\<rparr>)"

definition redis_set_nx_ex :: "string \<Rightarrow> int \<Rightarrow> int \<Rightarrow> bool service" where
  "redis_set_nx_ex key v ttl = bind (reads (redis_get key)) (\<lambda>current.
     if current \<noteq> None then ret False
     else bind (reads now) (\<lambda>ts. andthen (redis_put key v (Some (ts + seconds ttl))) (ret True)))"

definition redis_incr :: "string \<Rightarrow> int service" where
  "redis_incr key = bind (reads (redis_get key)) (\<lambda>current.
     let (v, expires) = (case current of None \<Rightarrow> (0, None) | Some p \<Rightarrow> p)
     in andthen (redis_put key (v + 1) expires) (ret (v + 1)))"

definition redis_expire_nx :: "string \<Rightarrow> int \<Rightarrow> bool service" where
  "redis_expire_nx key ttl = bind (reads (redis_get key)) (\<lambda>current.
     case current of
       Some (v, None) \<Rightarrow> bind (reads now) (\<lambda>ts. andthen (redis_put key v (Some (ts + seconds ttl))) (ret True))
     | _ \<Rightarrow> ret False)"

section \<open>Parsing\<close>

text \<open>\<open>int(str)\<close> on ASCII digits: blanks around, a sign, single underscores between digits.\<close>

fun digits_value :: "int \<Rightarrow> bool \<Rightarrow> string \<Rightarrow> int option" where
  "digits_value acc after_digit [] = (if after_digit then Some acc else None)"
| "digits_value acc after_digit (c # cs) =
    (if is_digit c then digits_value (acc * 10 + (of_char c - 48)) True cs
     else if c = CHR ''_'' \<and> after_digit then digits_value acc False cs
     else None)"

definition py_int :: "string \<Rightarrow> int option" where
  "py_int t = (case py_strip t of
      [] \<Rightarrow> None
    | c # cs \<Rightarrow> if c = CHR ''-'' then map_option uminus (digits_value 0 False cs)
               else if c = CHR ''+'' then digits_value 0 False cs
               else digits_value 0 False (c # cs))"

text \<open>\<open>str.split()\<close>.\<close>

function py_split :: "string \<Rightarrow> string list" where
  "py_split t = (case dropWhile py_isspace t of
      [] \<Rightarrow> []
    | c # cs \<Rightarrow> (c # takeWhile (\<lambda>x. \<not> py_isspace x) cs) # py_split (dropWhile (\<lambda>x. \<not> py_isspace x) cs))"
  by pat_completeness auto
termination
proof (relation "measure length")
  fix t :: string and c cs assume "dropWhile py_isspace t = c # cs"
  then have "length (c # cs) \<le> length t" by (metis length_dropWhile_le)
  moreover have "length (dropWhile (\<lambda>x. \<not> py_isspace x) cs) \<le> length cs" by (rule length_dropWhile_le)
  ultimately show "(dropWhile (\<lambda>x. \<not> py_isspace x) cs, t) \<in> measure length" by simp
qed simp

declare py_split.simps [simp del]

text \<open>\<open>hmac.compare_digest\<close> on two strings: it refuses anything but ASCII.\<close>

definition compare_digest :: "string \<Rightarrow> string \<Rightarrow> error + bool" where
  "compare_digest a b =
    (if list_ex (\<lambda>c. 128 \<le> (of_char c :: nat)) (a @ b) then Inl TypeError else Inr (a = b))"

text \<open>A computation that may fail but reads no state, as a step of a service.\<close>

definition from_sum :: "error + 'a \<Rightarrow> 'a service" where
  "from_sum r = (case r of Inl e \<Rightarrow> throw e | Inr x \<Rightarrow> ret x)"

section \<open>Execution rules\<close>

lemma from_sum_run [run_simps]: "from_sum (Inr x) s = (Inr x, s)" "from_sum (Inl e) s = (Inl (Raised e), s)"
  by (simp_all add: from_sum_def ret_run raise_run)

lemma bind_from_sum [run_simps]:
  "bind (from_sum r) f s = (case r of Inl e \<Rightarrow> (Inl (Raised e), s) | Inr x \<Rightarrow> f x s)"
  by (cases r) (simp_all add: from_sum_def bind_def ret_run raise_run)

lemma readonly_from_sum [simp, intro]: "readonly (from_sum r)"
  by (cases r) (simp_all add: from_sum_def readonly_basic)

lemma from_sum_InrE:
  assumes "bind (from_sum r) f s = (Inr y, s')"
  obtains x where "r = Inr x" "f x s = (Inr y, s')"
  using assms by (cases r) (simp_all add: bind_from_sum)

lemma redis_get_put:
  "redis_get key (s\<lparr>redis := dict_set key (v, Some until) (redis s)\<rparr>) = (if now s < until then Some (v, Some until) else None)"
  by (simp add: redis_get_def map_of_dict_set)

lemma redis_set_nx_ex_run:
  "redis_set_nx_ex key v ttl s =
    (if redis_get key s \<noteq> None then (Inr False, s)
     else (Inr True, s\<lparr>redis := dict_set key (v, Some (now s + seconds ttl)) (redis s)\<rparr>))"
  by (simp add: redis_set_nx_ex_def redis_put_def bind_reads andthen_run bind_modify ret_run)

text \<open>The pipeline of the rate limiter: one increment, and an expiry only for a fresh key.\<close>

lemma redis_incr_expire_run:
  "bind (redis_incr key) (\<lambda>count. bind (redis_expire_nx key ttl) (\<lambda>_. ret count)) s =
    (case redis_get key s of
       None \<Rightarrow> (Inr 1, s\<lparr>redis := dict_set key (1, Some (now s + seconds ttl)) (dict_set key (1, None) (redis s))\<rparr>)
     | Some (v, None) \<Rightarrow> (Inr (v + 1), s\<lparr>redis := dict_set key (v + 1, Some (now s + seconds ttl)) (dict_set key (v + 1, None) (redis s))\<rparr>)
     | Some (v, Some until) \<Rightarrow> (Inr (v + 1), s\<lparr>redis := dict_set key (v + 1, Some until) (redis s)\<rparr>))"
  by (auto simp: redis_incr_def redis_expire_nx_def redis_put_def bind_reads andthen_def bind_modify ret_run bind_ret
      redis_get_def map_of_dict_set bind_assoc split: option.splits if_splits)

end
