(* ===== verification/Webhooks.thy ===== *)
theory Webhooks
  imports Channels Settings
begin

text \<open>
  The door of the inbound channels: \<open>src/app/core/webhook_signature.py\<close>, the e-mail provider of
  \<open>src/app/services/email_provider.py\<close> and the two dependencies of \<open>src/app/api/deps_webhooks.py\<close>.

  A request is its raw body, its headers and its form, already read; the form is the dictionary
  \<open>dict(form)\<close> with text values. \<open>stdlib\<close> holds the functions of Python's library that are not
  written out: HMAC-SHA256 in hexadecimal, \<open>email.utils.parseaddr\<close> and \<open>json.loads\<close>. A file uploaded under the
  name of one of the form's fields is not modelled.
\<close>

text \<open>\<open>json.loads\<close> on the raw bytes of a body: a value, a \<open>JSONDecodeError\<close>, or another exception (the
  \<open>UnicodeDecodeError\<close> of bytes that are no text, a \<open>ValueError\<close>).\<close>

datatype json_result = JsonValue json | JsonDecodeError | JsonOtherError error

record stdlib =
  hmac_sha256 :: "string \<Rightarrow> string \<Rightarrow> string"
  parseaddr :: "string \<Rightarrow> string \<times> string"
  json_loads :: "string \<Rightarrow> json_result"

section \<open>Signatures\<close>

definition META_SIGNATURE_PREFIX :: string where "META_SIGNATURE_PREFIX = ''sha256=''"

definition verify_meta_signature :: "stdlib \<Rightarrow> string \<Rightarrow> string \<Rightarrow> string \<Rightarrow> error + unit" where
  "verify_meta_signature L raw_body signature_header app_secret =
    (if \<not> py_startswith signature_header META_SIGNATURE_PREFIX then Inl InvalidWebhookSignatureError
     else let provided_hex = drop (length META_SIGNATURE_PREFIX) signature_header;
              expected_hex = hmac_sha256 L app_secret raw_body
          in case compare_digest expected_hex provided_hex of
               Inl e \<Rightarrow> Inl e
             | Inr same \<Rightarrow> if same then Inr () else Inl InvalidWebhookSignatureError)"

definition verify_mailgun_signature :: "stdlib \<Rightarrow> string \<Rightarrow> string \<Rightarrow> string \<Rightarrow> string \<Rightarrow> error + unit" where
  "verify_mailgun_signature L timestamp token signature signing_key =
    (case compare_digest (hmac_sha256 L signing_key (timestamp @ token)) signature of
       Inl e \<Rightarrow> Inl e
     | Inr same \<Rightarrow> if same then Inr () else Inl InvalidWebhookSignatureError)"

section \<open>The Mailgun provider\<close>

record InboundEmail =
  provider_message_id :: string
  in_reply_to :: "string option"
  references :: "string list"
  from_address :: string
  from_display_name :: "string option"
  to_address :: string
  subject :: string
  text_body :: string

type_synonym form = "(string \<times> string) list"

text \<open>\<open>form.get(k) or None\<close>: an empty value is as good as an absent one.\<close>

definition form_field :: "form \<Rightarrow> string \<Rightarrow> string option" where
  "form_field form key = (case map_of form key of Some (c # cs) \<Rightarrow> Some (c # cs) | _ \<Rightarrow> None)"

definition form_get :: "form \<Rightarrow> string \<Rightarrow> string \<Rightarrow> string" where
  "form_get form key dflt = (case map_of form key of Some v \<Rightarrow> v | None \<Rightarrow> dflt)"

definition REPLAY_CACHE_TTL_SECONDS :: int where "REPLAY_CACHE_TTL_SECONDS = 600"

definition replay_key :: "string \<Rightarrow> string" where "replay_key token = ''webhook:mg:'' @ token"

definition unix_seconds :: "int service" where
  "unix_seconds = reads (\<lambda>s. now s div us_per_second)"

definition mailgun_verify :: "settings \<Rightarrow> stdlib \<Rightarrow> form \<Rightarrow> unit service" where
  "mailgun_verify cfg L form =
    (case mailgun_signing_key cfg of
       None \<Rightarrow> throw InvalidWebhookSignatureError
     | Some signing_key \<Rightarrow>
        (case (form_field form ''timestamp'', form_field form ''token'', form_field form ''signature'') of
           (Some timestamp, Some token, Some signature) \<Rightarrow>
             bind (from_sum (verify_mailgun_signature L timestamp token signature signing_key)) (\<lambda>_.
             case py_int timestamp of
               None \<Rightarrow> throw InvalidWebhookSignatureError
             | Some timestamp_value \<Rightarrow>
                 bind unix_seconds (\<lambda>now.
                 andthen (throw_if (\<bar>now - timestamp_value\<bar> > email_webhook_max_age_seconds cfg) InvalidWebhookSignatureError)
                 (bind (redis_set_nx_ex (replay_key token) 1 REPLAY_CACHE_TTL_SECONDS) (\<lambda>was_first_seen.
                 throw_if (\<not> was_first_seen) InvalidWebhookSignatureError))))
         | _ \<Rightarrow> throw InvalidWebhookSignatureError))"

definition mailgun_parse :: "stdlib \<Rightarrow> form \<Rightarrow> InboundEmail" where
  "mailgun_parse L form =
    (let (display_name, address) = parseaddr L (form_get form ''From'' '''')
     in \<lparr>provider_message_id = form_get form ''Message-Id'' '''',
         in_reply_to = form_field form ''In-Reply-To'',
         references = py_split (form_get form ''References'' ''''),
         from_address = address,
         from_display_name = (if display_name = '''' then None else Some display_name),
         to_address = (case form_field form ''recipient'' of
              Some recipient \<Rightarrow> recipient | None \<Rightarrow> snd (parseaddr L (form_get form ''To'' ''''))),
         subject = form_get form ''Subject'' '''',
         text_body = (case form_field form ''stripped-text'' of
              Some stripped \<Rightarrow> stripped | None \<Rightarrow> form_get form ''body-plain'' '''')\<rparr>)"

section \<open>The dependencies of the webhook routes\<close>

text \<open>The provider is built before the request is verified; only Mailgun exists.\<close>

definition get_email_provider :: "settings \<Rightarrow> unit service" where
  "get_email_provider cfg = throw_if (email_webhook_provider cfg \<noteq> ''mailgun'') NotImplementedError"

definition verify_and_parse_email_webhook :: "settings \<Rightarrow> stdlib \<Rightarrow> form \<Rightarrow> (organization option \<times> InboundEmail) service" where
  "verify_and_parse_email_webhook cfg L form =
    andthen (get_email_provider cfg)
    (andthen (mailgun_verify cfg L form)
    (let inbound = mailgun_parse L form
     in bind (get_by_support_email_address (to_address inbound)) (\<lambda>organization. ret (organization, inbound))))"

text \<open>\<open>payload["entry"][0]["changes"][0]["value"]["metadata"]["phone_number_id"]\<close>, any missing or
  malformed step giving \<open>None\<close>.\<close>

fun json_key :: "string \<Rightarrow> json option \<Rightarrow> json option" where
  "json_key k (Some (JObj fs)) = map_of fs k"
| "json_key k _ = None"

fun json_first :: "json option \<Rightarrow> json option" where
  "json_first (Some (JArr (x # xs))) = Some x"
| "json_first (Some (JStr (c # cs))) = Some (JStr [c])"
| "json_first _ = None"

definition extract_phone_number_id :: "json \<Rightarrow> json option" where
  "extract_phone_number_id payload =
    json_key ''phone_number_id'' (json_key ''metadata'' (json_key ''value''
      (json_first (json_key ''changes'' (json_first (json_key ''entry'' (Some payload)))))))"

definition verify_and_parse_whatsapp_webhook :: "settings \<Rightarrow> stdlib \<Rightarrow> string \<Rightarrow> string \<Rightarrow> (organization option \<times> json) service" where
  "verify_and_parse_whatsapp_webhook cfg L raw_body signature_header =
    (case whatsapp_app_secret cfg of
       None \<Rightarrow> throw InvalidWebhookSignatureError
     | Some app_secret \<Rightarrow>
        bind (from_sum (verify_meta_signature L raw_body signature_header app_secret)) (\<lambda>_.
        bind (from_sum (if raw_body = '''' then Inr (JObj [])
            else case json_loads L raw_body of JsonValue j \<Rightarrow> Inr j | JsonDecodeError \<Rightarrow> Inr (JObj []) | JsonOtherError e \<Rightarrow> Inl e)) (\<lambda>payload.
        case extract_phone_number_id payload of
             Some (JStr phone_number_id) \<Rightarrow>
               bind (get_by_whatsapp_phone_number_id phone_number_id) (\<lambda>organization. ret (organization, payload))
           | None \<Rightarrow> ret (None, payload)
           | Some JNull \<Rightarrow> ret (None, payload)
           | Some _ \<Rightarrow> throw DataError)))"

section \<open>A delivery is accepted once\<close>

lemma bind_redis_set_nx_ex:
  "bind (redis_set_nx_ex key v ttl) f s =
    (if redis_get key s \<noteq> None then f False s
     else f True (s\<lparr>redis := dict_set key (v, Some (now s + seconds ttl)) (redis s)\<rparr>))"
  unfolding bind_def redis_set_nx_ex_run by simp

text \<open>The checks in the order the code makes them.\<close>

lemma mailgun_verify_run:
  assumes "mailgun_signing_key cfg = Some key" "form_field form ''timestamp'' = Some timestamp"
    "form_field form ''token'' = Some token" "form_field form ''signature'' = Some signature"
  shows "mailgun_verify cfg L form s =
    (case verify_mailgun_signature L timestamp token signature key of
       Inl e \<Rightarrow> (Inl (Raised e), s)
     | Inr _ \<Rightarrow> (case py_int timestamp of
           None \<Rightarrow> (Inl (Raised InvalidWebhookSignatureError), s)
         | Some sent \<Rightarrow>
             if email_webhook_max_age_seconds cfg < \<bar>now s div us_per_second - sent\<bar> \<or> redis_get (replay_key token) s \<noteq> None
             then (Inl (Raised InvalidWebhookSignatureError), s)
             else (Inr (), s\<lparr>redis := dict_set (replay_key token)
                     (1, Some (now s + seconds REPLAY_CACHE_TTL_SECONDS)) (redis s)\<rparr>)))"
  using assms
  by (simp add: mailgun_verify_def bind_from_sum unix_seconds_def bind_reads andthen_def bind_raise_if
      bind_redis_set_nx_ex raise_if_run raise_run split: sum.splits option.splits)

lemma mailgun_verify_InrE:
  assumes "mailgun_verify cfg L form s = (Inr (), s')"
  obtains key timestamp token signature where
    "mailgun_signing_key cfg = Some key" "form_field form ''timestamp'' = Some timestamp"
    "form_field form ''token'' = Some token" "form_field form ''signature'' = Some signature"
proof -
  obtain key where key: "mailgun_signing_key cfg = Some key"
    using assms by (cases "mailgun_signing_key cfg") (auto simp: mailgun_verify_def raise_run)
  show thesis using assms by (auto simp: mailgun_verify_def key raise_run split: option.splits intro: that [OF key])
qed

text \<open>C27: a webhook delivery is accepted once. Presented again, with the same form, it is refused: within the ten
  minutes for which its token is remembered because of the token, and from one second later on because its
  timestamp is too old. (The second in between is not covered: \<open>replay_window_gap\<close>.) Nothing changes on a refusal.\<close>

theorem delivery_accepted_once:
  assumes first: "mailgun_verify cfg L form s = (Inr (), s')" and age: "email_webhook_max_age_seconds cfg \<le> 300"
    and kept: "map_of (redis s2) (replay_key (form_get form ''token'' [])) = map_of (redis s') (replay_key (form_get form ''token'' []))"
    and later: "now s2 < now s + seconds 600 \<or> now s + seconds 601 \<le> now s2"
  shows "mailgun_verify cfg L form s2 = (Inl (Raised InvalidWebhookSignatureError), s2)"
proof -
  obtain key timestamp token signature where f: "mailgun_signing_key cfg = Some key"
    "form_field form ''timestamp'' = Some timestamp" "form_field form ''token'' = Some token"
    "form_field form ''signature'' = Some signature" using first by (rule mailgun_verify_InrE)
  note run = mailgun_verify_run [OF f]
  obtain sent where sig: "verify_mailgun_signature L timestamp token signature key = Inr ()" and sent: "py_int timestamp = Some sent"
    and fresh: "\<bar>now s div us_per_second - sent\<bar> \<le> email_webhook_max_age_seconds cfg"
    and s': "s' = s\<lparr>redis := dict_set (replay_key token) (1, Some (now s + seconds REPLAY_CACHE_TTL_SECONDS)) (redis s)\<rparr>"
    using first unfolding run by (auto split: sum.splits option.splits if_splits)
  have token: "form_get form ''token'' [] = token"
    using f(3) by (auto simp: form_field_def form_get_def split: option.splits list.splits)
  have stored: "map_of (redis s2) (replay_key token) = Some (1, Some (now s + seconds 600))"
    using kept unfolding token s' by (simp add: map_of_dict_set REPLAY_CACHE_TTL_SECONDS_def)
  from later have "redis_get (replay_key token) s2 \<noteq> None \<or> email_webhook_max_age_seconds cfg < \<bar>now s2 div us_per_second - sent\<bar>"
  proof
    assume "now s2 < now s + seconds 600"
    then show ?thesis by (simp add: redis_get_def stored)
  next
    assume "now s + seconds 601 \<le> now s2"
    then have "(now s + 601 * us_per_second) div us_per_second \<le> now s2 div us_per_second"
      by (intro zdiv_mono1) (simp_all add: seconds_def us_per_second_def)
    then have "now s div us_per_second + 601 \<le> now s2 div us_per_second" by (simp add: us_per_second_def)
    with fresh age show ?thesis by linarith
  qed
  then show ?thesis unfolding run sig sent by auto
qed

text \<open>A deterministic stand-in for the library, to evaluate the model with.\<close>

definition demo_lib :: stdlib where
  "demo_lib = \<lparr>hmac_sha256 = (\<lambda>key data. key @ ''/'' @ data),
     parseaddr = (\<lambda>t. ([], t)), json_loads = (\<lambda>t. JsonDecodeError)\<rparr>"

definition demo_settings :: settings where
  "demo_settings = default_settings\<lparr>mailgun_signing_key := Some ''k''\<rparr>"

definition demo_form :: "string \<Rightarrow> form" where
  "demo_form timestamp = [(''timestamp'', timestamp), (''token'', ''tok''), (''signature'', ''k/'' @ timestamp @ ''tok'')]"

theorem delivery_accepted_once_witness:
  "\<exists>s'. mailgun_verify demo_settings demo_lib (demo_form ''36000'') demo_world = (Inr (), s') \<and>
     mailgun_verify demo_settings demo_lib (demo_form ''36000'') s' = (Inl (Raised InvalidWebhookSignatureError), s')"
proof -
  let ?run = "mailgun_verify demo_settings demo_lib (demo_form ''36000'') demo_world"
  have ok: "fst ?run = Inr () \<and> now (snd ?run) = now demo_world" by code_simp
  then obtain s' where s': "?run = (Inr (), s')" "now s' = now demo_world" by (cases ?run) auto
  have "email_webhook_max_age_seconds demo_settings \<le> 300" by code_simp
  from delivery_accepted_once [OF s'(1) this refl] s' show ?thesis
    by (intro exI [of _ s'] conjI) (simp_all add: seconds_def us_per_second_def)
qed

text \<open>The gap: a delivery whose timestamp is five minutes ahead of the clock, accepted in the last microseconds
  of a second, is accepted again ten minutes later.\<close>

theorem replay_window_gap:
  "\<exists>s'. mailgun_verify demo_settings demo_lib (demo_form ''36300'') (demo_world\<lparr>now := hours 10 + 999999\<rparr>) = (Inr (), s') \<and>
     fst (mailgun_verify demo_settings demo_lib (demo_form ''36300'') (s'\<lparr>now := hours 10 + seconds 600 + 999999\<rparr>)) = Inr ()"
proof -
  let ?run = "mailgun_verify demo_settings demo_lib (demo_form ''36300'') (demo_world\<lparr>now := hours 10 + 999999\<rparr>)"
  have "fst ?run = Inr () \<and>
      fst (mailgun_verify demo_settings demo_lib (demo_form ''36300'') (snd ?run\<lparr>now := hours 10 + seconds 600 + 999999\<rparr>)) = Inr ()"
    by code_simp
  then show ?thesis by (intro exI [of _ "snd ?run"]) (simp add: prod_eq_iff)
qed

end
