(* ===== verification/Email.thy ===== *)
theory Email
  imports Webhooks Messages Classification
begin

text \<open>
  The e-mail channel: \<open>src/app/services/email_ingestion.py\<close> (an inbound mail is a replay, a reply in
  a thread or a new ticket), \<open>src/app/workers/email.py\<close> (the job that mails an agent's reply) and the
  route \<open>src/app/api/v1/webhooks_email.py\<close>.
\<close>

section \<open>Finding the thread\<close>

datatype EmailIngestionOutcome = EMAIL_REPLAYED | MESSAGE_APPENDED | TICKET_CREATED

definition load_email_candidates :: "OrgScope \<Rightarrow> ticket list service" where
  "load_email_candidates sc = query (\<lambda>d. filter (\<lambda>t. t_channel t = EMAIL) (select_rows TicketRepository sc d))"

fun find_replay :: "ticket list \<Rightarrow> string \<Rightarrow> error + ticket option" where
  "find_replay [] message_id = Inr None"
| "find_replay (t # ts) message_id = (case contains (t_channel_metadata t) ''message_ids'' message_id of
      Inl e \<Rightarrow> Inl e
    | Inr found \<Rightarrow> if found then Inr (Some t) else find_replay ts message_id)"

fun match_references :: "ticket list \<Rightarrow> string list \<Rightarrow> error + ticket option" where
  "match_references candidates [] = Inr None"
| "match_references candidates (r # rs) = (case find_replay candidates r of
      Inl e \<Rightarrow> Inl e
    | Inr (Some t) \<Rightarrow> Inr (Some t)
    | Inr None \<Rightarrow> match_references candidates rs)"

definition match_by_reference :: "ticket list \<Rightarrow> InboundEmail \<Rightarrow> error + ticket option" where
  "match_by_reference candidates inbound =
    match_references candidates (extract_reference_ids (in_reply_to inbound) (references inbound))"

definition match_by_subject_tag :: "ticket list \<Rightarrow> InboundEmail \<Rightarrow> ticket option" where
  "match_by_subject_tag candidates inbound =
    (case parse_ticket_tag (subject inbound) of
       None \<Rightarrow> None
     | Some tag \<Rightarrow> (case filter (\<lambda>t. py_startswith (filter (\<lambda>c. c \<noteq> CHR ''-'') (uuid_str (t_id t))) tag) candidates of
          [t] \<Rightarrow> Some t
        | _ \<Rightarrow> None))"

text \<open>\<open>(metadata or {}).get(key)\<close>; a condition is evaluated only when the ones before it hold.\<close>

definition metadata_field :: "json option \<Rightarrow> string \<Rightarrow> error + json option" where
  "metadata_field metadata key = (case metadata of
      None \<Rightarrow> Inr None
    | Some (JObj fs) \<Rightarrow> Inr (map_of fs key)
    | Some j \<Rightarrow> if json_falsy j then Inr None else Inl AttributeError)"

definition subject_eligible :: "string \<Rightarrow> string \<Rightarrow> int \<Rightarrow> ticket \<Rightarrow> error + bool" where
  "subject_eligible sender_address subject_normalized cutoff t =
    (if t_status t = CLOSED then Inr False
     else case metadata_field (t_channel_metadata t) ''sender_address'' of
       Inl e \<Rightarrow> Inl e
     | Inr a \<Rightarrow> if a \<noteq> Some (JStr sender_address) then Inr False
         else (case metadata_field (t_channel_metadata t) ''subject_normalized'' of
             Inl e \<Rightarrow> Inl e
           | Inr b \<Rightarrow> Inr (b = Some (JStr subject_normalized) \<and> t_created_at t > cutoff)))"

fun filter_checked :: "('a \<Rightarrow> error + bool) \<Rightarrow> 'a list \<Rightarrow> error + 'a list" where
  "filter_checked P [] = Inr []"
| "filter_checked P (x # xs) = (case P x of
      Inl e \<Rightarrow> Inl e
    | Inr b \<Rightarrow> (case filter_checked P xs of Inl e \<Rightarrow> Inl e | Inr ys \<Rightarrow> Inr (if b then x # ys else ys)))"

text \<open>\<open>max(eligible, key=created_at)\<close>: the first of the latest.\<close>

fun latest :: "ticket list \<Rightarrow> ticket option" where
  "latest [] = None"
| "latest (t # ts) = (case latest ts of
      None \<Rightarrow> Some t
    | Some u \<Rightarrow> if t_created_at t < t_created_at u then Some u else Some t)"

definition match_by_sender_subject_fallback :: "settings \<Rightarrow> int \<Rightarrow> ticket list \<Rightarrow> InboundEmail \<Rightarrow> error + ticket option" where
  "match_by_sender_subject_fallback cfg ts candidates inbound =
    (let cutoff = ts - days (email_thread_subject_match_days cfg)
     in case filter_checked (subject_eligible (py_lower (from_address inbound)) (normalize_subject (subject inbound)) cutoff) candidates of
          Inl e \<Rightarrow> Inl e
        | Inr eligible \<Rightarrow> Inr (latest eligible))"

definition match_thread :: "settings \<Rightarrow> int \<Rightarrow> ticket list \<Rightarrow> InboundEmail \<Rightarrow> error + ticket option" where
  "match_thread cfg ts candidates inbound =
    (case match_by_reference candidates inbound of
       Inl e \<Rightarrow> Inl e
     | Inr (Some t) \<Rightarrow> Inr (Some t)
     | Inr None \<Rightarrow>
        (case match_by_subject_tag candidates inbound of
           Some t \<Rightarrow> Inr (Some t)
         | None \<Rightarrow> match_by_sender_subject_fallback cfg ts candidates inbound))"

section \<open>Ingestion\<close>

definition set_channel_metadata :: "uuid \<Rightarrow> json \<Rightarrow> unit service" where
  "set_channel_metadata tid metadata = write_row TicketRepository tid (\<lambda>t. t\<lparr>t_channel_metadata := Some metadata\<rparr>)"

definition append_message :: "OrgScope \<Rightarrow> uuid \<Rightarrow> InboundEmail \<Rightarrow> (EmailIngestionOutcome \<times> ticket) service" where
  "append_message sc tid inbound =
    bind (get_or_404 TicketRepository sc (Some tid)) (\<lambda>ticket.
    bind (from_sum (with_appended (t_channel_metadata ticket) ''message_ids'' (JStr (provider_message_id inbound)) None)) (\<lambda>metadata.
    andthen (set_channel_metadata (t_id ticket) metadata)
    (andthen (create_message sc (t_id ticket) (text_body inbound) None)
      (ret (MESSAGE_APPENDED, ticket\<lparr>t_channel_metadata := Some metadata\<rparr>)))))"

definition email_metadata :: "settings \<Rightarrow> InboundEmail \<Rightarrow> json" where
  "email_metadata cfg inbound = JObj
     [(''provider'', JStr (email_webhook_provider cfg)),
      (''sender_address'', JStr (py_lower (from_address inbound))),
      (''subject_normalized'', JStr (normalize_subject (subject inbound))),
      (''message_ids'', JArr [JStr (provider_message_id inbound)]),
      (''last_outbound_message_id'', JNull)]"

definition create_new_ticket :: "settings \<Rightarrow> (string \<Rightarrow> zone option) \<Rightarrow> OrgScope \<Rightarrow> InboundEmail \<Rightarrow>
    (EmailIngestionOutcome \<times> ticket) service" where
  "create_new_ticket cfg zones sc inbound =
    bind (create_ticket zones sc None None (or_else (Some (py_strip (subject inbound))) ''(no subject)'')
           (Some (text_body inbound)) None None EMAIL) (\<lambda>ticket.
    andthen (set_channel_metadata (t_id ticket) (email_metadata cfg inbound))
    (andthen flush (ret (TICKET_CREATED, ticket\<lparr>t_channel_metadata := Some (email_metadata cfg inbound)\<rparr>))))"

definition ingest_inbound_email :: "settings \<Rightarrow> (string \<Rightarrow> zone option) \<Rightarrow> organization \<Rightarrow> InboundEmail \<Rightarrow>
    (EmailIngestionOutcome \<times> ticket) service" where
  "ingest_inbound_email cfg zones org inbound =
    bind (resolve_email_sender_identity (o_id org) (from_address inbound) (from_display_name inbound)) (\<lambda>sender.
    bind (from_sum (from_principal sender)) (\<lambda>sc.
    bind (load_email_candidates sc) (\<lambda>candidates.
    bind (from_sum (find_replay candidates (provider_message_id inbound))) (\<lambda>replay.
    case replay of
      Some t \<Rightarrow> ret (EMAIL_REPLAYED, t)
    | None \<Rightarrow> bind (reads now) (\<lambda>ts.
        bind (from_sum (match_thread cfg ts candidates inbound)) (\<lambda>matched.
        case matched of
          Some t \<Rightarrow> append_message sc (t_id t) inbound
        | None \<Rightarrow> create_new_ticket cfg zones sc inbound))))))"

section \<open>The webhook route\<close>

text \<open>The job is queued as a background task, after the response.\<close>

definition receive_email_webhook :: "settings \<Rightarrow> (string \<Rightarrow> zone option) \<Rightarrow> organization option \<Rightarrow> InboundEmail \<Rightarrow>
    job list service" where
  "receive_email_webhook cfg zones organization inbound =
    (case organization of
       None \<Rightarrow> ret []
     | Some org \<Rightarrow> try_except
         (bind (ingest_inbound_email cfg zones org inbound) (\<lambda>(outcome, ticket).
            ret (if outcome = TICKET_CREATED \<and> t_classification_status ticket = PENDING
                 then [ClassifyTicket (t_id ticket) (t_organization_id ticket)] else [])))
         (\<lambda>e. if e = Raised CrossOrgSenderConflict then ret [] else raise e))"

definition email_webhook_request :: "settings \<Rightarrow> stdlib \<Rightarrow> (string \<Rightarrow> zone option) \<Rightarrow> form \<Rightarrow> unit service" where
  "email_webhook_request cfg L zones form =
    bind (get_session (bind (verify_and_parse_email_webhook cfg L form) (\<lambda>(organization, inbound).
       receive_email_webhook cfg zones organization inbound))) (\<lambda>background.
    for_each background enqueue_job)"

section \<open>Lemmas on the matching ladder\<close>

lemma find_replay_None: "find_replay ts m = Inr None \<longleftrightarrow> (\<forall>t\<in>set ts. contains (t_channel_metadata t) ''message_ids'' m = Inr False)"
  by (induction ts) (auto split: sum.splits)

lemma find_replay_Some: "find_replay ts m = Inr (Some t) \<Longrightarrow> t \<in> set ts \<and> contains (t_channel_metadata t) ''message_ids'' m = Inr True"
  by (induction ts) (auto split: sum.splits if_splits)

lemma find_replay_hit:
  assumes "\<And>x. x \<in> set xs \<Longrightarrow> contains (t_channel_metadata x) ''message_ids'' m = Inr (t_id x = i)"
    and "t \<in> set xs" "t_id t = i"
  shows "\<exists>x. find_replay xs m = Inr (Some x) \<and> t_id x = i"
  using assms by (induction xs) auto

lemma contains_appended:
  assumes "with_appended md key (JStr v) None = Inr j"
  shows "contains (Some j) key v = Inr True"
proof -
  from assms obtain fs xs where j: "j = JObj (dict_set key (JArr (xs @ [JStr v])) fs)"
    by (auto simp: with_appended_def Let_def split: sum.splits)
  have "dict_set key (JArr (xs @ [JStr v])) fs \<noteq> []" by (cases fs) (auto split: if_splits)
  then show ?thesis by (simp add: contains_def j json_get_def map_of_dict_set)
qed

lemma match_references_in: "match_references cs rs = Inr (Some t) \<Longrightarrow> t \<in> set cs"
  by (induction rs) (auto dest: find_replay_Some split: sum.splits option.splits)

lemma latest_in: "latest ts = Some t \<Longrightarrow> t \<in> set ts"
  by (induction ts arbitrary: t) (auto split: option.splits if_splits)

lemma filter_checked_subset: "filter_checked P xs = Inr ys \<Longrightarrow> set ys \<subseteq> set xs"
  by (induction xs arbitrary: ys) (auto split: sum.splits if_splits)

lemma match_thread_in:
  assumes "match_thread cfg ts cs inbound = Inr (Some t)"
  shows "t \<in> set cs"
proof -
  have tag: "t \<in> set cs" if "match_by_subject_tag cs inbound = Some t"
  proof -
    from that obtain P where "filter P cs = [t]"
      by (auto simp: match_by_subject_tag_def split: option.splits list.splits)
    then have "t \<in> set (filter P cs)" by simp
    then show ?thesis by simp
  qed
  show ?thesis using assms
    by (auto simp: match_thread_def match_by_reference_def match_by_sender_subject_fallback_def Let_def
        dest: match_references_in tag latest_in filter_checked_subset split: sum.splits option.splits)
qed

lemma create_message_InrD:
  assumes "create_message sc tid content None s = (Inr (m, b), s')"
  obtains us where "s' = s\<lparr>uuids := us, db := messages_update (\<lambda>rs. rs @ [m]) (db s)\<rparr>" "db_ok (db s')" "m_content m = content"
    "m_ticket_id m = tid"
  using assms
  by (auto simp: create_message_def Let_def andthen_def bind_uuid4 bind_ret bind_reads insert_row_def bind_update_db bind_flush ret_run
      MessageRepository_def elim!: bind_readonly_InrE [OF _ readonly_get_or_404] split: list.splits if_splits)

section \<open>Senders\<close>

lemma resolve_email_again:
  assumes "db_ok (db s)" "u \<in> set (users (db s))" "py_lower (u_email u) = py_lower email" "u_organization_id u = Some org"
  shows "resolve_email_sender_identity org email name s = (Inr u, s)"
proof -
  have d: "distinct (map (\<lambda>r. py_lower (u_email r)) (users (db s)))"
    using assms(1) by (simp add: db_ok_def users_ok_def unique_on_def)
  have "filter (\<lambda>r. py_lower (u_email r) = py_lower email) (users (db s)) = [u]"
    using distinct_map_inj_filter [OF d assms(2)] assms(3) by simp
  with assms(4) show ?thesis
    by (simp add: resolve_email_sender_identity_def find_user_by_email_def bind_one_or_none resolve_or_provision_def
        andthen_def bind_raise_if ret_run)
qed

lemma resolve_email_InrE:
  assumes "resolve_email_sender_identity org email name s = (Inr u, s')" "db_ok (db s)"
  obtains us f where "s' = s\<lparr>uuids := us, db := users_update f (db s)\<rparr>" "db_ok (db s')"
    "u \<in> set (users (db s'))" "py_lower (u_email u) = py_lower email" "u_organization_id u = Some org"
proof (cases "scalar_one_or_none (filter (\<lambda>u. py_lower (u_email u) = py_lower email) (users (db s)))")
  case None
  with assms(1) show thesis
    by (simp add: resolve_email_sender_identity_def find_user_by_email_def bind_one_or_none)
next
  case (Some x)
  show thesis
  proof (cases x)
    case None
    with Some assms(1) show thesis
      by (auto simp: resolve_email_sender_identity_def find_user_by_email_def bind_one_or_none resolve_or_provision_def
          bind_uuid4 bind_reads Let_def andthen_def insert_row_def bind_update_db bind_flush ret_run UserRepository_def
          split: list.splits if_splits intro!: that)
  next
    case u: (Some y)
    with Some assms(1) have y: "s' = s" "y = u" "u_organization_id u = Some org"
      by (auto simp: resolve_email_sender_identity_def find_user_by_email_def bind_one_or_none resolve_or_provision_def
          andthen_def bind_raise_if ret_run split: if_splits)
    from Some u have "y \<in> set (filter (\<lambda>u. py_lower (u_email u) = py_lower email) (users (db s)))" by simp
    with y assms(2) show thesis by (intro that [where f = "\<lambda>rs. rs" and us = "uuids s"]) simp_all
  qed
qed

section \<open>What a run of the ingestion goes through\<close>

lemma ingest_InrE:
  assumes "ingest_inbound_email cfg zones org inbound s = (Inr (outcome, t), s')" "db_ok (db s)"
  obtains sender sc s1 where
    "resolve_email_sender_identity (o_id org) (from_address inbound) (from_display_name inbound) s = (Inr sender, s1)"
    "sc = \<lparr>organization_id = o_id org, user_id = u_id sender, role = u_role sender\<rparr>" "from_principal sender = Inr sc"
    "db_ok (db s1)" "sender \<in> set (users (db s1))"
    "(outcome = EMAIL_REPLAYED \<and> s' = s1 \<and>
        find_replay (filter (\<lambda>t. t_channel t = EMAIL) (select_rows TicketRepository sc (db s1))) (provider_message_id inbound) = Inr (Some t)) \<or>
     find_replay (filter (\<lambda>t. t_channel t = EMAIL) (select_rows TicketRepository sc (db s1))) (provider_message_id inbound) = Inr None \<and>
     ((\<exists>x. match_thread cfg (now s1) (filter (\<lambda>t. t_channel t = EMAIL) (select_rows TicketRepository sc (db s1))) inbound = Inr (Some x) \<and>
        append_message sc (t_id x) inbound s1 = (Inr (outcome, t), s')) \<or>
      match_thread cfg (now s1) (filter (\<lambda>t. t_channel t = EMAIL) (select_rows TicketRepository sc (db s1))) inbound = Inr None \<and>
        create_new_ticket cfg zones sc inbound s1 = (Inr (outcome, t), s'))"
proof -
  from assms(1) obtain sender s1 where r: "resolve_email_sender_identity (o_id org) (from_address inbound) (from_display_name inbound) s = (Inr sender, s1)"
    and k: "bind (from_sum (from_principal sender)) (\<lambda>sc. bind (load_email_candidates sc) (\<lambda>candidates.
      bind (from_sum (find_replay candidates (provider_message_id inbound))) (\<lambda>replay.
      case replay of Some t \<Rightarrow> ret (EMAIL_REPLAYED, t)
      | None \<Rightarrow> bind (reads now) (\<lambda>ts. bind (from_sum (match_thread cfg ts candidates inbound)) (\<lambda>matched.
        case matched of Some t \<Rightarrow> append_message sc (t_id t) inbound
        | None \<Rightarrow> create_new_ticket cfg zones sc inbound))))) s1 = (Inr (outcome, t), s')"
    unfolding ingest_inbound_email_def by (rule bind_InrE)
  from r assms(2) have u: "db_ok (db s1)" "sender \<in> set (users (db s1))" "u_organization_id sender = Some (o_id org)"
    by (auto elim: resolve_email_InrE)
  then have sc: "from_principal sender = Inr \<lparr>organization_id = o_id org, user_id = u_id sender, role = u_role sender\<rparr>"
    by (simp add: from_principal_def)
  show thesis
    using k by (intro that [OF r refl sc u(1,2)])
      (auto simp: sc bind_from_sum load_email_candidates_def bind_query bind_reads ret_run split: sum.splits option.splits)
qed

lemma append_message_InrE:
  assumes "append_message sc tid inbound s = (Inr (outcome, t), s')"
  obtains ticket md m us where "get_or_404 TicketRepository sc (Some tid) s = (Inr ticket, s)" "t_id ticket = tid"
    "with_appended (t_channel_metadata ticket) ''message_ids'' (JStr (provider_message_id inbound)) None = Inr md"
    "outcome = MESSAGE_APPENDED" "t = ticket\<lparr>t_channel_metadata := Some md\<rparr>" "db_ok (db s')"
    "s' = s\<lparr>uuids := us, db := messages_update (\<lambda>rs. rs @ [m]) (tickets_update
       (update_where (\<lambda>x. t_id x = tid) (\<lambda>x. x\<lparr>t_channel_metadata := Some md\<rparr>)) (db s))\<rparr>"
    "m_content m = text_body inbound" "m_ticket_id m = tid"
proof -
  from assms obtain ticket where g: "get_or_404 TicketRepository sc (Some tid) s = (Inr ticket, s)"
    and k: "bind (from_sum (with_appended (t_channel_metadata ticket) ''message_ids'' (JStr (provider_message_id inbound)) None)) (\<lambda>metadata.
      andthen (set_channel_metadata (t_id ticket) metadata)
      (andthen (create_message sc (t_id ticket) (text_body inbound) None)
        (ret (MESSAGE_APPENDED, ticket\<lparr>t_channel_metadata := Some metadata\<rparr>)))) s = (Inr (outcome, t), s')"
    unfolding append_message_def by (rule bind_readonly_InrE) auto
  from get_or_404_found [OF g] have id: "t_id ticket = tid" by simp
  from k obtain md where md: "with_appended (t_channel_metadata ticket) ''message_ids'' (JStr (provider_message_id inbound)) None = Inr md"
    and l: "bind (create_message sc tid (text_body inbound) None) (\<lambda>_. ret (MESSAGE_APPENDED, ticket\<lparr>t_channel_metadata := Some md\<rparr>))
      (s\<lparr>db := tickets_update (update_where (\<lambda>x. t_id x = tid) (\<lambda>x. x\<lparr>t_channel_metadata := Some md\<rparr>)) (db s)\<rparr>) = (Inr (outcome, t), s')"
    by (rule from_sum_InrE) (simp add: set_channel_metadata_def write_row_def andthen_def bind_update_db id)
  from l show thesis
  proof (rule bind_InrE)
    fix p u
    assume c: "create_message sc tid (text_body inbound) None
        (s\<lparr>db := tickets_update (update_where (\<lambda>x. t_id x = tid) (\<lambda>x. x\<lparr>t_channel_metadata := Some md\<rparr>)) (db s)\<rparr>) = (Inr p, u)"
      and r: "ret (MESSAGE_APPENDED, ticket\<lparr>t_channel_metadata := Some md\<rparr>) u = (Inr (outcome, t), s')"
    obtain m b where p: "p = (m, b)" by (cases p)
    from c [unfolded p] show thesis
    proof (rule create_message_InrD)
      fix us
      assume "u = s\<lparr>db := tickets_update (update_where (\<lambda>x. t_id x = tid) (\<lambda>x. x\<lparr>t_channel_metadata := Some md\<rparr>)) (db s)\<rparr>
          \<lparr>uuids := us, db := messages_update (\<lambda>rs. rs @ [m])
            (db (s\<lparr>db := tickets_update (update_where (\<lambda>x. t_id x = tid) (\<lambda>x. x\<lparr>t_channel_metadata := Some md\<rparr>)) (db s)\<rparr>))\<rparr>"
        and "db_ok (db u)" "m_content m = text_body inbound" "m_ticket_id m = tid"
      with r show thesis by (intro that [OF g id md]) (auto simp: ret_run)
    qed
  qed
qed

lemma create_new_ticket_InrE:
  assumes "create_new_ticket cfg zones sc inbound s = (Inr (outcome, t), s')"
  obtains u us where "outcome = TICKET_CREATED"
    "t = (new_ticket sc u (now s) None None (or_else (Some (py_strip (subject inbound))) ''(no subject)'')
       (Some (text_body inbound)) None None EMAIL None)\<lparr>t_channel_metadata := Some (email_metadata cfg inbound)\<rparr>"
    "u \<notin> set (ticket_pks (db s))" "s' = s\<lparr>uuids := us, db := tickets_update (\<lambda>ts. ts @ [t]) (db s)\<rparr>" "db_ok (db s')"
proof -
  let ?title = "or_else (Some (py_strip (subject inbound))) ''(no subject)''"
  from assms obtain t0 s1 where c: "create_ticket zones sc None None ?title (Some (text_body inbound)) None None EMAIL s = (Inr t0, s1)"
    and k: "andthen (set_channel_metadata (t_id t0) (email_metadata cfg inbound))
      (andthen flush (ret (TICKET_CREATED, t0\<lparr>t_channel_metadata := Some (email_metadata cfg inbound)\<rparr>))) s1 = (Inr (outcome, t), s')"
    unfolding create_new_ticket_def by (rule bind_InrE)
  from c show thesis
  proof (rule create_ticket_InrE)
    fix pr contract urgency due u us
    assume tax: "active_taxonomy sc None None s = (Inr urgency, s)"
      and due: "case urgency of None \<Rightarrow> due = None
        | Some ul \<Rightarrow> \<exists>x. resolve_sla_due_at zones (organization_id sc) ul (now s) s = (Inr x, s) \<and> due = Some x"
      and t0: "t0 = new_ticket sc u (now s) None None ?title (Some (text_body inbound)) None None EMAIL due"
      and s1: "s1 = s\<lparr>uuids := us, db := (db s)\<lparr>tickets := tickets (db s) @ [t0]\<rparr>\<rparr>" "db_ok (db s1)"
    from tax due have due: "due = None" by (simp add: active_taxonomy_def ret_run)
    have id: "t_id t0 = u" by (simp add: t0 new_ticket_def)
    from s1 have new: "u \<notin> set (ticket_pks (db s))" using db_ok_distinct(5) [OF s1(2)] by (auto simp: id)
    then have w: "update_where (\<lambda>x. t_id x = u) f (tickets (db s) @ [t0]) = tickets (db s) @ [f t0]" for f
      by (auto simp: update_where_def id intro!: map_idI)
    from k have "outcome = TICKET_CREATED" "t = t0\<lparr>t_channel_metadata := Some (email_metadata cfg inbound)\<rparr>"
      "s' = s\<lparr>uuids := us, db := tickets_update (\<lambda>ts. ts @ [t]) (db s)\<rparr>" "db_ok (db s')"
      by (auto simp: set_channel_metadata_def write_row_def andthen_def bind_update_db bind_flush ret_run s1(1) id w split: if_splits)
    with new show thesis by (intro that) (auto simp: t0 due)
  qed
qed

section \<open>What identifies a replay\<close>

abbreviation email_candidates :: "OrgScope \<Rightarrow> database \<Rightarrow> ticket list" where
  "email_candidates sc d \<equiv> filter (\<lambda>t. t_channel t = EMAIL) (select_rows TicketRepository sc d)"

lemma candidates_in: "t \<in> set (email_candidates sc d) \<Longrightarrow> t \<in> set (tickets d)"
  by (simp add: select_rows_def)

text \<open>Recording the id of a mail on a candidate changes neither which tickets are candidates nor their order.\<close>

lemma candidates_after_append:
  assumes "d' = messages_update f (tickets_update
      (update_where (\<lambda>x. t_id x = i) (\<lambda>x. x\<lparr>t_channel_metadata := Some md\<rparr>)) d)"
  shows "email_candidates sc d' = update_where (\<lambda>x. t_id x = i) (\<lambda>x. x\<lparr>t_channel_metadata := Some md\<rparr>) (email_candidates sc d)"
proof -
  have vis: "ticket_visible sc d' t = ticket_visible sc d t" "ticket_visible sc d (t\<lparr>t_channel_metadata := x\<rparr>) = ticket_visible sc d t" for t x
    by (simp_all add: assms ticket_visible_def own_contract_def own_property_def split: UserRole.splits)
  have "filter (\<lambda>t. t_channel t = EMAIL) (filter (ticket_visible sc d) (update_where (\<lambda>x. t_id x = i) (\<lambda>x. x\<lparr>t_channel_metadata := Some md\<rparr>) ts))
    = update_where (\<lambda>x. t_id x = i) (\<lambda>x. x\<lparr>t_channel_metadata := Some md\<rparr>) (filter (\<lambda>t. t_channel t = EMAIL) (filter (ticket_visible sc d) ts))" for ts
    by (induction ts) (auto simp: update_where_def vis)
  moreover have "ticket_visible sc d' = ticket_visible sc d" using vis(1) by blast
  ultimately show ?thesis by (simp add: select_rows_def assms)
qed

lemma candidates_after_create:
  assumes "role sc \<noteq> OWNER" "t = (new_ticket sc u ts None None title descr None None EMAIL None)\<lparr>t_channel_metadata := md\<rparr>"
  shows "email_candidates sc (tickets_update (\<lambda>ts. ts @ [t]) d) = email_candidates sc d @ [t]"
proof -
  have "ticket_visible sc (tickets_update f d) x = ticket_visible sc d x" for f x
    by (simp add: ticket_visible_def own_contract_def own_property_def split: UserRole.splits)
  moreover have "ticket_visible sc d t" using assms by (cases "role sc") (simp_all add: ticket_visible_def new_ticket_def)
  moreover have "t_channel t = EMAIL" by (simp add: assms(2) new_ticket_def)
  ultimately show ?thesis by (simp add: select_rows_def)
qed

lemma contains_new_ticket: "contains (Some (email_metadata cfg inbound)) ''message_ids'' m = Inr (m = provider_message_id inbound)"
  by (simp add: email_metadata_def contains_def json_get_def)

text \<open>After a mail was ingested its sender is a user of the organization, and among the tickets that user sees by
  mail the answered ticket is the first that carries the id of the mail. (For an owner's mail that opened a ticket this
  fails: see \<open>owner_mail_duplicated\<close>.)\<close>

definition mail_known :: "string \<Rightarrow> string \<Rightarrow> organization \<Rightarrow> uuid \<Rightarrow> user \<Rightarrow> OrgScope \<Rightarrow> database \<Rightarrow> bool" where
  "mail_known m address org i sender sc d \<longleftrightarrow> sender \<in> set (users d) \<and> py_lower (u_email sender) = py_lower address \<and>
     u_organization_id sender = Some (o_id org) \<and> from_principal sender = Inr sc \<and>
     (\<exists>t. find_replay (email_candidates sc d) m = Inr (Some t) \<and> t_id t = i)"

lemma mail_known_replayed:
  assumes "mail_known m address org i sender sc (db s)" "db_ok (db s)"
    and "provider_message_id inbound = m" "py_lower (from_address inbound) = py_lower address"
  shows "\<exists>t. ingest_inbound_email cfg zones org inbound s = (Inr (EMAIL_REPLAYED, t), s) \<and> t_id t = i"
proof -
  obtain t where t: "find_replay (email_candidates sc (db s)) m = Inr (Some t)" "t_id t = i" "sender \<in> set (users (db s))"
    "py_lower (u_email sender) = py_lower (from_address inbound)" "u_organization_id sender = Some (o_id org)" "from_principal sender = Inr sc"
    using assms(1,4) unfolding mail_known_def by metis
  have "resolve_email_sender_identity (o_id org) (from_address inbound) (from_display_name inbound) s = (Inr sender, s)"
    by (rule resolve_email_again [OF assms(2) t(3,4,5)])
  then have "ingest_inbound_email cfg zones org inbound s = (Inr (EMAIL_REPLAYED, t), s)"
    using t(1,6) assms(3) by (simp add: ingest_inbound_email_def bind_Inr bind_from_sum load_email_candidates_def bind_query ret_run)
  with t(2) show ?thesis by blast
qed

lemma ingested_known:
  assumes ok: "db_ok (db s)" and run: "ingest_inbound_email cfg zones org inbound s = (Inr (outcome, t), s')"
    and reporter: "\<forall>u\<in>set (users (db s')). outcome = TICKET_CREATED \<and> u_id u = t_user_id t \<longrightarrow> u_role u \<noteq> OWNER"
  shows "db_ok (db s') \<and> (\<exists>sender sc. mail_known (provider_message_id inbound) (from_address inbound) org (t_id t) sender sc (db s'))"
  using run ok
proof (rule ingest_InrE)
  fix sender sc and s1 :: world
  let ?cs = "email_candidates sc (db s1)" and ?m = "provider_message_id inbound"
  assume resolved: "resolve_email_sender_identity (o_id org) (from_address inbound) (from_display_name inbound) s = (Inr sender, s1)"
    and sc: "sc = \<lparr>organization_id = o_id org, user_id = u_id sender, role = u_role sender\<rparr>" "from_principal sender = Inr sc"
    and s1: "db_ok (db s1)" "sender \<in> set (users (db s1))"
    and branch: "(outcome = EMAIL_REPLAYED \<and> s' = s1 \<and> find_replay ?cs ?m = Inr (Some t)) \<or>
      find_replay ?cs ?m = Inr None \<and>
      ((\<exists>x. match_thread cfg (now s1) ?cs inbound = Inr (Some x) \<and> append_message sc (t_id x) inbound s1 = (Inr (outcome, t), s')) \<or>
       match_thread cfg (now s1) ?cs inbound = Inr None \<and> create_new_ticket cfg zones sc inbound s1 = (Inr (outcome, t), s'))"
  from resolved ok have who: "py_lower (u_email sender) = py_lower (from_address inbound)" "u_organization_id sender = Some (o_id org)"
    by (auto elim: resolve_email_InrE)
  have "users (db s') = users (db s1) \<and> db_ok (db s') \<and>
      (\<exists>t'. find_replay (email_candidates sc (db s')) ?m = Inr (Some t') \<and> t_id t' = t_id t)"
    using branch
  proof (elim disjE conjE exE)
    assume "s' = s1" "find_replay ?cs ?m = Inr (Some t)"
    with s1 show ?thesis by blast
  next
    fix x assume none: "find_replay ?cs ?m = Inr None" and x: "match_thread cfg (now s1) ?cs inbound = Inr (Some x)"
      and a: "append_message sc (t_id x) inbound s1 = (Inr (outcome, t), s')"
    from a show ?thesis
    proof (rule append_message_InrE)
      fix ticket md m us
      let ?f = "\<lambda>y. y\<lparr>t_channel_metadata := Some md\<rparr>"
      assume id: "t_id ticket = t_id x" and t: "t = ?f ticket" and ok': "db_ok (db s')"
        and md: "with_appended (t_channel_metadata ticket) ''message_ids'' (JStr ?m) None = Inr md"
        and s': "s' = s1\<lparr>uuids := us, db := messages_update (\<lambda>rs. rs @ [m]) (tickets_update
          (update_where (\<lambda>y. t_id y = t_id x) ?f) (db s1))\<rparr>"
      have cs: "email_candidates sc (db s') = update_where (\<lambda>y. t_id y = t_id x) ?f ?cs"
        by (rule candidates_after_append) (simp add: s')
      have "contains (t_channel_metadata y) ''message_ids'' ?m = Inr (t_id y = t_id x)" if "y \<in> set (email_candidates sc (db s'))" for y
        using that none contains_appended [OF md] unfolding cs set_update_where find_replay_None by auto
      moreover have "?f x \<in> set (email_candidates sc (db s'))"
        using match_thread_in [OF x] unfolding cs set_update_where by force
      ultimately obtain t' where "find_replay (email_candidates sc (db s')) ?m = Inr (Some t')" "t_id t' = t_id x"
        using find_replay_hit [of "email_candidates sc (db s')" ?m "t_id x" "?f x"] by auto
      with ok' id t show ?thesis by (auto simp: s')
    qed
  next
    assume none: "find_replay ?cs ?m = Inr None" and c: "create_new_ticket cfg zones sc inbound s1 = (Inr (outcome, t), s')"
    from c show ?thesis
    proof (rule create_new_ticket_InrE)
      fix i us
      assume new: "outcome = TICKET_CREATED" "i \<notin> set (ticket_pks (db s1))"
        and t: "t = (new_ticket sc i (now s1) None None (or_else (Some (py_strip (subject inbound))) ''(no subject)'')
          (Some (text_body inbound)) None None EMAIL None)\<lparr>t_channel_metadata := Some (email_metadata cfg inbound)\<rparr>"
        and s': "s' = s1\<lparr>uuids := us, db := tickets_update (\<lambda>ts. ts @ [t]) (db s1)\<rparr>" "db_ok (db s')"
      have "t_user_id t = u_id sender" by (simp add: t new_ticket_def sc(1))
      with reporter new(1) s1(2) have "role sc \<noteq> OWNER" by (auto simp: s'(1) sc(1))
      then have cs: "email_candidates sc (db s') = ?cs @ [t]"
        unfolding s'(1) using candidates_after_create [OF _ t, of "db s1"] by simp
      have id: "t_id t = i" by (simp add: t new_ticket_def)
      have "contains (t_channel_metadata y) ''message_ids'' ?m = Inr (t_id y = i)" if "y \<in> set (?cs @ [t])" for y
      proof (cases "y \<in> set ?cs")
        case True
        with new(2) have "t_id y \<noteq> i" by (auto simp: select_rows_def)
        with True none show ?thesis by (simp add: find_replay_None)
      next
        case False
        with that have "y = t" by auto
        then show ?thesis by (simp add: t new_ticket_def contains_new_ticket)
      qed
      then obtain t' where "find_replay (?cs @ [t]) ?m = Inr (Some t')" "t_id t' = i"
        using find_replay_hit [of "?cs @ [t]" ?m i t] id by auto
      with id s' show ?thesis unfolding cs by auto
    qed
  qed
  with who s1(2) sc(2) show ?thesis unfolding mail_known_def by metis
qed

definition demo_mail :: "string \<Rightarrow> string \<Rightarrow> InboundEmail" where
  "demo_mail sender mid = \<lparr>provider_message_id = mid, in_reply_to = None, references = [], from_address = sender,
     from_display_name = None, to_address = ''help@acme.test'', subject = ''No heating'', text_body = ''It is cold''\<rparr>"

text \<open>An owner sees the tickets of the properties he owns, and a ticket opened by mail has no property: the ticket
  of his own mail is none of its candidates, and every further delivery of the mail opens another ticket.\<close>

lemma created_run:
  assumes "case r of (Inr (oc, t), s') \<Rightarrow> oc = TICKET_CREATED \<and> Q t s' | (Inl _, _) \<Rightarrow> False"
  shows "\<exists>t s'. r = (Inr (TICKET_CREATED, t), s') \<and> Q t s'"
proof -
  obtain x s' where r: "r = (x, s')" by (cases r)
  show ?thesis
  proof (cases x)
    case (Inr p)
    obtain oc t where "p = (oc, t)" by (cases p)
    with Inr r assms show ?thesis by auto
  qed (use r assms in simp)
qed

theorem owner_mail_duplicated:
  "\<exists>t s'. ingest_inbound_email demo_settings demo_zones org_a (demo_mail ''owner@acme.test'' ''<m1>'') demo_world =
      (Inr (TICKET_CREATED, t), s') \<and>
    (\<exists>t' s''. ingest_inbound_email demo_settings demo_zones org_a (demo_mail ''owner@acme.test'' ''<m1>'') s' =
      (Inr (TICKET_CREATED, t'), s'') \<and> t_id t' \<noteq> t_id t)"
proof -
  let ?run = "ingest_inbound_email demo_settings demo_zones org_a (demo_mail ''owner@acme.test'' ''<m1>'')"
  have "case ?run demo_world of (Inr (oc, t), s') \<Rightarrow> oc = TICKET_CREATED \<and>
      (case ?run s' of (Inr (oc', t'), s'') \<Rightarrow> oc' = TICKET_CREATED \<and> t_id t' \<noteq> t_id t | (Inl _, _) \<Rightarrow> False)
    | (Inl _, _) \<Rightarrow> False"
    by code_simp
  from created_run [OF this] obtain t s' where run: "?run demo_world = (Inr (TICKET_CREATED, t), s')"
    and again: "case ?run s' of (Inr (oc', t'), s'') \<Rightarrow> oc' = TICKET_CREATED \<and> t_id t' \<noteq> t_id t | (Inl _, _) \<Rightarrow> False"
    by (elim exE conjE) (rule that, assumption+)
  show ?thesis by (intro exI) (rule conjI [OF run created_run [OF again]])
qed

text \<open>A reply without any text violates the constraint on the contents of messages: the delivery fails.\<close>

theorem empty_reply_fails:
  "\<exists>t s'. ingest_inbound_email demo_settings demo_zones org_a (demo_mail ''tenant@acme.test'' ''<m1>'') demo_world =
      (Inr (TICKET_CREATED, t), s') \<and>
    fst (ingest_inbound_email demo_settings demo_zones org_a
      ((demo_mail ''tenant@acme.test'' ''<m2>'')\<lparr>in_reply_to := Some ''<m1>'', text_body := []\<rparr>) s') = Inl (Raised IntegrityError)"
proof (rule created_run)
  show "case ingest_inbound_email demo_settings demo_zones org_a (demo_mail ''tenant@acme.test'' ''<m1>'') demo_world of
      (Inr (oc, t), s') \<Rightarrow> oc = TICKET_CREATED \<and>
        fst (ingest_inbound_email demo_settings demo_zones org_a
          ((demo_mail ''tenant@acme.test'' ''<m2>'')\<lparr>in_reply_to := Some ''<m1>'', text_body := []\<rparr>) s') = Inl (Raised IntegrityError)
    | (Inl _, _) \<Rightarrow> False"
    by code_simp
qed

end
