(* ===== verification/EmailReply.thy ===== *)
theory EmailReply
  imports Email
begin

text \<open>
  \<open>src/app/workers/email.py\<close>: the job that mails an agent's reply, and the queueing of it.

  The SMTP exchange (\<open>aiosmtplib.send\<close>) is a parameter: it answers each mail with delivery, a
  transient failure (\<open>_TRANSIENT_SMTP_ERRORS\<close>) or another \<open>SMTPException\<close>. A delivered mail is an entry of
  \<open>outbox\<close>: the address and the text of the mail, headers first. Setting a header is checked as
  \<open>EmailMessage\<close> checks it: the value must be a string of at most one line.
\<close>

section \<open>Mail headers\<close>

definition line_break :: "char \<Rightarrow> bool" where
  "line_break c = (let n = (of_char c :: nat) in (10 \<le> n \<and> n \<le> 13) \<or> (28 \<le> n \<and> n \<le> 30) \<or> n = 133)"

text \<open>\<open>len(value.splitlines()) > 1\<close>: something follows the first line break.\<close>

fun several_lines :: "string \<Rightarrow> bool" where
  "several_lines [] = False"
| "several_lines (c # cs) =
    (if line_break c
     then (if c = CHR 0x0D \<and> cs \<noteq> [] \<and> hd cs = CHR 0x0A then tl cs else cs) \<noteq> []
     else several_lines cs)"

definition header_value :: "json option \<Rightarrow> error + string" where
  "header_value v = (case v of
      Some (JStr t) \<Rightarrow> if several_lines t then Inl ValueError else Inr t
    | _ \<Rightarrow> Inl AttributeError)"

fun set_headers :: "(string \<times> json option) list \<Rightarrow> error + string" where
  "set_headers [] = Inr []"
| "set_headers ((name, v) # hs) = (case header_value v of
      Inl e \<Rightarrow> Inl e
    | Inr t \<Rightarrow> (case set_headers hs of Inl e \<Rightarrow> Inl e | Inr rest \<Rightarrow> Inr (name @ '': '' @ t @ CHR 0x0A # rest)))"

section \<open>The job\<close>

datatype smtp_reply = SmtpDelivered | SmtpTransientError | SmtpPermanentError

definition outbound_message_id :: "settings \<Rightarrow> uuid \<Rightarrow> string" where
  "outbound_message_id cfg mid = ''<helpdesk-'' @ uuid_str mid @ ''@'' @ email_message_id_domain cfg @ ''>''"

text \<open>\<open>a or b\<close> on an optional JSON value, and strings out of JSON for \<open>" ".join\<close> and the regular
  expressions, which raise \<open>TypeError\<close> on anything else.\<close>

definition json_or :: "json option \<Rightarrow> json \<Rightarrow> json" where
  "json_or v dflt = (case v of Some j \<Rightarrow> if json_falsy j then dflt else j | None \<Rightarrow> dflt)"

fun json_str :: "json \<Rightarrow> error + string" where
  "json_str (JStr t) = Inr t"
| "json_str _ = Inl TypeError"

fun json_strs :: "json list \<Rightarrow> error + string list" where
  "json_strs [] = Inr []"
| "json_strs (j # js) = (case json_str j of
      Inl e \<Rightarrow> Inl e
    | Inr t \<Rightarrow> (case json_strs js of Inl e \<Rightarrow> Inl e | Inr ts \<Rightarrow> Inr (t # ts)))"

text \<open>The headers and the mail, from the ticket's metadata (a dictionary by now).\<close>

definition reply_mail :: "settings \<Rightarrow> organization \<Rightarrow> ticket \<Rightarrow> message \<Rightarrow> (string \<times> json) list \<Rightarrow> error + string \<times> string" where
  "reply_mail cfg org t m metadata =
    (let out_id = outbound_message_id cfg (m_id m) in
     case json_items (json_get metadata ''message_ids'' (JArr [])) of
       Inl e \<Rightarrow> Inl e
     | Inr message_ids \<Rightarrow>
        let reply_to = json_or (map_of metadata ''last_outbound_message_id'')
              (if message_ids = [] then JStr out_id else last message_ids);
            subj = json_or (map_of metadata ''subject_normalized'') (JStr (t_title t))
        in case json_str subj of
             Inl e \<Rightarrow> Inl e
           | Inr original \<Rightarrow>
              (case json_strs message_ids of
                 Inl e \<Rightarrow> Inl e
               | Inr ids \<Rightarrow>
                  (case json_str reply_to of
                     Inl e \<Rightarrow> Inl e
                   | Inr parent \<Rightarrow>
                      let headers = build_reply_headers (t_id t) original parent ids;
                          sender = or_else (o_support_email_address org) (email_from_fallback_address cfg);
                          address = map_of metadata ''sender_address''
                      in case set_headers
                             [(''From'', Some (JStr sender)), (''Reply-To'', Some (JStr sender)), (''To'', address),
                              (''Subject'', Some (JStr (h_subject headers))),
                              (''In-Reply-To'', Some (JStr (h_in_reply_to headers))),
                              (''References'', Some (JStr (h_references headers))),
                              (''Message-ID'', Some (JStr out_id))] of
                           Inl e \<Rightarrow> Inl e
                         | Inr hs \<Rightarrow> (case address of
                              Some (JStr recipient) \<Rightarrow> Inr (recipient, hs @ CHR 0x0A # m_content m)
                            | _ \<Rightarrow> Inl AttributeError))))"

definition record_sent :: "ticket \<Rightarrow> string \<Rightarrow> error + json" where
  "record_sent t out_id =
    (case with_appended (t_channel_metadata t) ''message_ids'' (JStr out_id) None of
       Inl e \<Rightarrow> Inl e
     | Inr metadata \<Rightarrow> with_values (Some metadata) [(''last_outbound_message_id'', JStr out_id)])"

definition send_mail :: "string \<times> string \<Rightarrow> unit service" where
  "send_mail mail = modify (\<lambda>s. s\<lparr>outbox := outbox s @ [mail]\<rparr>)"

definition deliver_reply :: "settings \<Rightarrow> (string \<times> string \<Rightarrow> smtp_reply) \<Rightarrow> nat \<Rightarrow> uuid \<Rightarrow> ticket \<Rightarrow> message \<Rightarrow> unit service" where
  "deliver_reply cfg smtp job_try org t m =
    bind (organization_get_or_404 org) (\<lambda>organization.
    bind (from_sum (as_dict (t_channel_metadata t))) (\<lambda>metadata.
    bind (from_sum (reply_mail cfg organization t m metadata)) (\<lambda>mail.
    case smtp mail of
      SmtpTransientError \<Rightarrow> throw (Retry (2 ^ job_try))
    | SmtpPermanentError \<Rightarrow> ret ()
    | SmtpDelivered \<Rightarrow>
        andthen (send_mail mail)
        (bind (from_sum (record_sent t (outbound_message_id cfg (m_id m)))) (\<lambda>metadata'.
         andthen (set_channel_metadata (t_id t) metadata') commit)))))"

definition send_ticket_email_reply :: "settings \<Rightarrow> (string \<times> string \<Rightarrow> smtp_reply) \<Rightarrow> nat \<Rightarrow> uuid \<Rightarrow> uuid \<Rightarrow> uuid \<Rightarrow> unit service" where
  "send_ticket_email_reply cfg smtp job_try mid tid org = with_session
    (let sc = for_background_worker org in
     bind (get_or_404 MessageRepository sc (Some mid)) (\<lambda>m.
     bind (get_or_404 TicketRepository sc (Some tid)) (\<lambda>t.
     bind (from_sum (contains (t_channel_metadata t) ''message_ids'' (outbound_message_id cfg (m_id m)))) (\<lambda>sent.
     if sent then ret () else deliver_reply cfg smtp job_try org t m))))"

definition enqueue_ticket_email_reply :: "uuid \<Rightarrow> uuid \<Rightarrow> uuid \<Rightarrow> unit service" where
  "enqueue_ticket_email_reply mid tid org = enqueue_job (SendTicketEmailReply mid tid org)"

section \<open>What a run of the job goes through\<close>

lemma contains_record_sent:
  assumes "record_sent t out_id = Inr md"
  shows "contains (Some md) ''message_ids'' out_id = Inr True"
proof -
  from assms obtain fs xs where md: "md = JObj (dict_set ''last_outbound_message_id'' (JStr out_id)
      (dict_set ''message_ids'' (JArr (xs @ [JStr out_id])) fs))"
    by (auto simp: record_sent_def with_appended_def with_values_def as_dict_def Let_def split: sum.splits)
  have "dict_set k v d \<noteq> []" for k :: string and v :: json and d by (cases d) (auto split: if_splits)
  then show ?thesis by (simp add: contains_def md json_get_def map_of_dict_set)
qed

lemma deliver_reply_cases:
  assumes "deliver_reply cfg smtp n org t m s = (Inr (), s')"
  obtains (nothing) "s' = s"
  | (mailed) md mail where "record_sent t (outbound_message_id cfg (m_id m)) = Inr md" "db_ok (db s')"
      "s' = s\<lparr>outbox := outbox s @ [mail], db := tickets_update (update_where (\<lambda>x. t_id x = t_id t) (\<lambda>x. x\<lparr>t_channel_metadata := Some md\<rparr>)) (db s),
         committed := tickets_update (update_where (\<lambda>x. t_id x = t_id t) (\<lambda>x. x\<lparr>t_channel_metadata := Some md\<rparr>)) (db s)\<rparr>"
proof -
  obtain mail where k: "(case smtp mail of
         SmtpTransientError \<Rightarrow> throw (Retry (2 ^ n))
       | SmtpPermanentError \<Rightarrow> ret ()
       | SmtpDelivered \<Rightarrow>
           andthen (send_mail mail)
           (bind (from_sum (record_sent t (outbound_message_id cfg (m_id m)))) (\<lambda>metadata'.
            andthen (set_channel_metadata (t_id t) metadata') commit))) s = (Inr (), s')"
    using assms unfolding deliver_reply_def
    by (elim bind_readonly_InrE [OF _ readonly_organization_get] from_sum_InrE) (rule that)
  show thesis
  proof (cases "smtp mail")
    case SmtpDelivered
    with k obtain md where md: "record_sent t (outbound_message_id cfg (m_id m)) = Inr md"
      by (cases "record_sent t (outbound_message_id cfg (m_id m))") (simp_all add: send_mail_def andthen_def bind_modify bind_from_sum)
    with k SmtpDelivered have "db_ok (db s') \<and> s' = s\<lparr>outbox := outbox s @ [mail],
         db := tickets_update (update_where (\<lambda>x. t_id x = t_id t) (\<lambda>x. x\<lparr>t_channel_metadata := Some md\<rparr>)) (db s),
         committed := tickets_update (update_where (\<lambda>x. t_id x = t_id t) (\<lambda>x. x\<lparr>t_channel_metadata := Some md\<rparr>)) (db s)\<rparr>"
      by (auto simp: send_mail_def andthen_def bind_modify bind_from_sum set_channel_metadata_def write_row_def bind_update_db
          commit_run split: if_splits)
    then show thesis by (elim conjE) (rule mailed [OF md])
  next
    case SmtpPermanentError
    with k have "s' = s" by (simp add: ret_run)
    then show thesis by (rule nothing)
  qed (use k in \<open>simp add: raise_run\<close>)
qed

text \<open>What a run of the job that returns went through: it stopped early, or it sent the mail and recorded it.\<close>

lemma send_reply_cases:
  assumes "send_ticket_email_reply cfg smtp n mid tid org s = (Inr (), s')" "db s = committed s"
  obtains (nothing) "s' = s"
  | (mailed) m t md mail where "get_or_404 MessageRepository (for_background_worker org) (Some mid) s = (Inr m, s)"
      "get_or_404 TicketRepository (for_background_worker org) (Some tid) s = (Inr t, s)"
      "record_sent t (outbound_message_id cfg mid) = Inr md" "db_ok (db s')"
      "s' = s\<lparr>outbox := outbox s @ [mail], db := tickets_update (update_where (\<lambda>x. t_id x = tid) (\<lambda>x. x\<lparr>t_channel_metadata := Some md\<rparr>)) (db s),
         committed := tickets_update (update_where (\<lambda>x. t_id x = tid) (\<lambda>x. x\<lparr>t_channel_metadata := Some md\<rparr>)) (db s)\<rparr>"
proof -
  have keep: "s\<lparr>db := committed s\<rparr> = s" using assms(2) [symmetric] by simp
  from assms(1) obtain t0 m t sent where s': "s' = t0\<lparr>db := committed t0\<rparr>"
    and m: "get_or_404 MessageRepository (for_background_worker org) (Some mid) s = (Inr m, s)"
    and t: "get_or_404 TicketRepository (for_background_worker org) (Some tid) s = (Inr t, s)"
    and k: "(if sent then ret () else deliver_reply cfg smtp n org t m) s = (Inr (), t0)"
    by (auto simp: send_ticket_email_reply_def with_session_def Let_def
        elim!: bind_readonly_InrE [OF _ readonly_get_or_404] from_sum_InrE split: prod.splits)
  have ids: "m_id m = mid" "t_id t = tid" using get_or_404_found [OF m] get_or_404_found [OF t] by (simp_all add: MessageRepository_def)
  show thesis
  proof (cases sent)
    case True
    with k s' keep have "s' = s" by (simp add: ret_run)
    then show thesis by (rule that(1))
  next
    case False
    with k have "deliver_reply cfg smtp n org t m s = (Inr (), t0)" by simp
    then show thesis
    proof (cases rule: deliver_reply_cases)
      case nothing
      with s' keep that(1) show thesis by simp
    next
      case (mailed md mail)
      with s' ids show thesis by (intro that(2) [OF m t, of md mail]) simp_all
    qed
  qed
qed

text \<open>A ticket that did not come in by mail has no address to answer to, and the API lets a ticket be created on the e-mail
  channel: the job of an agent's reply in it fails, whatever the delivery.\<close>

theorem no_address_no_reply:
  "reply_mail default_settings org_a (mk_ticket 62 10 13)
     \<lparr>m_id = 73, m_created_at = 0, m_ticket_id = 62, m_author_type = AUTHOR_AGENT, m_content = ''On our way'',
      m_is_ai_suggestion = False, m_based_on_suggestion_id = None\<rparr> [] = Inl AttributeError"
  by code_simp

end
