(* ===== verification/MailTraffic.thy ===== *)
theory MailTraffic
  imports EmailReply
begin

text \<open>
  The e-mail channel over time: what a delivery of \<open>src/app/services/email_ingestion.py\<close> or a job of
  \<open>src/app/workers/email.py\<close> left in the database is still there after any amount of further traffic.

  \<open>mail_kept\<close> says what the traffic keeps, \<open>mail_step\<close> is one request, job or other activity, \<open>mail_traffic\<close> any
  sequence of them. Every kind of step keeps \<open>mail_kept\<close>; the two idempotence theorems follow.
\<close>

section \<open>The ids a ticket carries\<close>

text \<open>The list under \<open>message_ids\<close>, where the metadata has the shape the channel writes: absent, or a dictionary whose
  \<open>message_ids\<close> is absent or a list.\<close>

definition recorded_ids :: "json option \<Rightarrow> json list option" where
  "recorded_ids metadata = (case metadata of
      None \<Rightarrow> Some []
    | Some (JObj fs) \<Rightarrow> (case map_of fs ''message_ids'' of None \<Rightarrow> Some [] | Some (JArr xs) \<Rightarrow> Some xs | Some _ \<Rightarrow> None)
    | Some _ \<Rightarrow> None)"

definition ids_recorded :: "database \<Rightarrow> bool" where
  "ids_recorded d \<longleftrightarrow> list_all (\<lambda>t. recorded_ids (t_channel_metadata t) \<noteq> None) (tickets d)"

lemma contains_recorded:
  "recorded_ids md = Some xs \<Longrightarrow> contains md ''message_ids'' m = Inr (JStr m \<in> set xs)"
  by (auto simp: recorded_ids_def contains_def json_get_def split: option.splits json.splits)

lemma recorded_appended:
  assumes "recorded_ids md = Some xs" "with_appended md ''message_ids'' v None = Inr j"
  shows "recorded_ids (Some j) = Some (xs @ [v])"
proof -
  from assms(1) obtain fs where fs: "as_dict md = Inr fs" "json_items (json_get fs ''message_ids'' (JArr [])) = Inr xs"
    by (auto simp: recorded_ids_def as_dict_def json_get_def split: option.splits json.splits)
  with assms(2) have "j = JObj (dict_set ''message_ids'' (JArr (xs @ [v])) fs)" by (simp add: with_appended_def Let_def)
  then show ?thesis by (simp add: recorded_ids_def map_of_dict_set)
qed

lemma recorded_sent:
  assumes "recorded_ids (t_channel_metadata t) = Some xs" "record_sent t out_id = Inr j"
  shows "recorded_ids (Some j) = Some (xs @ [JStr out_id])"
proof -
  from assms(2) obtain j' where j': "with_appended (t_channel_metadata t) ''message_ids'' (JStr out_id) None = Inr j'"
    and j: "with_values (Some j') [(''last_outbound_message_id'', JStr out_id)] = Inr j"
    by (auto simp: record_sent_def split: sum.splits)
  have "recorded_ids (Some j') = Some (xs @ [JStr out_id])" by (rule recorded_appended [OF assms(1) j'])
  moreover from j' obtain fs where "j' = JObj fs" by (auto simp: with_appended_def Let_def split: sum.splits)
  ultimately show ?thesis using j by (auto simp: with_values_def as_dict_def recorded_ids_def map_of_dict_set)
qed

lemma recorded_email_metadata: "recorded_ids (Some (email_metadata cfg inbound)) = Some [JStr (provider_message_id inbound)]"
  by (simp add: recorded_ids_def email_metadata_def)

section \<open>What the traffic keeps\<close>

text \<open>A ticket keeps the columns that decide who sees it and the ids it carries; ids are only added, and only those \<open>P\<close>
  permits. Tickets, users and messages are only added; contracts and properties stay.\<close>

definition mail_columns :: "ticket \<Rightarrow> uuid \<times> uuid \<times> uuid \<times> uuid option \<times> uuid option \<times> TicketChannel" where
  "mail_columns t = (t_id t, t_organization_id t, t_user_id t, t_property_id t, t_contract_id t, t_channel t)"

definition permitted :: "(json \<Rightarrow> bool) \<Rightarrow> ticket \<Rightarrow> bool" where
  "permitted P t \<longleftrightarrow> (\<exists>ys. recorded_ids (t_channel_metadata t) = Some ys \<and> list_all P ys)"

definition row_kept :: "(json \<Rightarrow> bool) \<Rightarrow> ticket \<Rightarrow> ticket \<Rightarrow> bool" where
  "row_kept P t t' \<longleftrightarrow> mail_columns t' = mail_columns t \<and>
     (\<exists>xs ys. recorded_ids (t_channel_metadata t) = Some xs \<and> recorded_ids (t_channel_metadata t') = Some (xs @ ys) \<and> list_all P ys)"

definition mail_kept :: "(json \<Rightarrow> bool) \<Rightarrow> database \<Rightarrow> database \<Rightarrow> bool" where
  "mail_kept P d d' \<longleftrightarrow>
     (\<exists>ts new. tickets d' = ts @ new \<and> list_all2 (row_kept P) (tickets d) ts \<and> list_all (permitted P) new) \<and>
     set (users d) \<subseteq> set (users d') \<and> set (messages d) \<subseteq> set (messages d') \<and>
     contracts d' = contracts d \<and> properties d' = properties d"

lemma row_kept_refl: "recorded_ids (t_channel_metadata t) \<noteq> None \<Longrightarrow> row_kept P t t"
  by (auto simp: row_kept_def)

lemma row_kept_trans: "row_kept P t u \<Longrightarrow> row_kept P u v \<Longrightarrow> row_kept P t v"
  by (fastforce simp: row_kept_def)

lemma row_kept_permitted: "row_kept P t u \<Longrightarrow> permitted P t \<Longrightarrow> permitted P u"
  by (fastforce simp: row_kept_def permitted_def)

lemma rows_kept_permitted: "list_all2 (row_kept P) ts us \<Longrightarrow> list_all (permitted P) ts \<Longrightarrow> list_all (permitted P) us"
  by (induction rule: list_all2_induct) (auto intro: row_kept_permitted)

lemma mail_kept_same_tickets:
  assumes "ids_recorded d" "tickets d' = tickets d" "set (users d) \<subseteq> set (users d')" "set (messages d) \<subseteq> set (messages d')"
    "contracts d' = contracts d" "properties d' = properties d"
  shows "mail_kept P d d'"
proof -
  have "list_all2 (row_kept P) (tickets d) (tickets d)"
    using assms(1) by (simp add: list_all2_same ids_recorded_def list_all_iff row_kept_refl)
  with assms(2-6) show ?thesis unfolding mail_kept_def by (intro conjI exI [of _ "tickets d"] exI [of _ "[]"]) simp_all
qed

lemma mail_kept_refl: "ids_recorded d \<Longrightarrow> mail_kept P d d"
  by (rule mail_kept_same_tickets) simp_all

lemma mail_kept_trans:
  assumes "mail_kept P d e" "mail_kept P e f"
  shows "mail_kept P d f"
proof -
  from assms(1) obtain ts new where e: "tickets e = ts @ new" "list_all2 (row_kept P) (tickets d) ts" "list_all (permitted P) new"
    unfolding mail_kept_def by blast
  from assms(2) obtain us new' where f: "tickets f = us @ new'" "list_all2 (row_kept P) (tickets e) us" "list_all (permitted P) new'"
    unfolding mail_kept_def by blast
  from f(2) e(1) obtain us1 us2 where us: "us = us1 @ us2" "list_all2 (row_kept P) ts us1" "list_all2 (row_kept P) new us2"
    by (auto simp: list_all2_append1)
  have "list_all2 (row_kept P) (tickets d) us1"
    using list_all2_trans [OF row_kept_trans e(2) us(2)] .
  moreover have "tickets f = us1 @ (us2 @ new')" "list_all (permitted P) (us2 @ new')"
    using f us(1) rows_kept_permitted [OF us(3) e(3)] by simp_all
  ultimately show ?thesis using assms unfolding mail_kept_def by (intro conjI) (blast, auto)
qed

lemma mail_kept_recorded: "mail_kept P d d' \<Longrightarrow> ids_recorded d'"
proof -
  have "list_all2 (row_kept P) ts us \<Longrightarrow> list_all (\<lambda>t. recorded_ids (t_channel_metadata t) \<noteq> None) us" for ts us
    by (induction rule: list_all2_induct) (auto simp: row_kept_def)
  moreover have "list_all (permitted P) us \<Longrightarrow> list_all (\<lambda>t. recorded_ids (t_channel_metadata t) \<noteq> None) us" for us
    by (auto simp: list_all_iff permitted_def)
  ultimately show "mail_kept P d d' \<Longrightarrow> ids_recorded d'" by (auto simp: mail_kept_def ids_recorded_def)
qed

lemma mail_kept_insert:
  assumes "ids_recorded d" "permitted P t"
  shows "mail_kept P d (tickets_update (\<lambda>ts. ts @ [t]) d)"
proof -
  have "list_all2 (row_kept P) (tickets d) (tickets d)"
    using assms(1) by (simp add: list_all2_same ids_recorded_def list_all_iff row_kept_refl)
  with assms(2) show ?thesis unfolding mail_kept_def by (intro conjI exI [of _ "tickets d"] exI [of _ "[t]"]) simp_all
qed

lemma mail_kept_update:
  assumes "db_ok d" "ids_recorded d" "t \<in> set (tickets d)" "t_id t = i" "row_kept P t (f t)"
  shows "mail_kept P d (tickets_update (update_where (\<lambda>x. t_id x = i) f) d)"
proof -
  have "row_kept P x (if t_id x = i then f x else x)" if x: "x \<in> set (tickets d)" for x
  proof (cases "t_id x = i")
    case True
    with x assms(3,4) db_ok_distinct(5) [OF assms(1)] have "x = t" by (auto dest: distinct_map_eq)
    with assms(4,5) show ?thesis by simp
  next
    case False
    with x assms(2) show ?thesis by (simp add: row_kept_refl ids_recorded_def list_all_iff)
  qed
  then have "list_all2 (row_kept P) (tickets d) (update_where (\<lambda>x. t_id x = i) f (tickets d))"
    by (simp add: update_where_def list.rel_map list_all2_same)
  then show ?thesis unfolding mail_kept_def by (intro conjI exI [of _ "update_where (\<lambda>x. t_id x = i) f (tickets d)"] exI [of _ "[]"]) simp_all
qed

text \<open>As a relation between the states of a run.\<close>

definition mail_frame :: "(json \<Rightarrow> bool) \<Rightarrow> world \<Rightarrow> world \<Rightarrow> bool" where
  "mail_frame P s s' \<longleftrightarrow> (ids_recorded (db s) \<longrightarrow> mail_kept P (db s) (db s'))"

interpretation mail: frame_relation "mail_frame P" for P
  by unfold_locales (auto simp: mail_frame_def intro: mail_kept_refl mail_kept_trans mail_kept_recorded)

section \<open>What each operation keeps\<close>

lemma always_mail_insert [simp, intro]:
  "always (mail_frame P) uuid4" "always (mail_frame P) flush"
  "always (mail_frame P) (insert_row UserRepository u)" "always (mail_frame P) (insert_row MessageRepository m)"
  by (auto simp: always_def mail_frame_def uuid4_def flush_def insert_row_def update_db_def modify_def UserRepository_def MessageRepository_def
      intro!: mail_kept_same_tickets split: list.splits)

lemma always_mail_add_ticket [intro]:
  assumes "\<And>u. t_channel_metadata (mk u) = None"
  shows "always (mail_frame P) (add_row TicketRepository sc mk)"
  using assms
  by (auto simp: always_def mail_frame_def add_row_def insert_row_def Let_def bind_uuid4 andthen_def bind_update_db ret_run TicketRepository_def
      permitted_def recorded_ids_def intro!: mail_kept_refl mail_kept_insert split: list.splits)

lemmas mail_rules =
  mail.always_rules mail.always_readonly [OF readonly_basic(1)] mail.always_readonly [OF readonly_basic(2)]
  mail.always_readonly [OF readonly_basic(3)] mail.always_readonly [OF readonly_basic(5)]
  mail.always_readonly [OF readonly_session(1)] mail.always_readonly [OF readonly_session(2)]
  mail.always_readonly [OF readonly_get_or_404] mail.always_readonly [OF readonly_from_sum] always_mail_insert

lemma always_mail_create_message: "always (mail_frame P) (create_message sc tid content based_on)"
  unfolding create_message_def validate_suggestion_reference_def Let_def by (intro mail_rules)

lemma always_mail_create_ticket:
  "always (mail_frame P) (create_ticket zones sc property_id contract_id title description category_id urgency_id channel)"
  unfolding create_ticket_def
  by (intro mail_rules always_mail_add_ticket mail.always_readonly [OF readonly_optional_lookup]
      mail.always_readonly [OF readonly_active_taxonomy] mail.always_readonly [OF readonly_resolve_sla_due_at]) simp

lemma always_mail_resolve_sender: "always (mail_frame P) (resolve_email_sender_identity org email name)"
  unfolding resolve_email_sender_identity_def resolve_or_provision_def find_user_by_email_def Let_def by (intro mail_rules)

lemma create_ticket_stored:
  assumes "create_ticket zones sc pid cid title descr cat urg ch s = (Inr t, s')"
  shows "t \<in> set (tickets (db s'))" "t_channel_metadata t = None" "db_ok (db s')"
  using assms by (rule create_ticket_InrE; simp add: new_ticket_def)+

lemma always_mail_create_new_ticket:
  assumes "P (JStr (provider_message_id inbound))"
  shows "always (mail_frame P) (create_new_ticket cfg zones sc inbound)"
proof -
  have "mail_frame P s s'" if run: "create_new_ticket cfg zones sc inbound s = (r, s')" for r s s'
  proof -
    let ?create = "create_ticket zones sc None None (or_else (Some (py_strip (subject inbound))) ''(no subject)'') (Some (text_body inbound)) None None EMAIL"
    let ?f = "\<lambda>x. x\<lparr>t_channel_metadata := Some (email_metadata cfg inbound)\<rparr>"
    obtain q s1 where c: "?create s = (q, s1)" by (cases "?create s")
    have one: "mail_frame P s s1" by (rule alwaysD [OF always_mail_create_ticket c])
    show ?thesis
    proof (cases q)
      case (Inl e)
      with c run have "s' = s1" by (simp add: create_new_ticket_def bind_Inl)
      with one show ?thesis by simp
    next
      case (Inr t)
      note t = create_ticket_stored [OF c [unfolded Inr]]
      have "db s' = tickets_update (update_where (\<lambda>x. t_id x = t_id t) ?f) (db s1)"
        using c Inr run by (auto simp: create_new_ticket_def bind_Inr set_channel_metadata_def write_row_def andthen_def bind_update_db
            bind_flush ret_run split: if_splits)
      moreover have "row_kept P t (?f t)"
        using assms by (simp add: row_kept_def mail_columns_def t(2) recorded_email_metadata) (simp add: recorded_ids_def)
      ultimately have "mail_frame P s1 s'"
        using t(1,3) by (auto simp: mail_frame_def intro: mail_kept_update)
      with one show ?thesis by (rule mail.trans)
    qed
  qed
  then show ?thesis by (simp add: always_def) (metis prod.collapse)
qed

lemma append_message_kept:
  assumes ok: "db_ok (db s)" and P: "P (JStr (provider_message_id inbound))"
    and run: "append_message sc tid inbound s = (r, s')"
  shows "mail_frame P s s'"
proof (cases "get_or_404 TicketRepository sc (Some tid) s")
  case (Pair q s0)
  then have s0: "s0 = s" by (rule readonlyD [OF readonly_get_or_404])
  show ?thesis
  proof (cases q)
    case (Inl e)
    with Pair s0 run have "s' = s" by (simp add: append_message_def bind_Inl)
    then show ?thesis by (simp add: mail.refl)
  next
    case (Inr t)
    with Pair s0 have g: "get_or_404 TicketRepository sc (Some tid) s = (Inr t, s)" by simp
    from get_or_404_found [OF g] have t: "t \<in> set (tickets (db s))" "t_id t = tid" by simp_all
    let ?new = "with_appended (t_channel_metadata t) ''message_ids'' (JStr (provider_message_id inbound)) None"
    show ?thesis
    proof (cases ?new)
      case (Inl e)
      with g run have "s' = s" by (simp add: append_message_def bind_Inr bind_from_sum)
      then show ?thesis by (simp add: mail.refl)
    next
      case (Inr md)
      let ?f = "\<lambda>x. x\<lparr>t_channel_metadata := Some md\<rparr>"
      let ?s1 = "s\<lparr>db := tickets_update (update_where (\<lambda>x. t_id x = tid) ?f) (db s)\<rparr>"
      have rest: "andthen (create_message sc tid (text_body inbound) None) (ret (MESSAGE_APPENDED, ?f t)) ?s1 = (r, s')"
        using g run Inr t(2) by (simp add: append_message_def bind_Inr bind_from_sum andthen_def set_channel_metadata_def write_row_def bind_update_db)
      have "mail_frame P s ?s1" unfolding mail_frame_def
      proof
        assume rec: "ids_recorded (db s)"
        then obtain xs where xs: "recorded_ids (t_channel_metadata t) = Some xs" using t(1) by (auto simp: ids_recorded_def list_all_iff)
        have "row_kept P t (?f t)" using xs recorded_appended [OF xs Inr] P by (simp add: row_kept_def mail_columns_def)
        then show "mail_kept P (db s) (db ?s1)" using mail_kept_update [OF ok rec t] by simp
      qed
      moreover have "always (mail_frame P) (andthen (create_message sc tid (text_body inbound) None) (ret (MESSAGE_APPENDED, ?f t)))"
        by (intro mail_rules always_mail_create_message)
      from this rest have "mail_frame P ?s1 s'" by (rule alwaysD)
      ultimately show ?thesis by (rule mail.trans)
    qed
  qed
qed

lemma ingest_kept:
  assumes ok: "db_ok (db s)" and P: "P (JStr (provider_message_id inbound))"
    and run: "ingest_inbound_email cfg zones org inbound s = (r, s')"
  shows "mail_frame P s s'"
proof -
  let ?resolve = "resolve_email_sender_identity (o_id org) (from_address inbound) (from_display_name inbound)"
  obtain q s1 where res: "?resolve s = (q, s1)" by (cases "?resolve s")
  have one: "mail_frame P s s1" by (rule alwaysD [OF always_mail_resolve_sender res])
  show ?thesis
  proof (cases q)
    case (Inl e)
    with res run have "s' = s1" by (simp add: ingest_inbound_email_def bind_Inl)
    with one show ?thesis by simp
  next
    case (Inr sender)
    have ok1: "db_ok (db s1)" using resolve_email_InrE [OF res [unfolded Inr] ok] by blast
    have "mail_frame P s1 s'"
      using run res Inr ok1 append_message_kept [of s1 P inbound, OF ok1 P]
        alwaysD [OF always_mail_create_new_ticket [of P inbound, OF P]]
      by (auto simp: ingest_inbound_email_def bind_Inr bind_from_sum load_email_candidates_def bind_query bind_reads ret_run mail.refl
          split: sum.splits option.splits)
    with one show ?thesis by (rule mail.trans)
  qed
qed

lemma receive_kept:
  assumes ok: "db_ok (db s)" and P: "P (JStr (provider_message_id inbound))"
    and run: "receive_email_webhook cfg zones organization inbound s = (r, s')"
  shows "mail_frame P s s'"
proof (cases organization)
  case None
  with run show ?thesis by (simp add: receive_email_webhook_def ret_run mail.refl)
next
  case (Some org)
  obtain q s1 where i: "ingest_inbound_email cfg zones org inbound s = (q, s1)" by (cases "ingest_inbound_email cfg zones org inbound s")
  with run Some have "s' = s1"
    by (cases q) (auto simp: receive_email_webhook_def try_except_def bind_def ret_run raise_run split: if_splits)
  with ingest_kept [of s P inbound, OF ok P i] show ?thesis by simp
qed

lemma taxonomy_change_frame:
  assumes "taxonomy_change zones sc ticket tid cat urg s = (Inr f, s')"
  shows "users (db s') = users (db s) \<and> messages (db s') = messages (db s) \<and> contracts (db s') = contracts (db s) \<and>
    properties (db s') = properties (db s)"
  using assms
  by (auto simp: taxonomy_change_def Let_def andthen_run mark_human_corrected_def bind_update_db ret_run
      elim!: bind_readonly_InrE [OF _ readonly_get_or_404] bind_readonly_InrE [OF _ readonly_resolve_sla_due_at] split: if_splits)

lemma update_ticket_kept:
  assumes ok: "db_ok (db s)" and rec: "ids_recorded (db s)"
    and run: "update_ticket zones sc tid status agent_id cat urg s = (Inr (t', entered), s')"
  shows "mail_kept P (db s) (db s')"
  using run
proof (rule update_ticket_InrE)
  fix t set_agent set_taxonomy s1 s2
  assume g: "get_or_404 TicketRepository sc (Some tid) s = (Inr t, s)"
    and a: "agent_change sc agent_id s = (Inr set_agent, s)"
    and x: "taxonomy_change zones sc t tid cat urg s = (Inr set_taxonomy, s1)"
    and u: "update_row TicketRepository sc tid
        (\<lambda>t. set_taxonomy (status_change status (now s) (set_agent t))) s1 = (Inr t', s2)"
    and e: "if entered then \<exists>e. record_resolved sc (t_id t') (t_sla_due_at t') s2 = (Inr e, s') else s' = s2"
  from get_or_404_found [OF g] have t: "t \<in> set (tickets (db s))" "t_id t = tid" by simp_all
  have same: "tickets (db s1) = tickets (db s)" using taxonomy_change_effect [OF x] by simp
  have upd: "t' = (set_taxonomy (status_change status (now s) (set_agent t)))\<lparr>t_organization_id := t_organization_id t\<rparr>"
    "s2 = s1\<lparr>db := tickets_update (update_where (\<lambda>x. t_id x = tid) (\<lambda>_. t')) (db s1)\<rparr>"
    using update_row_ticket [OF _ u, of t] t same db_ok_distinct(5) [OF ok] by auto
  from changed_row [OF a x upd(1)] obtain due where "t' = updated_ticket t (now s) status agent_id cat urg (Some due)" by blast
  then have "mail_columns t' = mail_columns t" "t_channel_metadata t' = t_channel_metadata t"
    by (simp_all add: mail_columns_def updated_ticket_def)
  then have row: "row_kept P t t'" using rec t(1) by (auto simp: row_kept_def ids_recorded_def list_all_iff)
  have "mail_kept P (db s) (tickets_update (update_where (\<lambda>x. t_id x = tid) (\<lambda>_. t')) (db s))"
    by (rule mail_kept_update [OF ok rec t row])
  moreover have "mail_kept P (tickets_update (update_where (\<lambda>x. t_id x = tid) (\<lambda>_. t')) (db s)) (db s')"
    using mail_kept_recorded [OF calculation] taxonomy_change_frame [OF x] same e upd(2)
    by (auto intro!: mail_kept_same_tickets dest!: record_resolved_effect split: if_splits)
  ultimately show ?thesis by (rule mail_kept_trans)
qed

section \<open>Traffic\<close>

text \<open>A step is a delivery to the e-mail webhook, a job mailing a reply, a request that opens, updates or answers a ticket
  - each with any arguments, by anybody, returning or raising -, or any activity elsewhere: one that leaves a consistent
  committed database with the same tickets, messages, users, contracts and properties (the passing of time, the SLA monitor,
  anonymous chats, the taxonomy, refused requests, ...). \<open>P\<close> says which message ids deliveries and replies may record.\<close>

definition mail_ready :: "world \<Rightarrow> bool" where
  "mail_ready s \<longleftrightarrow> db s = committed s \<and> db_ok (db s) \<and> ids_recorded (db s)"

lemma mail_readyD: "mail_ready s \<Longrightarrow> db s = committed s" "mail_ready s \<Longrightarrow> db_ok (db s)" "mail_ready s \<Longrightarrow> ids_recorded (db s)"
  unfolding mail_ready_def by blast+

lemma mail_unchanged:
  assumes "mail_ready s" "db t = db s" "db t = committed t"
  shows "mail_ready t \<and> mail_kept P (db s) (db t)"
proof
  show "mail_ready t" using mail_readyD(2,3) [OF assms(1)] assms(3) unfolding mail_ready_def assms(2) by simp
  show "mail_kept P (db s) (db t)" unfolding assms(2) by (rule mail_kept_refl [OF mail_readyD(3) [OF assms(1)]])
qed

inductive mail_step :: "(json \<Rightarrow> bool) \<Rightarrow> world \<Rightarrow> world \<Rightarrow> bool" for P where
  mail_received: "get_session (receive_email_webhook cfg zones organization inbound) s = (r, s') \<Longrightarrow>
    P (JStr (provider_message_id inbound)) \<Longrightarrow> mail_step P s s'"
| reply_job_run: "send_ticket_email_reply cfg smtp job_try mid tid org s = (r, s') \<Longrightarrow>
    P (JStr (outbound_message_id cfg mid)) \<Longrightarrow> mail_step P s s'"
| ticket_opened: "get_session (create_ticket zones sc pid cid title descr cat urg ch) s = (r, s') \<Longrightarrow> mail_step P s s'"
| ticket_updated: "get_session (update_ticket zones sc tid status agent_id cat urg) s = (r, s') \<Longrightarrow> mail_step P s s'"
| message_posted: "get_session (create_message sc tid content based_on) s = (r, s') \<Longrightarrow> mail_step P s s'"
| elsewhere: "tickets (db s') = tickets (db s) \<Longrightarrow> messages (db s') = messages (db s) \<Longrightarrow> users (db s') = users (db s) \<Longrightarrow>
    contracts (db s') = contracts (db s) \<Longrightarrow> properties (db s') = properties (db s) \<Longrightarrow>
    committed s' = db s' \<Longrightarrow> db_ok (db s') \<Longrightarrow> mail_step P s s'"

inductive mail_traffic :: "(json \<Rightarrow> bool) \<Rightarrow> world \<Rightarrow> world \<Rightarrow> bool" for P where
  no_traffic: "mail_traffic P s s"
| more_traffic: "mail_traffic P s t \<Longrightarrow> mail_step P t u \<Longrightarrow> mail_traffic P s u"

lemma request_kept:
  assumes ready: "mail_ready s" and h: "always uncommitted h" and run: "get_session h s = (r, s')"
    and returned: "\<And>x t. h s = (Inr x, t) \<Longrightarrow> mail_kept P (db s) (db t)"
  shows "mail_ready s' \<and> mail_kept P (db s) (db s')"
proof -
  note out = get_session_outcome [OF h mail_readyD(1) [OF ready] run]
  show ?thesis
  proof (cases r)
    case (Inl e)
    from out have same: "db s' = committed s' \<and> db s' = db s" unfolding Inl sum.case .
    show ?thesis by (rule mail_unchanged [OF ready conjunct2 [OF same] conjunct1 [OF same]])
  next
    case (Inr x)
    with out obtain t where t: "h s = (Inr x, t)" "db_ok (db t)" "db s' = db t" "db s' = committed s'" by auto
    from returned [OF t(1)] t show ?thesis by (auto simp: mail_ready_def dest: mail_kept_recorded)
  qed
qed

lemma uncommitted_create_message [simp, intro]: "always uncommitted (create_message sc tid content based_on)"
  unfolding create_message_def validate_suggestion_reference_def insert_row_def Let_def
  by (intro uncommitted_rules uncommitted_repository uncommitted.always_readonly [OF readonly_session(1)]
      uncommitted.always_readonly [OF readonly_session(2)])

lemma uncommitted_set_channel_metadata [simp, intro]: "always uncommitted (set_channel_metadata tid md)"
  unfolding set_channel_metadata_def by (rule uncommitted_repository)

lemma uncommitted_ingest: "always uncommitted (ingest_inbound_email cfg zones org inbound)"
  unfolding ingest_inbound_email_def load_email_candidates_def append_message_def create_new_ticket_def
    resolve_email_sender_identity_def resolve_or_provision_def find_user_by_email_def insert_row_def Let_def
  by (intro uncommitted_rules uncommitted_repository uncommitted.always_readonly [OF readonly_session(1)]
      uncommitted.always_readonly [OF readonly_session(2)] uncommitted.always_readonly [OF readonly_from_sum]
      uncommitted_create_message uncommitted_create_ticket uncommitted_set_channel_metadata)

lemma uncommitted_receive: "always uncommitted (receive_email_webhook cfg zones organization inbound)"
proof (cases organization)
  case (Some org)
  have "always uncommitted (case x of (outcome, ticket) \<Rightarrow> ret (f outcome ticket))" for x :: "'c \<times> 'd" and f
    by (cases x) (simp add: uncommitted.always_readonly [OF readonly_basic(1)])
  then show ?thesis unfolding Some receive_email_webhook_def option.case
    by (intro uncommitted_rules uncommitted_ingest)
qed (simp add: receive_email_webhook_def uncommitted.always_readonly [OF readonly_basic(1)])

text \<open>The job commits last: when it raises, nothing was committed.\<close>

definition aborts_clean :: "'a service \<Rightarrow> bool" where
  "aborts_clean m \<longleftrightarrow> (\<forall>s e s'. m s = (Inl e, s') \<longrightarrow> committed s' = committed s)"

lemma aborts_clean_uncommitted: "always uncommitted m \<Longrightarrow> aborts_clean m"
  by (auto simp: aborts_clean_def uncommitted_def dest: alwaysD)

lemma aborts_clean_commit: "aborts_clean commit"
  by (simp add: aborts_clean_def commit_run)

lemma aborts_clean_bind:
  assumes "always uncommitted m" "\<And>x. aborts_clean (f x)"
  shows "aborts_clean (bind m f)"
  using assms unfolding aborts_clean_def
  by (auto simp: bind_def uncommitted_def split: prod.splits sum.splits dest!: alwaysD [OF assms(1)])

lemma aborts_clean_andthen: "always uncommitted m \<Longrightarrow> aborts_clean k \<Longrightarrow> aborts_clean (andthen m k)"
  by (simp add: andthen_def aborts_clean_bind)

lemma uncommitted_send_mail: "always uncommitted (send_mail mail)"
  by (simp add: always_def send_mail_def modify_def uncommitted_def)

lemma aborts_clean_deliver: "aborts_clean (deliver_reply cfg smtp n org t m)"
proof -
  have "aborts_clean (case smtp mail of
         SmtpTransientError \<Rightarrow> throw (Retry (2 ^ n))
       | SmtpPermanentError \<Rightarrow> ret ()
       | SmtpDelivered \<Rightarrow>
           andthen (send_mail mail)
           (bind (from_sum (record_sent t (outbound_message_id cfg (m_id m)))) (\<lambda>metadata'.
            andthen (set_channel_metadata (t_id t) metadata') commit)))" for mail
  proof (cases "smtp mail")
    case SmtpDelivered
    show ?thesis unfolding SmtpDelivered smtp_reply.case
      by (intro aborts_clean_andthen aborts_clean_bind aborts_clean_commit uncommitted_send_mail
          uncommitted.always_readonly [OF readonly_from_sum] uncommitted_set_channel_metadata)
  qed (simp_all add: aborts_clean_uncommitted uncommitted.always_readonly readonly_basic)
  then show ?thesis unfolding deliver_reply_def
    by (intro aborts_clean_bind uncommitted.always_readonly [OF readonly_organization_get] uncommitted.always_readonly [OF readonly_from_sum])
qed

lemma send_reply_raised:
  assumes "send_ticket_email_reply cfg smtp n mid tid org s = (Inl e, s')"
  shows "committed s' = committed s \<and> db s' = committed s"
proof -
  have "aborts_clean (let sc = for_background_worker org in
     bind (get_or_404 MessageRepository sc (Some mid)) (\<lambda>m.
     bind (get_or_404 TicketRepository sc (Some tid)) (\<lambda>t.
     bind (from_sum (contains (t_channel_metadata t) ''message_ids'' (outbound_message_id cfg (m_id m)))) (\<lambda>sent.
     if sent then ret () else deliver_reply cfg smtp n org t m))))"
    unfolding Let_def
    by (intro aborts_clean_bind uncommitted_repository uncommitted.always_readonly [OF readonly_from_sum])
      (simp add: aborts_clean_deliver aborts_clean_uncommitted [OF uncommitted.always_readonly] readonly_basic)
  with assms show ?thesis
    by (auto simp: send_ticket_email_reply_def with_session_def aborts_clean_def split: prod.splits)
qed

lemma reply_job_kept:
  assumes ready: "mail_ready s" and P: "P (JStr (outbound_message_id cfg mid))"
    and run: "send_ticket_email_reply cfg smtp n mid tid org s = (r, s')"
  shows "mail_ready s' \<and> mail_kept P (db s) (db s')"
proof -
  note c = mail_readyD [OF ready]
  show ?thesis
  proof (cases r)
    case (Inl e)
    from send_reply_raised [OF run [unfolded Inl]] have "db s' = db s" "db s' = committed s'" using c(1) by simp_all
    with ready show ?thesis by (rule mail_unchanged)
  next
    case (Inr u)
    with run have "send_ticket_email_reply cfg smtp n mid tid org s = (Inr (), s')" by simp
    from this c(1) show ?thesis
    proof (cases rule: send_reply_cases)
      case nothing
      then have "db s' = db s" "db s' = committed s'" using c(1) by simp_all
      with ready show ?thesis by (rule mail_unchanged)
    next
      case (mailed m t md mail)
      from get_or_404_found [OF mailed(2)] have t: "t \<in> set (tickets (db s))" "t_id t = tid" by simp_all
      then obtain xs where xs: "recorded_ids (t_channel_metadata t) = Some xs" using c(3) by (auto simp: ids_recorded_def list_all_iff)
      have "row_kept P t (t\<lparr>t_channel_metadata := Some md\<rparr>)"
        using xs recorded_sent [OF xs mailed(3)] P by (simp add: row_kept_def mail_columns_def)
      then have "mail_kept P (db s) (db s')"
        using mail_kept_update [OF c(2,3) t, of P "\<lambda>x. x\<lparr>t_channel_metadata := Some md\<rparr>"] mailed(5) by simp
      with mailed(4,5) show ?thesis by (auto simp: mail_ready_def dest: mail_kept_recorded)
    qed
  qed
qed

lemma mail_step_kept:
  assumes "mail_step P s s'" "mail_ready s"
  shows "mail_ready s' \<and> mail_kept P (db s) (db s')"
proof -
  note c = mail_readyD(2,3) [OF assms(2)]
  from assms(1) show ?thesis
  proof cases
    case (mail_received cfg zones organization inbound r)
    then show ?thesis
      using receive_kept [of s P inbound, OF c(1) mail_received(2)] c(2)
      by (intro request_kept [OF assms(2) uncommitted_receive mail_received(1)]) (auto simp: mail_frame_def)
  next
    case (reply_job_run cfg smtp job_try mid tid org r)
    from reply_job_kept [of s P cfg mid, OF assms(2) reply_job_run(2,1)] show ?thesis .
  next
    case (ticket_opened zones sc pid cid title descr cat urg ch r)
    then show ?thesis using alwaysD [OF always_mail_create_ticket] c(2)
      by (intro request_kept [OF assms(2) uncommitted_create_ticket ticket_opened]) (auto simp: mail_frame_def)
  next
    case (ticket_updated zones sc tid status agent_id cat urg r)
    then show ?thesis using update_ticket_kept [OF c]
      by (intro request_kept [OF assms(2) uncommitted_update_ticket ticket_updated]) auto
  next
    case (message_posted sc tid content based_on r)
    then show ?thesis using alwaysD [OF always_mail_create_message] c(2)
      by (intro request_kept [OF assms(2) uncommitted_create_message message_posted]) (auto simp: mail_frame_def)
  next
    case elsewhere
    then have "mail_kept P (db s) (db s')" using c(2) by (intro mail_kept_same_tickets) simp_all
    with elsewhere show ?thesis by (auto simp: mail_ready_def dest: mail_kept_recorded)
  qed
qed

lemma mail_traffic_kept:
  "mail_traffic P s s' \<Longrightarrow> mail_ready s \<Longrightarrow> mail_ready s' \<and> mail_kept P (db s) (db s')"
proof (induction rule: mail_traffic.induct)
  case (no_traffic s)
  then show ?case by (simp add: mail_kept_refl mail_readyD(3))
next
  case (more_traffic s t u)
  then show ?case using mail_step_kept [OF more_traffic.hyps(2)] by (blast intro: mail_kept_trans)
qed

section \<open>A mail is ingested once\<close>

lemma ticket_visible_kept:
  "row_kept P t t' \<Longrightarrow> contracts d' = contracts d \<Longrightarrow> properties d' = properties d \<Longrightarrow>
     ticket_visible sc d' t' = ticket_visible sc d t"
  by (simp add: row_kept_def mail_columns_def ticket_visible_def own_contract_def own_property_def split: UserRole.splits)

lemma candidates_kept:
  assumes "mail_kept P d d'"
  obtains cs new where "email_candidates sc d' = cs @ new" "list_all2 (row_kept P) (email_candidates sc d) cs"
proof -
  from assms obtain ts new where d': "tickets d' = ts @ new" "list_all2 (row_kept P) (tickets d) ts"
    "contracts d' = contracts d" "properties d' = properties d" unfolding mail_kept_def by blast
  let ?Q = "\<lambda>d t. ticket_visible sc d t \<and> t_channel t = EMAIL"
  have cands: "email_candidates sc x = filter (?Q x) (tickets x)" for x
    by (simp add: select_rows_def TicketRepository_def)
  have "list_all2 (row_kept P) (filter (?Q d) xs) (filter (?Q d') ys)" if "list_all2 (row_kept P) xs ys" for xs ys
    using that
  proof (induction rule: list_all2_induct)
    case (Cons x xs y ys)
    then have "t_channel y = t_channel x" by (simp add: row_kept_def mail_columns_def)
    with Cons ticket_visible_kept [OF Cons.hyps(1) d'(3,4), of sc] show ?case by simp
  qed simp
  from this [OF d'(2)] show thesis
    by (intro that [of "filter (?Q d') ts" "filter (?Q d') new"]) (simp_all add: cands d'(1))
qed

lemma find_replay_kept:
  assumes "list_all2 (row_kept (\<lambda>k. k \<noteq> JStr m)) cs cs'" "find_replay cs m = Inr (Some t)"
  shows "\<exists>t'. find_replay (cs' @ new) m = Inr (Some t') \<and> t_id t' = t_id t"
  using assms
proof (induction rule: list_all2_induct)
  case (Cons x xs y ys)
  from Cons.hyps(1) obtain ids more where ids: "recorded_ids (t_channel_metadata x) = Some ids"
    "recorded_ids (t_channel_metadata y) = Some (ids @ more)" "list_all (\<lambda>k. k \<noteq> JStr m) more"
    and id: "t_id y = t_id x" by (auto simp: row_kept_def mail_columns_def)
  then have "JStr m \<in> set (ids @ more) \<longleftrightarrow> JStr m \<in> set ids" by (auto simp: list_all_iff)
  with Cons contains_recorded [OF ids(1), of m] contains_recorded [OF ids(2), of m] id show ?case
    by (cases "JStr m \<in> set ids") auto
qed simp

lemma mail_known_kept:
  assumes "mail_known m address org i sender sc d" "mail_kept (\<lambda>k. k \<noteq> JStr m) d d'"
  shows "mail_known m address org i sender sc d'"
proof -
  from assms(1) obtain t where t: "find_replay (email_candidates sc d) m = Inr (Some t)" "t_id t = i" unfolding mail_known_def by blast
  from assms(2) obtain cs new where "email_candidates sc d' = cs @ new" "list_all2 (row_kept (\<lambda>k. k \<noteq> JStr m)) (email_candidates sc d) cs"
    by (rule candidates_kept)
  with find_replay_kept [of m _ cs t new] t have "\<exists>t. find_replay (email_candidates sc d') m = Inr (Some t) \<and> t_id t = i" by auto
  moreover have "set (users d) \<subseteq> set (users d')" using assms(2) by (simp add: mail_kept_def)
  ultimately show ?thesis using assms(1) unfolding mail_known_def by auto
qed

lemma ingest_request_kept:
  assumes ok: "db_ok (db s)" "ids_recorded (db s)" and run: "get_session (ingest_inbound_email cfg zones org inbound) s = (Inr x, s')"
  obtains t where "ingest_inbound_email cfg zones org inbound s = (Inr x, t)" "s' = t\<lparr>committed := db t\<rparr>" "mail_ready s'"
proof -
  obtain q t where i: "ingest_inbound_email cfg zones org inbound s = (q, t)" by (cases "ingest_inbound_email cfg zones org inbound s")
  with run have "q = Inr x" "s' = t\<lparr>committed := db t\<rparr>" "db_ok (db t)"
    by (auto simp: get_session_def try_except_def bind_def andthen_def commit_run raise_run ret_run rollback_run split: sum.splits if_splits)
  moreover have "ids_recorded (db t)"
    using ingest_kept [of s "\<lambda>_. True" inbound, OF ok(1) _ i] ok(2) by (auto simp: mail_frame_def dest: mail_kept_recorded)
  ultimately show thesis using i by (intro that) (simp_all add: mail_ready_def)
qed

text \<open>C13: a mail is ingested once. After a mail was ingested and committed - as a new ticket, as a message of a thread or as a
  replay -, another delivery with the same Message-Id from the same address is a replay of it, after any traffic in
  between: it answers with the same ticket and changes nothing, whatever else it contains. The traffic is any sequence of deliveries
  of other mails, of jobs mailing replies, of requests opening, updating and answering tickets, and of activity elsewhere
  (\<open>mail_step\<close>); it does not record the Message-Id of this mail again, and does not remove or edit users, contracts or properties.
  (For an owner's mail that opened a ticket the claim fails: see \<open>owner_mail_duplicated\<close>.)\<close>

theorem email_ingested_once:
  assumes ok: "db_ok (db s)" "ids_recorded (db s)"
    and run: "get_session (ingest_inbound_email cfg zones org inbound) s = (Inr (outcome, t), s')"
    and reporter: "\<forall>u\<in>set (users (db s')). outcome = TICKET_CREATED \<and> u_id u = t_user_id t \<longrightarrow> u_role u \<noteq> OWNER"
    and later: "mail_traffic (\<lambda>k. k \<noteq> JStr (provider_message_id inbound)) s' s2"
    and same: "provider_message_id inbound2 = provider_message_id inbound"
      "py_lower (from_address inbound2) = py_lower (from_address inbound)"
  shows "\<exists>t'. get_session (ingest_inbound_email cfg zones org inbound2) s2 = (Inr (EMAIL_REPLAYED, t'), s2) \<and> t_id t' = t_id t"
proof -
  let ?m = "provider_message_id inbound"
  from ok run obtain u where i: "ingest_inbound_email cfg zones org inbound s = (Inr (outcome, t), u)"
    and s': "s' = u\<lparr>committed := db u\<rparr>" and ready: "mail_ready s'" by (rule ingest_request_kept)
  from ingested_known [OF ok(1) i] reporter s' obtain sender sc
    where known: "mail_known ?m (from_address inbound) org (t_id t) sender sc (db s')" by auto
  from mail_traffic_kept [OF later ready] have ready2: "mail_ready s2"
    and kept: "mail_kept (\<lambda>k. k \<noteq> JStr ?m) (db s') (db s2)" by simp_all
  from mail_known_replayed [OF mail_known_kept [OF known kept] mail_readyD(2) [OF ready2] same] obtain t'
    where t': "ingest_inbound_email cfg zones org inbound2 s2 = (Inr (EMAIL_REPLAYED, t'), s2)" "t_id t' = t_id t" by blast
  have "s2\<lparr>committed := db s2\<rparr> = s2" using mail_readyD(1) [OF ready2] by simp
  then have "get_session (ingest_inbound_email cfg zones org inbound2) s2 = (Inr (EMAIL_REPLAYED, t'), s2)"
    using t'(1) mail_readyD(2) [OF ready2] by (simp add: get_session_def try_except_def bind_Inr andthen_def commit_run ret_run)
  with t'(2) show ?thesis by blast
qed

text \<open>In the witness the tenant's mail opens a ticket, his next mail is appended to it, and then the first mail is delivered again.\<close>

definition mail_org :: organization where
  "mail_org = org_a\<lparr>o_name := ''A'', o_support_email_address := None, o_timezone := ''U''\<rparr>"

definition tenant_db :: database where
  "tenant_db = empty_database\<lparr>organizations := [mail_org], users := [mk_user 13 10 ''t@a'' TENANT]\<rparr>"

definition tenant_world :: world where
  "tenant_world = demo_world\<lparr>db := tenant_db, committed := tenant_db\<rparr>"

theorem email_ingested_once_witness:
  "\<exists>t s' r s2 t'. get_session (ingest_inbound_email demo_settings demo_zones mail_org (demo_mail ''t@a'' ''<m1>'')) tenant_world =
      (Inr (TICKET_CREATED, t), s') \<and>
    get_session (receive_email_webhook demo_settings demo_zones (Some mail_org)
      ((demo_mail ''t@a'' ''<m2>'')\<lparr>in_reply_to := Some ''<m1>''\<rparr>)) s' = (r, s2) \<and>
    map m_ticket_id (messages (db s2)) = [t_id t] \<and>
    get_session (ingest_inbound_email demo_settings demo_zones mail_org (demo_mail ''T@a'' ''<m1>'')) s2 =
      (Inr (EMAIL_REPLAYED, t'), s2) \<and> t_id t' = t_id t"
proof -
  let ?first = "get_session (ingest_inbound_email demo_settings demo_zones mail_org (demo_mail ''t@a'' ''<m1>'')) tenant_world"
  let ?second = "get_session (receive_email_webhook demo_settings demo_zones (Some mail_org)
      ((demo_mail ''t@a'' ''<m2>'')\<lparr>in_reply_to := Some ''<m1>''\<rparr>))"
  have "case ?first of (Inr (oc, t), s') \<Rightarrow> oc = TICKET_CREATED \<and> (t_user_id t = 13 \<and> users (db s') = users tenant_db \<and>
      (case ?second s' of (r, s2) \<Rightarrow> map m_ticket_id (messages (db s2)) = [t_id t])) | (Inl _, _) \<Rightarrow> False"
    by code_simp
  from created_run [OF this] obtain t s' where first: "?first = (Inr (TICKET_CREATED, t), s')" "t_user_id t = 13" "users (db s') = users tenant_db"
    and second: "case ?second s' of (r, s2) \<Rightarrow> map m_ticket_id (messages (db s2)) = [t_id t]" by (elim exE conjE) (rule that, assumption+)
  obtain r s2 where run2: "?second s' = (r, s2)" by (cases "?second s'")
  have "mail_step (\<lambda>k. k \<noteq> JStr (provider_message_id (demo_mail ''t@a'' ''<m1>''))) s' s2"
    by (rule mail_received [OF run2]) (simp add: demo_mail_def)
  note later = more_traffic [OF no_traffic this]
  have same: "provider_message_id (demo_mail ''T@a'' ''<m1>'') = provider_message_id (demo_mail ''t@a'' ''<m1>'')"
    "py_lower (from_address (demo_mail ''T@a'' ''<m1>'')) = py_lower (from_address (demo_mail ''t@a'' ''<m1>''))"
    by code_simp+
  have reporter: "\<forall>u\<in>set (users (db s')). TICKET_CREATED = TICKET_CREATED \<and> u_id u = t_user_id t \<longrightarrow> u_role u \<noteq> OWNER"
    unfolding first(2,3) by (simp add: tenant_db_def mk_user_def)
  have ok: "db_ok (db tenant_world)" by code_simp
  have rec: "ids_recorded (db tenant_world)" by (simp add: ids_recorded_def tenant_world_def tenant_db_def empty_database_def)
  from email_ingested_once [OF ok rec first(1) reporter later same] obtain t'
    where again: "get_session (ingest_inbound_email demo_settings demo_zones mail_org (demo_mail ''T@a'' ''<m1>'')) s2 =
      (Inr (EMAIL_REPLAYED, t'), s2)" "t_id t' = t_id t" by (elim exE conjE) (rule that, assumption+)
  show ?thesis
    by (intro exI) (rule conjI [OF first(1) conjI [OF run2 conjI [OF second [unfolded run2 prod.case] conjI [OF again]]]])
qed

section \<open>A reply is mailed once\<close>

lemma mail_kept_ticket:
  assumes "mail_kept P d d'" "t \<in> set (tickets d)"
  shows "\<exists>t'\<in>set (tickets d'). row_kept P t t'"
proof -
  have "list_all2 (row_kept P) xs ys \<Longrightarrow> t \<in> set xs \<Longrightarrow> \<exists>t'\<in>set ys. row_kept P t t'" for xs ys
    by (induction rule: list_all2_induct) auto
  with assms show ?thesis by (fastforce simp: mail_kept_def)
qed

lemma mail_kept_join:
  assumes "mail_kept P d d'" "ticket_join sc d i"
  shows "ticket_join sc d' i"
proof -
  from assms(2) obtain t where "t \<in> set (tickets d)" "t_id t = i" "t_organization_id t = organization_id sc"
    by (auto simp: ticket_join_def join_exists_clause_def list_ex_iff)
  with mail_kept_ticket [OF assms(1)] show ?thesis
    by (fastforce simp: ticket_join_def join_exists_clause_def list_ex_iff row_kept_def mail_columns_def)
qed

text \<open>C14: an agent's reply is mailed at most once. When the job returns, it either did nothing (the mail had gone out before, or
  the relay refused it for good), or it sent exactly one mail and committed; in that case a further delivery of the same job, after
  any traffic in between, sends nothing and changes nothing. The traffic is any sequence of deliveries, of jobs mailing this
  or other replies, of requests opening, updating and answering tickets, and of activity elsewhere (\<open>mail_step\<close>).\<close>

theorem reply_mailed_once:
  assumes ok: "db_ok (db s)" "ids_recorded (db s)" "db s = committed s"
    and run: "send_ticket_email_reply cfg smtp n mid tid org s = (Inr (), s')"
    and later: "mail_traffic (\<lambda>_. True) s' s2"
  shows "s' = s \<or> (\<exists>mail. outbox s' = outbox s @ [mail] \<and> send_ticket_email_reply cfg smtp' n' mid tid org s2 = (Inr (), s2))"
  using run ok(3)
proof (cases rule: send_reply_cases)
  case (mailed m t md mail)
  let ?f = "\<lambda>x. x\<lparr>t_channel_metadata := Some md\<rparr>" and ?sc = "for_background_worker org" and ?id = "JStr (outbound_message_id cfg mid)"
  have "mail_ready s" using ok unfolding mail_ready_def by blast
  from reply_job_kept [of s "\<lambda>_. True" cfg mid, OF this _ run] have ready: "mail_ready s'" and own: "mail_kept (\<lambda>_. True) (db s) (db s')"
    by simp_all
  from mail_traffic_kept [OF later ready] have ready2: "mail_ready s2" and kept: "mail_kept (\<lambda>_. True) (db s') (db s2)" by simp_all
  from get_or_404_found [OF mailed(2)] have t: "t \<in> set (tickets (db s))" "t_organization_id t = org" "t_id t = tid"
    by (simp_all add: ticket_visible_def for_background_worker_def)
  from t(1) ok(2) obtain xs where xs: "recorded_ids (t_channel_metadata t) = Some xs" by (auto simp: ids_recorded_def list_all_iff)
  have "?f t \<in> set (tickets (db s'))" using t mailed(5) by (auto simp: set_update_where)
  from mail_kept_ticket [OF kept this] obtain t2
    where t2: "t2 \<in> set (tickets (db s2))" "row_kept (\<lambda>_. True) (?f t) t2" by blast
  then have id2: "t_id t2 = tid" "t_organization_id t2 = org" and sent: "contains (t_channel_metadata t2) ''message_ids'' (outbound_message_id cfg mid) = Inr True"
    using t recorded_sent [OF xs mailed(3)] by (auto simp: row_kept_def mail_columns_def contains_recorded)
  from get_or_404_found [OF mailed(1)] have m: "m \<in> set (messages (db s))" "ticket_join ?sc (db s) (m_ticket_id m)" "m_id m = mid"
    by (simp_all add: MessageRepository_def)
  have "m \<in> set (messages (db s2))" using m(1) mailed(5) kept by (auto simp: mail_kept_def)
  moreover have "clause MessageRepository ?sc (db s2) m"
    using mail_kept_join [OF kept mail_kept_join [OF own m(2)]] by (simp add: MessageRepository_def)
  ultimately have "get_or_404 MessageRepository ?sc (Some mid) s2 = (Inr m, s2)" "get_or_404 TicketRepository ?sc (Some tid) s2 = (Inr t2, s2)"
    using get_or_404_visible [of MessageRepository s2 m ?sc] get_or_404_visible [of TicketRepository s2 t2 ?sc] t2(1) id2 m(3)
      mail_readyD(2) [OF ready2]
    by (simp_all add: MessageRepository_def db_ok_def table_ok_defs ticket_visible_def for_background_worker_def)
  then have "send_ticket_email_reply cfg smtp' n' mid tid org s2 = (Inr (), s2\<lparr>db := committed s2\<rparr>)"
    using sent m(3) by (simp add: send_ticket_email_reply_def with_session_def Let_def bind_Inr bind_from_sum ret_run)
  moreover have "s2\<lparr>db := committed s2\<rparr> = s2" using mail_readyD(1) [OF ready2] by simp
  ultimately show ?thesis using mailed(5) by simp
qed simp

text \<open>In the witness the tenant's ticket gets two replies: the job of the first runs, the job of the second runs, and then the first is
  delivered again.\<close>

definition mail_ticket :: ticket where
  "mail_ticket = (mk_ticket 62 10 13)\<lparr>t_channel := EMAIL, t_channel_metadata := Some (email_metadata default_settings
     (demo_mail ''t@a'' ''<m1>''))\<rparr>"

definition agent_reply :: "uuid \<Rightarrow> message" where
  "agent_reply i = \<lparr>m_id = i, m_created_at = 0, m_ticket_id = 62, m_author_type = AUTHOR_AGENT, m_content = ''On our way'',
     m_is_ai_suggestion = False, m_based_on_suggestion_id = None\<rparr>"

definition mail_db :: database where
  "mail_db = tenant_db\<lparr>tickets := [mail_ticket],
     messages := [agent_reply 73, agent_reply 74]\<rparr>"

definition mail_world :: world where
  "mail_world = demo_world\<lparr>db := mail_db, committed := mail_db\<rparr>"

theorem reply_mailed_once_witness:
  "\<exists>s' r s2. send_ticket_email_reply default_settings (\<lambda>_. SmtpDelivered) 1 73 62 10 mail_world = (Inr (), s') \<and>
     send_ticket_email_reply default_settings (\<lambda>_. SmtpDelivered) 1 74 62 10 s' = (r, s2) \<and>
     map fst (outbox s') = [''t@a''] \<and> length (outbox s2) = 2 \<and>
     send_ticket_email_reply default_settings (\<lambda>_. SmtpDelivered) 2 73 62 10 s2 = (Inr (), s2)"
proof -
  let ?job = "\<lambda>i. send_ticket_email_reply default_settings (\<lambda>_. SmtpDelivered) 1 i 62 10"
  have eval: "case ?job 73 mail_world of (r', s') \<Rightarrow> r' = Inr () \<and> map fst (outbox s') = [''t@a''] \<and>
      (case ?job 74 s' of (r, s2) \<Rightarrow> length (outbox s2) = 2)"
    by code_simp
  obtain r' s' where run: "?job 73 mail_world = (r', s')" by (cases "?job 73 mail_world")
  note first = eval [unfolded run prod.case]
  obtain r s2 where run2: "?job 74 s' = (r, s2)" by (cases "?job 74 s'")
  have run': "?job 73 mail_world = (Inr (), s')" using run first by simp
  have ok: "db_ok (db mail_world)" by code_simp
  have rec: "ids_recorded (db mail_world)" by code_simp
  have c: "db mail_world = committed mail_world" "outbox mail_world = []" by (simp_all add: mail_world_def demo_world_def)
  note later = more_traffic [OF no_traffic reply_job_run [OF run2, where P = "\<lambda>_. True", OF TrueI]]
  have "s' \<noteq> mail_world" using first c(2) by auto
  with reply_mailed_once [OF ok rec c(1) run' later, of "\<lambda>_. SmtpDelivered" 2]
  have "send_ticket_email_reply default_settings (\<lambda>_. SmtpDelivered) 2 73 62 10 s2 = (Inr (), s2)" by blast
  with run' run2 first show ?thesis by (intro exI [of _ s'] exI [of _ r] exI [of _ s2]) (simp add: run2)
qed

end
