(* ===== verification/Chat.thy ===== *)
theory Chat
  imports Channels Settings
begin

text \<open>
  The chatbot: \<open>src/app/services/chat_tools.py\<close> (the tools a model may call) and
  \<open>src/app/services/chat.py\<close> (one turn of a conversation).

  The chat completion call, the embedding provider, pgvector's cosine distance and the text functions of the
  standard library the code prints with are the record \<open>chat_env\<close>. A completion is the text (\<open>None\<close> when there
  is none) and the tool calls of the message; the call may fail with any exception of the client.

  \<open>ctx.chat_session\<close>, an ORM instance, is the row with its id: it is read from and written to the table.
\<close>

record tool_call =
  tc_id :: string
  tc_name :: string
  tc_arguments :: string

record completion =
  c_content :: "string option"
  c_tool_calls :: "tool_call list"

record chat_env =
  complete_chat :: "json list \<Rightarrow> json list option \<Rightarrow> error + completion"
  rag_embed :: "string \<Rightarrow> error + real list"
  cosine_distance :: "real list \<Rightarrow> real list \<Rightarrow> real"
  parse_json :: "string \<Rightarrow> json option"
  json_dumps :: "json \<Rightarrow> string"
  py_str :: "json \<Rightarrow> string"
  isoformat :: "int \<Rightarrow> string"

section \<open>The session row\<close>

definition chat_row :: "uuid \<Rightarrow> chat_session service" where
  "chat_row sid = bind (query (\<lambda>d. find (\<lambda>r. cs_id r = sid) (chat_sessions d))) (\<lambda>found.
     case found of None \<Rightarrow> throw (NotFoundError ''ChatSession'' (Some sid)) | Some r \<Rightarrow> ret r)"

definition set_chat_row :: "uuid \<Rightarrow> (chat_session \<Rightarrow> chat_session) \<Rightarrow> unit service" where
  "set_chat_row sid f = write_row ChatSessionRepository sid f"

section \<open>Tools\<close>

definition GENERAL_CATEGORY_NAME :: string where "GENERAL_CATEGORY_NAME = ''general''"
definition CHAT_ORIGIN_NOTE :: string where "CHAT_ORIGIN_NOTE = ''This ticket was created from a chatbot conversation.''"

fun status_value :: "TicketStatus \<Rightarrow> string" where
  "status_value OPEN = ''open''"
| "status_value IN_PROGRESS = ''in_progress''"
| "status_value WAITING_ON_CUSTOMER = ''waiting_on_customer''"
| "status_value RESOLVED = ''resolved''"
| "status_value CLOSED = ''closed''"
| "status_value ESCALATED = ''escalated''"

definition is_anonymous :: "chat_session \<Rightarrow> bool" where
  "is_anonymous r \<longleftrightarrow> cs_user_id r = None"

text \<open>The driver's encoding of a text as a UUID parameter: 32 hexadecimal digits, hyphens anywhere; \<open>None\<close> is
  \<open>NULL\<close>, which no row's id equals, and anything else is refused.\<close>

definition uuid_param :: "json \<Rightarrow> error + uuid option" where
  "uuid_param v = (case v of
      JNull \<Rightarrow> Inr None
    | JStr t \<Rightarrow> (let h = filter (\<lambda>c. c \<noteq> CHR ''-'') t
         in if length h = 32 \<and> list_all (\<lambda>c. c \<in> set ''0123456789abcdefABCDEF'') h
            then Inr (map_option word_of_int (hex_digits False 0 h)) else Inl DataError)
    | _ \<Rightarrow> Inl DataError)"

fun is_not_found :: "fault \<Rightarrow> bool" where
  "is_not_found (Raised (NotFoundError _ _)) = True"
| "is_not_found _ = False"

definition check_ticket_status :: "chat_env \<Rightarrow> OrgScope \<Rightarrow> json \<Rightarrow> json service" where
  "check_ticket_status E sc ticket_id = bind (from_sum (uuid_param ticket_id)) (\<lambda>i.
    try_except
      (bind (get_or_404 TicketRepository sc i) (\<lambda>t. ret (JObj
        [(''found'', JBool True), (''status'', JStr (status_value (t_status t))),
         (''category_id'', case t_category_id t of None \<Rightarrow> JNull | Some c \<Rightarrow> JStr (uuid_str c)),
         (''created_at'', JStr (isoformat E (t_created_at t)))])))
      (\<lambda>e. if is_not_found e then ret (JObj [(''found'', JBool False)]) else raise e))"

definition active_contracts_for_caller :: "OrgScope \<Rightarrow> database \<Rightarrow> contract list" where
  "active_contracts_for_caller sc d = filter (\<lambda>c. c_tenant_id c = user_id sc \<and> c_status c = CONTRACT_ACTIVE)
     (select_rows ContractRepository sc d)"

definition find_general_category_id :: "OrgScope \<Rightarrow> database \<Rightarrow> uuid option" where
  "find_general_category_id sc d = map_option cat_id
     (find (\<lambda>c. py_lower (py_strip (cat_name c)) = GENERAL_CATEGORY_NAME)
       (filter cat_active (select_rows CategoryRepository sc d)))"

definition add_message :: "OrgScope \<Rightarrow> uuid \<Rightarrow> AuthorType \<Rightarrow> string \<Rightarrow> unit service" where
  "add_message sc tid author content = bind (reads now) (\<lambda>ts.
     bind (add_row MessageRepository sc (\<lambda>u. \<lparr>m_id = u, m_created_at = ts, m_ticket_id = tid, m_author_type = author,
        m_content = content, m_is_ai_suggestion = False, m_based_on_suggestion_id = None\<rparr>)) (\<lambda>_. ret ()))"

definition copy_chat_messages_to_ticket :: "OrgScope \<Rightarrow> uuid \<Rightarrow> uuid \<Rightarrow> unit service" where
  "copy_chat_messages_to_ticket sc sid tid =
    bind (query (chat_list_for_session sc sid)) (\<lambda>rows.
    andthen (for_each (filter (\<lambda>m. cm_role m = CHAT_USER) rows) (\<lambda>m. add_message sc tid AUTHOR_USER (cm_content m)))
      (add_message sc tid AUTHOR_BOT CHAT_ORIGIN_NOTE))"

text \<open>The tool's title and description come out of the model's JSON: \<open>None\<close> violates the title's \<open>NOT NULL\<close>, and
  a value that is no text is refused by the driver.\<close>

fun text_param :: "json \<Rightarrow> error + string option" where
  "text_param (JStr t) = Inr (Some t)"
| "text_param JNull = Inr None"
| "text_param _ = Inl DataError"

definition title_param :: "json \<Rightarrow> error + string" where
  "title_param v = (case text_param v of Inl e \<Rightarrow> Inl e | Inr None \<Rightarrow> Inl IntegrityError | Inr (Some t) \<Rightarrow> Inr t)"

definition create_ticket_tool :: "(string \<Rightarrow> zone option) \<Rightarrow> OrgScope \<Rightarrow> uuid \<Rightarrow> json \<Rightarrow> json \<Rightarrow> json service" where
  "create_ticket_tool zones sc sid title description =
    bind (query (active_contracts_for_caller sc)) (\<lambda>options.
    case options of
      [contract] \<Rightarrow>
        bind (chat_row sid) (\<lambda>r.
        bind (from_sum (title_param title)) (\<lambda>title'.
        bind (from_sum (text_param description)) (\<lambda>description'.
        bind (create_ticket zones sc (Some (c_property_id contract)) (Some (c_id contract)) title' description'
               None None (cs_channel r)) (\<lambda>ticket.
        andthen (copy_chat_messages_to_ticket sc sid (t_id ticket))
        (andthen (set_chat_row sid (\<lambda>r. r\<lparr>cs_ticket_id := Some (t_id ticket)\<rparr>))
        (andthen flush
          (ret (JObj [(''ticket_id'', JStr (uuid_str (t_id ticket))), (''status'', JStr (status_value (t_status ticket)))]))))))))
    | _ \<Rightarrow> ret (JObj [(''needs_clarification'', JBool True),
        (''options'', JArr (map (\<lambda>c. JObj [(''contract_id'', JStr (uuid_str (c_id c))),
            (''property_id'', JStr (uuid_str (c_property_id c)))]) options))]))"

definition error_reply :: "string \<Rightarrow> json" where
  "error_reply text = JObj [(''error'', JStr text)]"

text \<open>\<open>UUID(ticket_id)\<close>, of which only \<open>TypeError\<close> and \<open>ValueError\<close> are caught.\<close>

definition schedule_visit :: "chat_env \<Rightarrow> OrgScope \<Rightarrow> uuid \<Rightarrow> json \<Rightarrow> json \<Rightarrow> json \<Rightarrow> json service" where
  "schedule_visit E sc sid ticket_id preferred_date notes =
    bind (chat_row sid) (\<lambda>r.
    case cs_ticket_id r of
      None \<Rightarrow> ret (error_reply ''no ticket is linked to this chat session yet; create or escalate a ticket first'')
    | Some linked \<Rightarrow>
        (case uuid_of_json (Some ticket_id) of
           Inl e \<Rightarrow> if e \<in> {TypeError, ValueError} then ret (error_reply ''ticket_id is not a valid UUID'') else throw e
         | Inr i \<Rightarrow>
            if linked \<noteq> i then ret (error_reply (''ticket_id does not match this chat session'' @ CHR 0x27 # ''s linked ticket''))
            else bind (get_or_404 TicketRepository sc (Some i)) (\<lambda>t.
              let content = ''Visitor requested a visit for '' @ py_str E preferred_date @ ''.'' @
                    (if json_falsy notes then [] else '' Notes: '' @ py_str E notes)
              in andthen (add_message sc (t_id t) AUTHOR_BOT content)
                 (andthen flush (ret (JObj [(''scheduled'', JBool True), (''ticket_id'', JStr (uuid_str i)),
                   (''preferred_date'', preferred_date)]))))))"

text \<open>The ticket an identified visitor's escalation is about: the linked one, or a new one, of which the reason - any JSON
  value of the model's - is the description.\<close>

definition escalation_ticket :: "(string \<Rightarrow> zone option) \<Rightarrow> OrgScope \<Rightarrow> uuid \<Rightarrow> json \<Rightarrow> chat_session \<Rightarrow> uuid service" where
  "escalation_ticket zones sc sid reason r = (case cs_ticket_id r of
      Some i \<Rightarrow> ret i
    | None \<Rightarrow>
        bind (query (find_general_category_id sc)) (\<lambda>category_id.
        bind (from_sum (text_param reason)) (\<lambda>description.
        bind (create_ticket zones sc None None ''Chat escalation'' description category_id None (cs_channel r)) (\<lambda>ticket.
        andthen (set_chat_row sid (\<lambda>r. r\<lparr>cs_ticket_id := Some (t_id ticket)\<rparr>)) (ret (t_id ticket))))))"

definition escalate_to_human :: "(string \<Rightarrow> zone option) \<Rightarrow> OrgScope \<Rightarrow> uuid \<Rightarrow> json \<Rightarrow> uuid option service" where
  "escalate_to_human zones sc sid reason =
    bind (reads now) (\<lambda>ts.
    andthen (set_chat_row sid (\<lambda>r. if cs_escalated_at r = None then r\<lparr>cs_escalated_at := Some ts\<rparr> else r))
    (bind (chat_row sid) (\<lambda>r.
    if is_anonymous r
    then andthen (set_chat_row sid (\<lambda>r. r\<lparr>cs_status := CHAT_ESCALATED\<rparr>)) (andthen flush (ret None))
    else
      bind (escalation_ticket zones sc sid reason r) (\<lambda>tid.
      bind (update_row TicketRepository sc tid (\<lambda>t. t\<lparr>t_status := ESCALATED\<rparr>)) (\<lambda>_.
      andthen (set_chat_row sid (\<lambda>r. r\<lparr>cs_status := CHAT_ESCALATED\<rparr>))
      (andthen flush (ret (Some tid))))))))"

section \<open>The registry of tools\<close>

fun tool_schema :: "string \<Rightarrow> string \<Rightarrow> (string \<times> json) list \<Rightarrow> string list \<Rightarrow> json" where
  "tool_schema name description params required = JObj
     [(''type'', JStr ''function''),
      (''function'', JObj
        [(''name'', JStr name), (''description'', JStr description),
         (''parameters'', JObj
           [(''type'', JStr ''object''), (''properties'', JObj params), (''required'', JArr (map JStr required))])])]"

definition string_field :: "string \<Rightarrow> json" where
  "string_field description = JObj [(''type'', JStr ''string''), (''description'', JStr description)]"

definition uuid_field :: "string \<Rightarrow> json" where
  "uuid_field description = JObj [(''type'', JStr ''string''), (''format'', JStr ''uuid''), (''description'', JStr description)]"

definition CHECK_TICKET_STATUS_SCHEMA :: json where
  "CHECK_TICKET_STATUS_SCHEMA = tool_schema ''check_ticket_status''
     ''Look up the current status of a support ticket by its ID.''
     [(''ticket_id'', uuid_field (''The ticket'' @ CHR 0x27 # ''s UUID.''))] [''ticket_id'']"

definition CREATE_TICKET_SCHEMA :: json where
  "CREATE_TICKET_SCHEMA = tool_schema ''create_ticket''
     (''Create a new support ticket for the visitor'' @ CHR 0x27 # ''s issue, resolving their active contract automatically.'')
     [(''title'', string_field ''A short summary of the issue.''),
      (''description'', string_field ''The full description of the issue.'')] [''title'', ''description'']"

definition SCHEDULE_VISIT_SCHEMA :: json where
  "SCHEDULE_VISIT_SCHEMA = tool_schema ''schedule_visit''
     (''Request a property visit for the session'' @ CHR 0x27 # ''s linked ticket.'')
     [(''ticket_id'', uuid_field (''The linked ticket'' @ CHR 0x27 # ''s UUID.'')),
      (''preferred_date'', string_field (''The visitor'' @ CHR 0x27 # ''s preferred visit date/time, as free text.'')),
      (''notes'', string_field ''Optional extra notes about the visit request.'')] [''ticket_id'', ''preferred_date'']"

definition ESCALATE_TO_HUMAN_SCHEMA :: json where
  "ESCALATE_TO_HUMAN_SCHEMA = tool_schema ''escalate_to_human'' ''Hand the conversation off to a human agent.''
     [(''reason'', string_field ''Why the conversation needs a human agent.'')] [''reason'']"

definition TOOL_SCHEMAS :: "json list" where
  "TOOL_SCHEMAS = [CHECK_TICKET_STATUS_SCHEMA, CREATE_TICKET_SCHEMA, SCHEDULE_VISIT_SCHEMA, ESCALATE_TO_HUMAN_SCHEMA]"

definition TOOL_NAMES :: "string list" where
  "TOOL_NAMES = [''check_ticket_status'', ''create_ticket'', ''schedule_visit'', ''escalate_to_human'']"

definition available_tool_names :: "chat_session \<Rightarrow> string list" where
  "available_tool_names r = (if cs_user_id r = None then [''escalate_to_human''] else TOOL_NAMES)"

fun schema_name :: "json \<Rightarrow> string" where
  "schema_name (JObj [_, (_, JObj ((_, JStr name) # _))]) = name"
| "schema_name _ = []"

definition tool_schemas_for :: "chat_session \<Rightarrow> json list" where
  "tool_schemas_for r = filter (\<lambda>schema. schema_name schema \<in> set (available_tool_names r)) TOOL_SCHEMAS"

text \<open>\<open>_TOOL_HANDLERS[name](ctx, **args)\<close>: an unknown name is a \<open>KeyError\<close>; arguments that are no object, a missing
  and an unexpected keyword are a \<open>TypeError\<close>. The handler runs whether or not the tool was offered.\<close>

definition keywords_ok :: "string list \<Rightarrow> string list \<Rightarrow> (string \<times> json) list \<Rightarrow> bool" where
  "keywords_ok required optional args \<longleftrightarrow>
     list_all (\<lambda>k. k \<in> fst ` set args) required \<and> list_all (\<lambda>(k, v). k \<in> set (required @ optional)) args"

definition call_tool :: "chat_env \<Rightarrow> (string \<Rightarrow> zone option) \<Rightarrow> OrgScope \<Rightarrow> uuid \<Rightarrow> string \<Rightarrow> json \<Rightarrow> json service" where
  "call_tool E zones sc sid name args =
    (if name \<notin> set TOOL_NAMES then throw KeyError
     else case args of
       JObj kw \<Rightarrow>
         let arg = (\<lambda>k. json_get kw k JNull) in
         if name = ''check_ticket_status''
         then andthen (throw_if (\<not> keywords_ok [''ticket_id''] [] kw) TypeError) (check_ticket_status E sc (arg ''ticket_id''))
         else if name = ''create_ticket''
         then andthen (throw_if (\<not> keywords_ok [''title'', ''description''] [] kw) TypeError)
                (create_ticket_tool zones sc sid (arg ''title'') (arg ''description''))
         else if name = ''schedule_visit''
         then andthen (throw_if (\<not> keywords_ok [''ticket_id'', ''preferred_date''] [''notes''] kw) TypeError)
                (schedule_visit E sc sid (arg ''ticket_id'') (arg ''preferred_date'') (arg ''notes''))
         else andthen (throw_if (\<not> keywords_ok [''reason''] [] kw) TypeError)
                (bind (escalate_to_human zones sc sid (arg ''reason'')) (\<lambda>tid.
                 ret (JObj [(''escalated'', JBool True),
                   (''ticket_id'', case tid of None \<Rightarrow> JNull | Some i \<Rightarrow> JStr (uuid_str i))])))
     | _ \<Rightarrow> throw TypeError)"

section \<open>One turn\<close>

definition SYSTEM_PROMPT :: string where
  "SYSTEM_PROMPT = ''You are a helpful assistant for a property management helpdesk. Answer '' @
     (''the visitor'' @ CHR 0x27 # ''s questions using the provided knowledge base context when '') @
     ''relevant. Use the available tools to look up ticket status, create '' @
     ''tickets, schedule visits, or escalate to a human agent when needed. If '' @
     ''you are not confident in an answer, say so honestly rather than '' @ ''guessing.''"

definition AUTOMATIC_ESCALATION_REASON :: string where
  "AUTOMATIC_ESCALATION_REASON = ''automatic: low confidence''"

record ChatTurnResult =
  reply :: string
  turn_escalated :: bool
  turn_ticket_id :: "uuid option"
  tools_used :: "string list"

definition chat_role_value :: "ChatMessageRole \<Rightarrow> string" where
  "chat_role_value r = (case r of CHAT_USER \<Rightarrow> ''user'' | CHAT_ASSISTANT \<Rightarrow> ''assistant'' | CHAT_TOOL \<Rightarrow> ''tool'')"

definition json_opt :: "string option \<Rightarrow> json" where
  "json_opt v = (case v of None \<Rightarrow> JNull | Some t \<Rightarrow> JStr t)"

definition to_openai_message :: "chat_message \<Rightarrow> json" where
  "to_openai_message m =
    (if cm_role m = CHAT_TOOL
     then JObj [(''role'', JStr ''tool''), (''tool_call_id'', json_opt (cm_tool_call_id m)), (''content'', JStr (cm_content m))]
     else JObj [(''role'', JStr (chat_role_value (cm_role m))), (''content'', JStr (cm_content m))])"

definition recent_history :: "OrgScope \<Rightarrow> uuid \<Rightarrow> nat \<Rightarrow> database \<Rightarrow> chat_message list" where
  "recent_history sc sid turns d = (if turns = 0 then [] else take_last turns (chat_list_for_session sc sid d))"

text \<open>\<open>KnowledgeChunkRepository.search\<close>.\<close>

definition chunk_search :: "chat_env \<Rightarrow> OrgScope \<Rightarrow> real list \<Rightarrow> real \<Rightarrow> nat \<Rightarrow> nat \<Rightarrow> database \<Rightarrow> knowledge_chunk list" where
  "chunk_search E sc embedding min_similarity limit overfetch d =
    take (limit * overfetch) (sort_key (\<lambda>c. cosine_distance E (kc_embedding c) embedding)
      (filter (\<lambda>c. cosine_distance E (kc_embedding c) embedding \<le> 1 - min_similarity)
        (select_rows KnowledgeChunkRepository sc d)))"

definition add_chat_message :: "OrgScope \<Rightarrow> uuid \<Rightarrow> ChatMessageRole \<Rightarrow> string \<Rightarrow> string option \<Rightarrow> string option \<Rightarrow> unit service" where
  "add_chat_message sc sid rl content tool_name tool_call_id = bind (reads now) (\<lambda>ts.
     bind (add_row ChatMessageRepository sc (\<lambda>u. \<lparr>cm_id = u, cm_created_at = ts, cm_chat_session_id = sid, cm_role = rl,
        cm_content = content, cm_tool_name = tool_name, cm_tool_call_id = tool_call_id\<rparr>)) (\<lambda>_. ret ()))"

definition text_or_empty :: "string option \<Rightarrow> string" where
  "text_or_empty t = (case t of None \<Rightarrow> [] | Some x \<Rightarrow> x)"

definition assistant_message :: "completion \<Rightarrow> json" where
  "assistant_message c = JObj
     [(''role'', JStr ''assistant''), (''content'', JStr (text_or_empty (c_content c))),
      (''tool_calls'', JArr (map (\<lambda>t. JObj
        [(''id'', JStr (tc_id t)), (''type'', JStr ''function''),
         (''function'', JObj [(''name'', JStr (tc_name t)), (''arguments'', JStr (tc_arguments t))])]) (c_tool_calls c)))]"

fun run_tool_calls :: "chat_env \<Rightarrow> (string \<Rightarrow> zone option) \<Rightarrow> OrgScope \<Rightarrow> uuid \<Rightarrow> tool_call list \<Rightarrow> json list \<Rightarrow> string list \<Rightarrow>
    (json list \<times> string list) service" where
  "run_tool_calls E zones sc sid [] msgs used = ret (msgs, used)"
| "run_tool_calls E zones sc sid (c # cs) msgs used =
    (case parse_json E (or_else (Some (tc_arguments c)) ''{}'') of
       None \<Rightarrow> throw ValueError
     | Some args \<Rightarrow>
        bind (call_tool E zones sc sid (tc_name c) args) (\<lambda>result.
        let out = json_dumps E result
        in andthen (add_chat_message sc sid CHAT_TOOL out (Some (tc_name c)) (Some (tc_id c)))
           (run_tool_calls E zones sc sid cs
             (msgs @ [JObj [(''role'', JStr ''tool''), (''tool_call_id'', JStr (tc_id c)), (''content'', JStr out)]])
             (used @ [tc_name c]))))"

text \<open>The rounds left; when none is, the model is asked once more without tools.\<close>

fun tool_rounds :: "chat_env \<Rightarrow> (string \<Rightarrow> zone option) \<Rightarrow> OrgScope \<Rightarrow> uuid \<Rightarrow> json list \<Rightarrow> nat \<Rightarrow> json list \<Rightarrow> string list \<Rightarrow>
    (string \<times> string list) service" where
  "tool_rounds E zones sc sid schemas 0 msgs used =
    bind (from_sum (complete_chat E msgs None)) (\<lambda>c. ret (text_or_empty (c_content c), used))"
| "tool_rounds E zones sc sid schemas (Suc n) msgs used =
    bind (from_sum (complete_chat E msgs (Some schemas))) (\<lambda>c.
    if c_tool_calls c = [] then ret (text_or_empty (c_content c), used)
    else bind (run_tool_calls E zones sc sid (c_tool_calls c) (msgs @ [assistant_message c]) used) (\<lambda>(msgs', used').
         andthen flush (tool_rounds E zones sc sid schemas n msgs' used')))"

definition system_message :: "knowledge_chunk list \<Rightarrow> json" where
  "system_message chunks = JObj [(''role'', JStr ''system''), (''content'', JStr (SYSTEM_PROMPT @
     (if chunks = [] then [] else CHR 0x0A # CHR 0x0A # ''Relevant knowledge base excerpts:'' @ CHR 0x0A #
        py_join [CHR 0x0A] (map (\<lambda>c. ''- '' @ kc_content c) chunks))))]"

text \<open>The streak of turns without a knowledge base hit; two in a row escalate.\<close>

definition close_turn :: "(string \<Rightarrow> zone option) \<Rightarrow> OrgScope \<Rightarrow> uuid \<Rightarrow> bool \<Rightarrow> (bool \<times> uuid option) service" where
  "close_turn zones sc sid low_confidence =
    andthen (set_chat_row sid (\<lambda>r. r\<lparr>cs_low_confidence_streak := (if low_confidence then cs_low_confidence_streak r + 1 else 0)\<rparr>))
    (bind (chat_row sid) (\<lambda>r.
    if 2 \<le> cs_low_confidence_streak r
    then bind (escalate_to_human zones sc sid (JStr AUTOMATIC_ESCALATION_REASON)) (\<lambda>tid.
         bind (chat_row sid) (\<lambda>r'.
         andthen (set_chat_row sid (\<lambda>r. r\<lparr>cs_low_confidence_streak := 0\<rparr>))
           (ret (True, case tid of Some i \<Rightarrow> Some i | None \<Rightarrow> cs_ticket_id r'))))
    else ret (False, cs_ticket_id r)))"

definition send_message :: "settings \<Rightarrow> chat_env \<Rightarrow> (string \<Rightarrow> zone option) \<Rightarrow> OrgScope \<Rightarrow> uuid \<Rightarrow> string \<Rightarrow> ChatTurnResult service" where
  "send_message cfg E zones sc sid content =
    andthen (add_chat_message sc sid CHAT_USER content None None)
    (andthen flush
    (bind (query (recent_history sc sid (chat_history_turns cfg))) (\<lambda>history.
    bind (from_sum (rag_embed E content)) (\<lambda>query_embedding.
    bind (query (chunk_search E sc query_embedding (rag_similarity_threshold cfg) (rag_kb_top_k cfg) (rag_search_overfetch cfg))) (\<lambda>chunks.
    bind (chat_row sid) (\<lambda>r.
    bind (tool_rounds E zones sc sid (tool_schemas_for r) (chat_max_tool_rounds cfg)
           (system_message chunks # map to_openai_message history) []) (\<lambda>(reply_text, used).
    andthen (add_chat_message sc sid CHAT_ASSISTANT reply_text None None)
    (bind (close_turn zones sc sid (chunks = [])) (\<lambda>(escalated, ticket_id).
    bind (reads now) (\<lambda>ts.
    andthen (set_chat_row sid (\<lambda>r. r\<lparr>cs_last_activity_at := ts\<rparr>))
    (andthen flush
      (ret \<lparr>reply = reply_text, turn_escalated = escalated, turn_ticket_id = ticket_id, tools_used = used\<rparr>))))))))))))"

section \<open>The row of a session\<close>

abbreviation session_row :: "uuid \<Rightarrow> database \<Rightarrow> chat_session option" where
  "session_row sid d \<equiv> find (\<lambda>r. cs_id r = sid) (chat_sessions d)"

lemma chat_row_run: "chat_row sid s =
    (case session_row sid (db s) of None \<Rightarrow> (Inl (Raised (NotFoundError ''ChatSession'' (Some sid))), s) | Some r \<Rightarrow> (Inr r, s))"
  by (simp add: chat_row_def bind_query ret_run raise_run split: option.splits)

lemma bind_chat_row: "bind (chat_row sid) f s =
    (case session_row sid (db s) of None \<Rightarrow> (Inl (Raised (NotFoundError ''ChatSession'' (Some sid))), s) | Some r \<Rightarrow> f r s)"
  by (simp add: bind_def chat_row_run split: option.splits)

lemma readonly_chat_row [simp, intro]: "readonly (chat_row sid)"
  by (simp add: readonly_def chat_row_run split: option.splits)

lemma set_chat_row_run:
  "set_chat_row sid f s = (Inr (), s\<lparr>db := chat_sessions_update (update_where (\<lambda>r. cs_id r = sid) f) (db s)\<rparr>)"
  by (simp add: set_chat_row_def write_row_def update_db_run ChatSessionRepository_def)

lemma bind_set_chat_row:
  "bind (set_chat_row sid f) g s = g () (s\<lparr>db := chat_sessions_update (update_where (\<lambda>r. cs_id r = sid) f) (db s)\<rparr>)"
  by (simp add: bind_def set_chat_row_run)

lemma find_update_where:
  "(\<And>r. cs_id (f r) = cs_id r) \<Longrightarrow>
    find (\<lambda>r. cs_id r = i) (update_where (\<lambda>r. cs_id r = sid) f rs) =
      (if i = sid then map_option f (find (\<lambda>r. cs_id r = sid) rs) else find (\<lambda>r. cs_id r = i) rs)"
  by (induction rs) (auto simp: update_where_def)

section \<open>Anonymous visitors\<close>

text \<open>The session of an anonymous visitor: no user, no ticket; and the sentinel that stands for the visitor is nobody's
  tenant.\<close>

definition anonymous_ok :: "uuid \<Rightarrow> database \<Rightarrow> bool" where
  "anonymous_ok sid d \<longleftrightarrow> (\<exists>r. session_row sid d = Some r \<and> cs_user_id r = None \<and> cs_ticket_id r = None) \<and>
     (\<forall>c\<in>set (contracts d). c_tenant_id c \<noteq> ANONYMOUS_CHAT_ACTOR_ID)"

text \<open>Only one conversation changes: the row of its session, and the messages added to it.\<close>

definition chat_only :: "uuid \<Rightarrow> database \<Rightarrow> database \<Rightarrow> bool" where
  "chat_only sid d d' \<longleftrightarrow> d' = d\<lparr>chat_sessions := chat_sessions d', chat_messages := chat_messages d'\<rparr> \<and>
     filter (\<lambda>r. cs_id r \<noteq> sid) (chat_sessions d') = filter (\<lambda>r. cs_id r \<noteq> sid) (chat_sessions d) \<and>
     (\<exists>ms. chat_messages d' = chat_messages d @ ms \<and> (\<forall>m\<in>set ms. cm_chat_session_id m = sid))"

lemma chat_only_refl [simp]: "chat_only sid d d" by (simp add: chat_only_def)

lemma chat_only_trans: "chat_only sid d e \<Longrightarrow> chat_only sid e f \<Longrightarrow> chat_only sid d f"
  by (cases d; cases e; cases f) (auto simp: chat_only_def)

lemma chat_only_session:
  "(\<And>r. cs_id (f r) = cs_id r) \<Longrightarrow> chat_only sid d (chat_sessions_update (update_where (\<lambda>r. cs_id r = sid) f) d)"
  by (simp add: chat_only_def filter_update_where)

lemma chat_only_message:
  "cm_chat_session_id m = sid \<Longrightarrow> chat_only sid d (chat_messages_update (\<lambda>rs. rs @ [m]) d)"
  by (simp add: chat_only_def)

definition anonymous_frame :: "uuid \<Rightarrow> world \<Rightarrow> world \<Rightarrow> bool" where
  "anonymous_frame sid s s' \<longleftrightarrow> (anonymous_ok sid (db s) \<longrightarrow> chat_only sid (db s) (db s') \<and> anonymous_ok sid (db s'))"

interpretation anonymous: frame_relation "anonymous_frame sid" for sid
  by unfold_locales (auto simp: anonymous_frame_def intro: chat_only_trans)

lemma ensures_set_chat_row:
  assumes "\<And>r. cs_id (f r) = cs_id r" "\<And>r. cs_user_id (f r) = cs_user_id r" "\<And>r. cs_ticket_id (f r) = cs_ticket_id r"
  shows "ensures (anonymous_frame sid) (set_chat_row sid f)"
  using assms by (auto simp: ensures_def set_chat_row_run anonymous_frame_def anonymous_ok_def find_update_where intro: chat_only_session)

lemma add_chat_message_run: "add_chat_message sc sid rl content name tcid s = (case uuids s of
      [] \<Rightarrow> (Inl EntropyExhausted, s)
    | u # us \<Rightarrow> (Inr (), s\<lparr>uuids := us, db := chat_messages_update (\<lambda>rs. rs @ [\<lparr>cm_id = u, cm_created_at = now s,
        cm_chat_session_id = sid, cm_role = rl, cm_content = content, cm_tool_name = name, cm_tool_call_id = tcid\<rparr>]) (db s)\<rparr>))"
  by (simp add: add_chat_message_def add_row_def bind_reads bind_assoc bind_uuid4 Let_def andthen_def insert_row_def bind_update_db bind_ret
      ret_run ChatMessageRepository_def split: list.splits)

lemma ensures_add_chat_message: "ensures (anonymous_frame sid) (add_chat_message sc sid rl content name tcid)"
  by (rule ensuresI) (auto simp: add_chat_message_run anonymous_frame_def anonymous_ok_def intro!: chat_only_message split: list.splits)

lemmas anonymous_rules =
  anonymous.ensures_rules anonymous.ensures_readonly ensures_add_chat_message ensures_set_chat_row

text \<open>An anonymous visitor's escalation writes the session twice, whatever the reason.\<close>

lemma escalate_anonymous: "ensures (anonymous_frame sid) (escalate_to_human zones sc sid reason)"
proof (rule ensuresI)
  fix s x s' assume run: "escalate_to_human zones sc sid reason s = (Inr x, s')"
  let ?stamp = "\<lambda>r. if cs_escalated_at r = None then r\<lparr>cs_escalated_at := Some (now s)\<rparr> else r"
  let ?s1 = "s\<lparr>db := chat_sessions_update (update_where (\<lambda>r. cs_id r = sid) ?stamp) (db s)\<rparr>"
  let ?set = "set_chat_row sid (\<lambda>r. r\<lparr>cs_status := CHAT_ESCALATED\<rparr>)"
  have stamp: "anonymous_frame sid s ?s1"
    using ensuresD [OF ensures_set_chat_row [of ?stamp sid] set_chat_row_run] by simp
  have status: "ensures (anonymous_frame sid) (andthen ?set (andthen flush (ret None)))"
    by (intro anonymous.ensures_andthen anonymous.ensures_ret anonymous.ensures_readonly [OF readonly_session(3)]
        ensures_set_chat_row) simp_all
  show "anonymous_frame sid s s'"
  proof (cases "anonymous_ok sid (db s)")
    case True
    with stamp have "anonymous_ok sid (db ?s1)" unfolding anonymous_frame_def by blast
    then obtain r where r: "session_row sid (db ?s1) = Some r" "is_anonymous r" by (auto simp: anonymous_ok_def is_anonymous_def)
    have "andthen ?set (andthen flush (ret None)) ?s1 = (Inr x, s')"
      using run [unfolded escalate_to_human_def andthen_run bind_reads bind_set_chat_row bind_chat_row r(1) option.case if_P [OF r(2)]]
      by (simp only: andthen_run bind_set_chat_row)
    then show ?thesis by (rule anonymous.trans [OF stamp ensuresD [OF status]])
  qed (simp add: anonymous_frame_def)
qed

lemma readonly_try_except: "readonly m \<Longrightarrow> (\<And>e. readonly (h e)) \<Longrightarrow> readonly (try_except m h)"
proof -
  assume m: "readonly m" and h: "\<And>e. readonly (h e)"
  have "snd (try_except m h s) = s" for s
  proof (cases "m s")
    case (Pair r t)
    with m have "t = s" by (simp add: readonlyD)
    moreover have "snd (h e s) = s" for e using h by (simp add: readonly_def)
    ultimately show ?thesis using Pair by (cases r) (simp_all add: try_except_def)
  qed
  then show ?thesis by (simp add: readonly_def)
qed

lemma readonly_check_ticket_status: "readonly (check_ticket_status E sc i)"
  unfolding check_ticket_status_def
  by (intro readonly_bind readonly_from_sum readonly_try_except readonly_get_or_404 readonly_basic readonly_if)

lemma ensures_visitor_tools:
  assumes "user_id sc = ANONYMOUS_CHAT_ACTOR_ID"
  shows "ensures (anonymous_frame sid) (call_tool E zones sc sid name args)"
proof -
  have none: "active_contracts_for_caller sc d = []" if "anonymous_ok sid d" for d
    using that assms by (auto simp: active_contracts_for_caller_def anonymous_ok_def filter_empty_conv select_rows_def ContractRepository_def)
  have create: "ensures (anonymous_frame sid) (create_ticket_tool zones sc sid title description)" for title description
    by (rule ensuresI) (auto simp: create_ticket_tool_def bind_query none ret_run anonymous_frame_def)
  have schedule: "ensures (anonymous_frame sid) (schedule_visit E sc sid i date nts)" for i date nts
    by (rule ensuresI)
      (auto simp: schedule_visit_def bind_chat_row anonymous_frame_def anonymous_ok_def ret_run split: option.splits)
  have obj: "ensures R (case args of JObj kw \<Rightarrow> f kw | _ \<Rightarrow> throw TypeError)" if "\<And>kw. ensures R (f kw)"
    for R and f :: "(string \<times> json) list \<Rightarrow> json service"
    using that by (cases args) (simp_all add: ensures_raise)
  show ?thesis unfolding call_tool_def Let_def
    by (intro anonymous.ensures_if obj anonymous.ensures_andthen anonymous.ensures_bind anonymous.ensures_raise_if anonymous.ensures_ret
        ensures_raise create schedule escalate_anonymous anonymous.ensures_readonly [OF readonly_check_ticket_status]
        anonymous.ensures_readonly [OF readonly_from_sum])
qed

lemma ensures_prod: "(\<And>a b. ensures R (f a b)) \<Longrightarrow> ensures R (case p of (a, b) \<Rightarrow> f a b)"
  by (cases p) simp

lemma ensures_run_tool_calls:
  assumes "user_id sc = ANONYMOUS_CHAT_ACTOR_ID"
  shows "ensures (anonymous_frame sid) (run_tool_calls E zones sc sid cs msgs used)"
proof (induction cs arbitrary: msgs used)
  case (Cons c cs)
  show ?case unfolding run_tool_calls.simps Let_def
    by (intro anonymous.ensures_option anonymous.ensures_bind anonymous.ensures_andthen ensures_raise ensures_visitor_tools [OF assms]
        ensures_add_chat_message Cons.IH)
qed (simp add: anonymous.ensures_ret)

lemma ensures_tool_rounds:
  assumes "user_id sc = ANONYMOUS_CHAT_ACTOR_ID"
  shows "ensures (anonymous_frame sid) (tool_rounds E zones sc sid schemas n msgs used)"
proof (induction n arbitrary: msgs used)
  case 0
  show ?case unfolding tool_rounds.simps
    by (intro anonymous.ensures_bind anonymous.ensures_readonly [OF readonly_from_sum] anonymous.ensures_ret)
next
  case (Suc n)
  show ?case unfolding tool_rounds.simps
    by (intro anonymous.ensures_bind anonymous.ensures_if anonymous.ensures_andthen ensures_prod ensures_run_tool_calls [OF assms]
        anonymous.ensures_readonly [OF readonly_from_sum] anonymous.ensures_readonly [OF readonly_session(3)] anonymous.ensures_ret Suc.IH)
qed

lemma ensures_close_turn: "ensures (anonymous_frame sid) (close_turn zones sc sid low)"
  unfolding close_turn_def
  by (intro anonymous.ensures_bind anonymous.ensures_andthen anonymous.ensures_if anonymous.ensures_readonly [OF readonly_chat_row]
      escalate_anonymous ensures_set_chat_row anonymous.ensures_ret) simp_all

text \<open>C15: an anonymous visitor's turn changes nothing but his own conversation. Whatever the model answers, whatever tools it
  calls with whatever arguments - offered or not -, no other table changes (no ticket and no message of a ticket is created or
  changed), every other chat session stays as it is, the chat's messages only grow by messages of this session, and the session
  stays without user and ticket.\<close>

theorem anonymous_chat_confined:
  assumes "session_row sid (db s) = Some r" "cs_user_id r = None" "cs_ticket_id r = None"
    and "\<forall>c\<in>set (contracts (db s)). c_tenant_id c \<noteq> ANONYMOUS_CHAT_ACTOR_ID"
    and "send_message cfg E zones (for_anonymous_chat org) sid content s = (Inr res, s')"
  shows "db s' = (db s)\<lparr>chat_sessions := chat_sessions (db s'), chat_messages := chat_messages (db s')\<rparr> \<and>
    filter (\<lambda>x. cs_id x \<noteq> sid) (chat_sessions (db s')) = filter (\<lambda>x. cs_id x \<noteq> sid) (chat_sessions (db s)) \<and>
    (\<exists>ms. chat_messages (db s') = chat_messages (db s) @ ms \<and> (\<forall>m\<in>set ms. cm_chat_session_id m = sid)) \<and>
    (\<exists>r'. session_row sid (db s') = Some r' \<and> cs_user_id r' = None \<and> cs_ticket_id r' = None)"
proof -
  have sc: "user_id (for_anonymous_chat org) = ANONYMOUS_CHAT_ACTOR_ID" by (simp add: for_anonymous_chat_def)
  have "ensures (anonymous_frame sid) (send_message cfg E zones (for_anonymous_chat org) sid content)"
    unfolding send_message_def
    by (intro anonymous.ensures_bind anonymous.ensures_andthen ensures_prod anonymous.ensures_readonly [OF readonly_chat_row]
        anonymous.ensures_readonly [OF readonly_from_sum] anonymous.ensures_readonly [OF readonly_session(1)]
        anonymous.ensures_readonly [OF readonly_session(3)] anonymous.ensures_reads anonymous.ensures_ret
        ensures_add_chat_message ensures_tool_rounds [OF sc] ensures_close_turn ensures_set_chat_row) simp_all
  from ensuresD [OF this assms(5)] show ?thesis
    using assms(1-4) by (auto simp: anonymous_frame_def anonymous_ok_def chat_only_def)
qed

section \<open>Automatic escalation\<close>

lemma session_row_update:
  assumes "session_row sid d = Some r" "\<And>r. cs_id (f r) = cs_id r"
  shows "session_row sid (chat_sessions_update (update_where (\<lambda>r. cs_id r = sid) f) d) = Some (f r)"
  using assms by (simp add: find_update_where)

lemma create_ticket_chat:
  assumes "create_ticket zones sc pid cid title descr cat urg ch s = (Inr t, s')"
  shows "chat_sessions (db s') = chat_sessions (db s)"
  using assms by (rule create_ticket_InrE) simp

lemma escalation_ticket_effect:
  assumes "escalation_ticket zones sc sid reason r s = (Inr i, s')" "session_row sid (db s) = Some r"
  shows "session_row sid (db s') = Some (r\<lparr>cs_ticket_id := Some i\<rparr>) \<and> (cs_ticket_id r \<noteq> None \<longrightarrow> cs_ticket_id r = Some i)"
proof (cases "cs_ticket_id r")
  case None
  with assms(1) obtain description where "bind (create_ticket zones sc None None ''Chat escalation'' description
      (find_general_category_id sc (db s)) None (cs_channel r)) (\<lambda>ticket.
      andthen (set_chat_row sid (\<lambda>r. r\<lparr>cs_ticket_id := Some (t_id ticket)\<rparr>)) (ret (t_id ticket))) s = (Inr i, s')"
    by (auto simp: escalation_ticket_def bind_query elim: from_sum_InrE)
  then obtain t s0 where c: "create_ticket zones sc None None ''Chat escalation'' description
      (find_general_category_id sc (db s)) None (cs_channel r) s = (Inr t, s0)"
    and s': "i = t_id t" "s' = s0\<lparr>db := chat_sessions_update (update_where (\<lambda>r. cs_id r = sid) (\<lambda>r. r\<lparr>cs_ticket_id := Some (t_id t)\<rparr>)) (db s0)\<rparr>"
    by (rule bind_InrE) (auto simp: andthen_def bind_set_chat_row ret_run)
  from create_ticket_chat [OF c] assms(2) have "session_row sid (db s0) = Some r" by simp
  from session_row_update [OF this, of "\<lambda>r. r\<lparr>cs_ticket_id := Some (t_id t)\<rparr>"] s' None show ?thesis by simp
next
  case (Some k)
  with assms have "i = k" "s' = s" by (simp_all add: escalation_ticket_def ret_run)
  with assms(2) Some show ?thesis by simp
qed

text \<open>What escalating leaves behind: the stamp of the first time, the status, and for a known visitor an escalated ticket.\<close>

lemma escalate_effect:
  assumes run: "escalate_to_human zones sc sid reason s = (Inr tid, s')" and row: "session_row sid (db s) = Some r"
  shows "session_row sid (db s') = Some (r\<lparr>cs_status := CHAT_ESCALATED,
      cs_escalated_at := Some (case cs_escalated_at r of None \<Rightarrow> now s | Some t \<Rightarrow> t),
      cs_ticket_id := (if is_anonymous r then cs_ticket_id r else tid)\<rparr>) \<and>
    (if is_anonymous r then tid = None
     else \<exists>t\<in>set (tickets (db s')). tid = Some (t_id t) \<and> t_status t = ESCALATED \<and> (cs_ticket_id r \<noteq> None \<longrightarrow> cs_ticket_id r = tid))"
proof -
  let ?stamp = "\<lambda>r. if cs_escalated_at r = None then r\<lparr>cs_escalated_at := Some (now s)\<rparr> else r"
  let ?s = "s\<lparr>db := chat_sessions_update (update_where (\<lambda>r. cs_id r = sid) ?stamp) (db s)\<rparr>"
  let ?r = "?stamp r"
  have stamp: "?r = r\<lparr>cs_escalated_at := Some (case cs_escalated_at r of None \<Rightarrow> now s | Some t \<Rightarrow> t)\<rparr>" by (auto split: option.splits)
  have row1: "session_row sid (db ?s) = Some ?r" using session_row_update [OF row, of ?stamp] by simp
  note start = run [unfolded escalate_to_human_def andthen_def bind_reads bind_set_chat_row bind_chat_row row1 option.case]
  show ?thesis
  proof (cases "is_anonymous r")
    case True
    then have "is_anonymous ?r" by (simp add: is_anonymous_def)
    with start have "tid = None" and s': "s' = ?s\<lparr>db := chat_sessions_update (update_where (\<lambda>r. cs_id r = sid) (\<lambda>r. r\<lparr>cs_status := CHAT_ESCALATED\<rparr>)) (db ?s)\<rparr>"
      by (simp_all add: bind_set_chat_row bind_flush ret_run split: if_splits)
    moreover have "session_row sid (db s') = Some (?r\<lparr>cs_status := CHAT_ESCALATED\<rparr>)"
      using session_row_update [OF row1, of "\<lambda>r. r\<lparr>cs_status := CHAT_ESCALATED\<rparr>"] s' by simp
    ultimately show ?thesis using True unfolding stamp by simp
  next
    case False
    then have "\<not> is_anonymous ?r" by (simp add: is_anonymous_def)
    note rest = start [unfolded if_not_P [OF this]]
    from rest obtain i s1 where first: "escalation_ticket zones sc sid reason ?r ?s = (Inr i, s1)"
      and second: "bind (update_row TicketRepository sc i (\<lambda>t. t\<lparr>t_status := ESCALATED\<rparr>)) (\<lambda>_ t.
        bind flush (\<lambda>_. ret (Some i)) (t\<lparr>db := chat_sessions_update (update_where (\<lambda>r. cs_id r = sid) (\<lambda>r. r\<lparr>cs_status := CHAT_ESCALATED\<rparr>)) (db t)\<rparr>)) s1 = (Inr tid, s')"
      by (rule bind_InrE)
    have row2: "session_row sid (db s1) = Some (?r\<lparr>cs_ticket_id := Some i\<rparr>) \<and> (cs_ticket_id r \<noteq> None \<longrightarrow> cs_ticket_id r = Some i)"
      using escalation_ticket_effect [OF first row1] by simp
    from second obtain t s2 where u: "update_row TicketRepository sc i (\<lambda>t. t\<lparr>t_status := ESCALATED\<rparr>) s1 = (Inr t, s2)"
      and s': "tid = Some i" "s' = s2\<lparr>db := chat_sessions_update (update_where (\<lambda>r. cs_id r = sid) (\<lambda>r. r\<lparr>cs_status := CHAT_ESCALATED\<rparr>)) (db s2)\<rparr>"
      by (auto simp: bind_set_chat_row bind_flush ret_run elim!: bind_InrE split: if_splits)
    from u have t: "t_status t = ESCALATED" "t_id t = i" "chat_sessions (db s2) = chat_sessions (db s1)"
      by (rule ticket_repo.update_row_Inr; auto dest!: get_or_404_found simp: TicketRepository_def [THEN arg_cong [of _ _ keep_org]])+
    from ticket_repo.update_row_stored [OF u] have "t \<in> set (tickets (db s'))" by (simp add: s'(2))
    moreover have "session_row sid (db s') = Some (?r\<lparr>cs_ticket_id := Some i\<rparr>\<lparr>cs_status := CHAT_ESCALATED\<rparr>)"
      using session_row_update [of sid "db s2" _ "\<lambda>r. r\<lparr>cs_status := CHAT_ESCALATED\<rparr>"] row2 t(3) s'(2) by simp
    ultimately show ?thesis using False s'(1) t row2 unfolding stamp by auto
  qed
qed

text \<open>C16: automatic escalation. Closing a turn escalates exactly when it was the second in a row without a knowledge base
  hit. The streak counts such turns and is reset by any other turn and by the escalation; the session is escalated, its first
  escalation stamped and never overwritten, and for a known visitor its ticket - the linked one or a new one - is
  escalated and reported.\<close>

theorem automatic_escalation:
  assumes row: "session_row sid (db s) = Some r" and run: "close_turn zones sc sid low s = (Inr (escalated, tid), s')"
  shows "escalated = (low \<and> 1 \<le> cs_low_confidence_streak r) \<and>
    (\<exists>r'. session_row sid (db s') = Some r' \<and> tid = cs_ticket_id r' \<and>
      cs_low_confidence_streak r' = (if low \<and> \<not> escalated then cs_low_confidence_streak r + 1 else 0) \<and>
      cs_status r' = (if escalated then CHAT_ESCALATED else cs_status r) \<and>
      cs_escalated_at r' = (if escalated \<and> cs_escalated_at r = None then Some (now s) else cs_escalated_at r)) \<and>
    (escalated \<and> cs_user_id r \<noteq> None \<longrightarrow>
      (\<exists>t\<in>set (tickets (db s')). tid = Some (t_id t) \<and> t_status t = ESCALATED \<and> (cs_ticket_id r \<noteq> None \<longrightarrow> cs_ticket_id r = tid)))"
proof -
  let ?f = "\<lambda>r. r\<lparr>cs_low_confidence_streak := (if low then cs_low_confidence_streak r + 1 else 0)\<rparr>"
  let ?s = "s\<lparr>db := chat_sessions_update (update_where (\<lambda>r. cs_id r = sid) ?f) (db s)\<rparr>"
  have row1: "session_row sid (db ?s) = Some (?f r)" using session_row_update [OF row, of ?f] by simp
  have k: "(if 2 \<le> cs_low_confidence_streak (?f r)
    then bind (escalate_to_human zones sc sid (JStr AUTOMATIC_ESCALATION_REASON)) (\<lambda>tid.
         bind (chat_row sid) (\<lambda>r'.
         andthen (set_chat_row sid (\<lambda>r. r\<lparr>cs_low_confidence_streak := 0\<rparr>))
           (ret (True, case tid of Some i \<Rightarrow> Some i | None \<Rightarrow> cs_ticket_id r'))))
    else ret (False, cs_ticket_id (?f r))) ?s = (Inr (escalated, tid), s')"
    using run unfolding close_turn_def by (simp only: andthen_run bind_set_chat_row bind_chat_row row1 option.case)
  show ?thesis
  proof (cases "2 \<le> cs_low_confidence_streak (?f r)")
    case False
    with k have "escalated = False" "tid = cs_ticket_id r" "s' = ?s" by (simp_all add: ret_run)
    with row1 False show ?thesis by (auto split: if_splits)
  next
    case True
    then have low: "low" "1 \<le> cs_low_confidence_streak r" by (auto split: if_splits)
    from k [unfolded if_P [OF True]] obtain etid s1 where e: "escalate_to_human zones sc sid (JStr AUTOMATIC_ESCALATION_REASON) ?s = (Inr etid, s1)"
      and rest: "bind (chat_row sid) (\<lambda>r'.
         andthen (set_chat_row sid (\<lambda>r. r\<lparr>cs_low_confidence_streak := 0\<rparr>))
           (ret (True, case etid of Some i \<Rightarrow> Some i | None \<Rightarrow> cs_ticket_id r'))) s1 = (Inr (escalated, tid), s')"
      by (rule bind_InrE)
    note eff = escalate_effect [OF e row1]
    let ?r = "(?f r)\<lparr>cs_status := CHAT_ESCALATED, cs_escalated_at := Some (case cs_escalated_at (?f r) of None \<Rightarrow> now ?s | Some t \<Rightarrow> t),
      cs_ticket_id := (if is_anonymous (?f r) then cs_ticket_id (?f r) else etid)\<rparr>"
    have row2: "session_row sid (db s1) = Some ?r" using eff by (rule conjunct1)
    from rest have out: "escalated = True" "tid = (case etid of Some i \<Rightarrow> Some i | None \<Rightarrow> cs_ticket_id ?r)"
      "s' = s1\<lparr>db := chat_sessions_update (update_where (\<lambda>r. cs_id r = sid) (\<lambda>r. r\<lparr>cs_low_confidence_streak := 0\<rparr>)) (db s1)\<rparr>"
      by (auto simp only: andthen_run bind_set_chat_row bind_chat_row row2 option.case ret_run prod.inject sum.inject)
    have row3: "session_row sid (db s') = Some (?r\<lparr>cs_low_confidence_streak := 0\<rparr>)"
      using session_row_update [OF row2, of "\<lambda>r. r\<lparr>cs_low_confidence_streak := 0\<rparr>"] out(3) by simp
    have same: "tickets (db s') = tickets (db s1)" by (simp add: out(3))
    show ?thesis
    proof (cases "is_anonymous r")
      case anon: True
      then have a: "is_anonymous (?f r)" by (simp add: is_anonymous_def)
      with eff have "etid = None" by simp
      with row3 out(1,2) low anon a show ?thesis by (auto simp: is_anonymous_def split: option.splits)
    next
      case known: False
      then have a: "\<not> is_anonymous (?f r)" by (simp add: is_anonymous_def)
      with eff obtain t where t: "t \<in> set (tickets (db s1))" "etid = Some (t_id t)" "t_status t = ESCALATED"
        "cs_ticket_id r \<noteq> None \<longrightarrow> cs_ticket_id r = etid" by auto
      have tid: "tid = etid" using out(2) t(2) by simp
      with row3 out(1) low a t same show ?thesis by (auto split: option.splits)
    qed
  qed
qed

section \<open>Evaluations\<close>

definition mk_session :: "uuid \<Rightarrow> uuid option \<Rightarrow> uuid option \<Rightarrow> int \<Rightarrow> chat_session" where
  "mk_session i uid tid streak = \<lparr>cs_id = i, cs_created_at = 0, cs_organization_id = 10, cs_user_id = uid, cs_ticket_id = tid,
     cs_status = CHAT_ACTIVE, cs_low_confidence_streak = streak, cs_last_activity_at = 0, cs_channel_metadata = None, cs_channel = WEB,
     cs_escalated_at = None\<rparr>"

definition chat_db :: database where
  "chat_db = empty_database\<lparr>organizations := [org_a], users := [mk_user 13 10 ''tenant@acme.test'' TENANT],
     tickets := [mk_ticket 60 10 13, (mk_ticket 61 10 13)\<lparr>t_status := CLOSED, t_closed_at := Some 0\<rparr>],
     chat_sessions := [mk_session 80 None None 0, mk_session 81 (Some 13) (Some 60) 1, mk_session 82 (Some 13) (Some 61) 0]\<rparr>"

definition chat_world :: world where
  "chat_world = demo_world\<lparr>db := chat_db, committed := chat_db\<rparr>"

text \<open>A model that asks for a ticket as long as it is offered any tool.\<close>

definition insistent_env :: chat_env where
  "insistent_env = \<lparr>complete_chat = (\<lambda>msgs tools. Inr (case tools of
       Some _ \<Rightarrow> \<lparr>c_content = None, c_tool_calls = [\<lparr>tc_id = ''call-1'', tc_name = ''create_ticket'', tc_arguments = ''...''\<rparr>]\<rparr>
     | None \<Rightarrow> \<lparr>c_content = Some ''I cannot open a ticket.'', c_tool_calls = []\<rparr>)),
     rag_embed = (\<lambda>_. Inr []), cosine_distance = (\<lambda>_ _. 0),
     parse_json = (\<lambda>_. Some (JObj [(''title'', JStr ''Leak''), (''description'', JStr ''In the kitchen'')])),
     json_dumps = (\<lambda>_. ''{}''), py_str = (\<lambda>_. []), isoformat = (\<lambda>_. [])\<rparr>"

definition one_round :: settings where
  "one_round = default_settings\<lparr>chat_max_tool_rounds := 1\<rparr>"

theorem anonymous_chat_confined_witness:
  "\<exists>res s'. send_message one_round insistent_env demo_zones (for_anonymous_chat 10) 80 ''Open a ticket'' chat_world = (Inr res, s') \<and>
     tools_used res = [''create_ticket''] \<and> tickets (db s') = tickets chat_db \<and>
     filter (\<lambda>x. cs_id x \<noteq> 80) (chat_sessions (db s')) = tl (chat_sessions chat_db)"
proof -
  let ?run = "send_message one_round insistent_env demo_zones (for_anonymous_chat 10) 80 ''Open a ticket'' chat_world"
  have "\<not> isl (fst ?run) \<and> tools_used (projr (fst ?run)) = [''create_ticket'']" by code_simp
  then obtain res s' where run: "?run = (Inr res, s')" and used: "tools_used res = [''create_ticket'']"
    by (cases ?run; cases "fst ?run") auto
  have row: "session_row 80 (db chat_world) = Some (mk_session 80 None None 0)"
    by (simp add: chat_world_def chat_db_def mk_session_def)
  have free: "cs_user_id (mk_session 80 None None 0) = None" "cs_ticket_id (mk_session 80 None None 0) = None"
    by (simp_all add: mk_session_def)
  have nobody: "\<forall>c\<in>set (contracts (db chat_world)). c_tenant_id c \<noteq> ANONYMOUS_CHAT_ACTOR_ID"
    by (simp add: chat_world_def chat_db_def empty_database_def ANONYMOUS_CHAT_ACTOR_ID_def)
  note confined = anonymous_chat_confined [OF row free nobody run]
  have "tickets (db s') = tickets (db chat_world)"
    by (subst confined [THEN conjunct1]) simp
  moreover have "filter (\<lambda>x. cs_id x \<noteq> 80) (chat_sessions (db s')) = tl (chat_sessions chat_db)"
    using confined by (simp add: chat_world_def chat_db_def mk_session_def)
  ultimately show ?thesis using run used by (intro exI conjI) (simp_all add: chat_world_def)
qed

theorem automatic_escalation_witness:
  "\<exists>s'. close_turn demo_zones (demo_scope 13 TENANT) 81 True chat_world = (Inr (True, Some 60), s') \<and>
     (\<exists>t\<in>set (tickets (db s')). t_id t = 60 \<and> t_status t = ESCALATED)"
proof -
  let ?run = "close_turn demo_zones (demo_scope 13 TENANT) 81 True chat_world"
  have "\<not> isl (fst ?run) \<and> projr (fst ?run) = (True, Some 60)" by code_simp
  then obtain s' where run: "?run = (Inr (True, Some 60), s')" by (cases ?run; cases "fst ?run") auto
  have row: "session_row 81 (db chat_world) = Some (mk_session 81 (Some 13) (Some 60) 1)"
    by (simp add: chat_world_def chat_db_def mk_session_def)
  have "cs_user_id (mk_session 81 (Some 13) (Some 60) 1) \<noteq> None" by (simp add: mk_session_def)
  with automatic_escalation [OF row run] run show ?thesis by auto
qed

text \<open>Every row a turn writes carries the transaction's time, so the history orders a question and its answer by their
  random ids: the answer can come first.\<close>

theorem answer_before_question:
  "(case send_message default_settings (insistent_env\<lparr>complete_chat := (\<lambda>_ _. Inr \<lparr>c_content = Some ''Hello'', c_tool_calls = []\<rparr>)\<rparr>)
      demo_zones (for_anonymous_chat 10) 80 ''Hi'' (chat_world\<lparr>uuids := [101, 100]\<rparr>) of
     (Inl _, _) \<Rightarrow> False
   | (Inr _, s') \<Rightarrow> map cm_content (chat_list_for_session (for_anonymous_chat 10) 80 (db s')) = [''Hello'', ''Hi''])"
  by code_simp

text \<open>A linked ticket that was closed meanwhile cannot be escalated: its closing time is kept, which the schema forbids for any
  status but closed.\<close>

theorem escalating_closed_ticket_fails:
  "fst (escalate_to_human demo_zones (demo_scope 13 TENANT) 82 (JStr ''please'') chat_world) = Inl (Raised IntegrityError)"
  by code_simp

text \<open>A message of blanks passes the request schema and violates the constraint on the contents of chat messages.\<close>

theorem blank_chat_message_fails:
  "fst (send_message default_settings insistent_env demo_zones (for_anonymous_chat 10) 80 '' '' chat_world) = Inl (Raised IntegrityError)"
  by code_simp

end
