(* ===== verification/ChatApi.thy ===== *)
theory ChatApi
  imports Chat
begin

text \<open>
  The chat widget's API: \<open>src/app/services/chat_rate_limit.py\<close>, \<open>src/app/core/chat_token.py\<close>,
  \<open>src/app/api/deps_chat.py\<close> and \<open>src/app/api/v1/chat.py\<close>.

  Chat tokens use the JWT functions of \<open>libs\<close>; \<open>chat_jwt_sound\<close> states for their claims what \<open>jwt_sound\<close>
  states for those of access tokens.
\<close>

section \<open>The rate limit\<close>

function nat_str :: "nat \<Rightarrow> string" where
  "nat_str n = (if n < 10 then [char_of (48 + n)] else nat_str (n div 10) @ [char_of (48 + n mod 10)])"
  by pat_completeness auto
termination by (relation "measure id") auto

declare nat_str.simps [simp del]

definition int_str :: "int \<Rightarrow> string" where
  "int_str n = (if n < 0 then CHR ''-'' # nat_str (nat (- n)) else nat_str (nat n))"

definition rate_limit_key :: "uuid \<Rightarrow> int \<Rightarrow> string" where
  "rate_limit_key sid epoch_hour = ''chat:rl:'' @ uuid_str sid @ CHR '':'' # int_str epoch_hour"

definition check_and_increment :: "settings \<Rightarrow> uuid \<Rightarrow> unit service" where
  "check_and_increment cfg sid = bind (reads now) (\<lambda>ts.
    let limit = chat_rate_limit_per_hour cfg;
        key = rate_limit_key sid (ts div hours 1)
    in bind (redis_incr key) (\<lambda>count.
       bind (redis_expire_nx key 3700) (\<lambda>_.
       throw_if (count > limit)
         (ChatRateLimitExceededError sid limit (3600 - ts div us_per_second mod 3600)))))"

section \<open>Session tokens\<close>

definition CHAT_SESSION_TOKEN_TYP :: string where "CHAT_SESSION_TOKEN_TYP = ''chat_session''"

record ChatTokenClaims =
  tk_sid :: json
  tk_org :: json
  tk_uid :: "json option"
  tk_jti :: json
  tk_iat :: json
  tk_exp :: json
  tk_typ :: json

definition chat_claims :: "uuid \<Rightarrow> uuid \<Rightarrow> uuid option \<Rightarrow> uuid \<Rightarrow> int \<Rightarrow> int \<Rightarrow> (string \<times> json) list" where
  "chat_claims sid org uid jti iat expiry =
    [(''sid'', JStr (uuid_str sid)), (''org'', JStr (uuid_str org)),
     (''uid'', case uid of None \<Rightarrow> JNull | Some u \<Rightarrow> JStr (uuid_str u)), (''jti'', JStr (uuid_str jti)),
     (''iat'', JInt iat), (''exp'', JInt expiry), (''typ'', JStr CHAT_SESSION_TOKEN_TYP)]"

definition encode_chat_session_token :: "settings \<Rightarrow> libs \<Rightarrow> uuid \<Rightarrow> uuid \<Rightarrow> uuid option \<Rightarrow> string service" where
  "encode_chat_session_token cfg L sid org uid = bind (reads now) (\<lambda>ts. bind uuid4 (\<lambda>jti.
     ret (jwt_encode L (chat_claims sid org uid jti (ts div us_per_second)
            ((ts + minutes (chat_session_token_ttl_minutes cfg)) div us_per_second)))))"

definition decode_chat_session_token :: "libs \<Rightarrow> string \<Rightarrow> ChatTokenClaims service" where
  "decode_chat_session_token L tok = bind (reads now) (\<lambda>ts.
     case jwt_decode L ts tok of
       None \<Rightarrow> throw InvalidChatSessionTokenError
     | Some claims \<Rightarrow>
         if map_of claims ''typ'' \<noteq> Some (JStr CHAT_SESSION_TOKEN_TYP) then throw InvalidChatSessionTokenError
         else (case (map_of claims ''sid'', map_of claims ''org'', map_of claims ''jti'', map_of claims ''iat'',
                     map_of claims ''exp'', map_of claims ''typ'') of
             (Some sid, Some org, Some jti, Some iat, Some expiry, Some typ) \<Rightarrow>
               ret \<lparr>tk_sid = sid, tk_org = org,
                 tk_uid = (case map_of claims ''uid'' of Some JNull \<Rightarrow> None | v \<Rightarrow> v),
                 tk_jti = jti, tk_iat = iat, tk_exp = expiry, tk_typ = typ\<rparr>
           | _ \<Rightarrow> throw InvalidChatSessionTokenError))"

section \<open>Who is asking\<close>

text \<open>\<open>scheme, _, token = authorization.partition(" ")\<close>.\<close>

definition extract_bearer_token :: "string option \<Rightarrow> string option" where
  "extract_bearer_token authorization = (case authorization of
      None \<Rightarrow> None
    | Some a \<Rightarrow>
        let scheme = takeWhile (\<lambda>c. c \<noteq> CHR '' '') a;
            token = drop 1 (dropWhile (\<lambda>c. c \<noteq> CHR '' '') a)
        in if py_lower scheme \<noteq> ''bearer'' \<or> token = [] then None else Some token)"

definition resolve_bearer_scope :: "libs \<Rightarrow> string \<Rightarrow> OrgScope service" where
  "resolve_bearer_scope L token =
    bind (try_except (decode_access_token L token)
           (\<lambda>e. if e = Raised InvalidAccessTokenError then throw UNAUTHORIZED else raise e)) (\<lambda>claims.
    case uuid_of_json (map_of claims ''sub'') of
      Inl e \<Rightarrow> throw (if e \<in> {KeyError, ValueError, TypeError} then UNAUTHORIZED else e)
    | Inr uid \<Rightarrow>
        bind (one_or_none (\<lambda>d. filter (\<lambda>u. u_id u = uid) (users d))) (\<lambda>found.
        case found of
          None \<Rightarrow> throw UNAUTHORIZED
        | Some u \<Rightarrow>
            if u_status u \<noteq> USER_ACTIVE then throw UNAUTHORIZED
            else if u_organization_id u = None then throw UNAUTHORIZED
            else from_sum (from_principal u)))"

definition uuid_or_unauthorized :: "json \<Rightarrow> uuid service" where
  "uuid_or_unauthorized v = (case uuid_of_json (Some v) of
      Inl e \<Rightarrow> throw (if e \<in> {TypeError, ValueError} then UNAUTHORIZED else e)
    | Inr i \<Rightarrow> ret i)"

definition resolve_chat_token_scope :: "libs \<Rightarrow> string \<Rightarrow> uuid \<Rightarrow> (OrgScope \<times> bool) service" where
  "resolve_chat_token_scope L token sid =
    bind (try_except (decode_chat_session_token L token)
           (\<lambda>e. if e = Raised InvalidChatSessionTokenError then throw UNAUTHORIZED else raise e)) (\<lambda>claims.
    if tk_sid claims \<noteq> JStr (uuid_str sid) then throw UNAUTHORIZED
    else bind (uuid_or_unauthorized (tk_org claims)) (\<lambda>org.
      case tk_uid claims of
        None \<Rightarrow> ret (for_anonymous_chat org, True)
      | Some uid \<Rightarrow> bind (uuid_or_unauthorized uid) (\<lambda>u.
          ret (\<lparr>organization_id = org, user_id = u, role = TENANT\<rparr>, False))))"

record ChatPrincipal =
  cp_scope :: OrgScope
  cp_chat_session :: chat_session
  cp_is_anonymous :: bool

definition get_chat_session_scope :: "libs \<Rightarrow> uuid \<Rightarrow> string option \<Rightarrow> string option \<Rightarrow> ChatPrincipal service" where
  "get_chat_session_scope L sid chat_token authorization =
    bind (case extract_bearer_token authorization of
        Some bearer \<Rightarrow> bind (resolve_bearer_scope L bearer) (\<lambda>sc. ret (sc, False))
      | None \<Rightarrow> (case chat_token of
            Some tok \<Rightarrow> resolve_chat_token_scope L tok sid
          | None \<Rightarrow> throw UNAUTHORIZED)) (\<lambda>(sc, anon).
    bind (get_or_404 ChatSessionRepository sc (Some sid)) (\<lambda>r.
    ret \<lparr>cp_scope = sc, cp_chat_session = r, cp_is_anonymous = anon\<rparr>))"

section \<open>The routes\<close>

fun is_http :: "fault \<Rightarrow> bool" where
  "is_http (Raised (HTTPException _ _)) = True"
| "is_http _ = False"

definition resolve_optional_user_id :: "libs \<Rightarrow> string option \<Rightarrow> uuid option service" where
  "resolve_optional_user_id L authorization = (case extract_bearer_token authorization of
      None \<Rightarrow> ret None
    | Some token \<Rightarrow> try_except (bind (resolve_bearer_scope L token) (\<lambda>sc. ret (Some (user_id sc))))
        (\<lambda>e. if is_http e then ret None else raise e))"

record ChatSessionCreateResponse =
  cr_id :: uuid
  cr_status :: ChatSessionStatus
  cr_is_anonymous :: bool
  cr_chat_token :: string
  cr_expires_at :: int

definition create_chat_session :: "settings \<Rightarrow> libs \<Rightarrow> string \<Rightarrow> string option \<Rightarrow> ChatSessionCreateResponse service" where
  "create_chat_session cfg L widget_key authorization =
    bind (one_or_none (\<lambda>d. filter (\<lambda>o'. o_chat_widget_key o' = widget_key) (organizations d))) (\<lambda>found.
    case found of
      None \<Rightarrow> throw (HTTPException 404 ''Not found'')
    | Some org \<Rightarrow>
        bind (resolve_optional_user_id L authorization) (\<lambda>uid.
        let sc = (case uid of Some u \<Rightarrow> \<lparr>organization_id = o_id org, user_id = u, role = TENANT\<rparr> | None \<Rightarrow> for_anonymous_chat (o_id org))
        in bind (reads now) (\<lambda>ts.
           bind (add_row ChatSessionRepository sc (\<lambda>i. \<lparr>cs_id = i, cs_created_at = ts, cs_organization_id = o_id org, cs_user_id = uid,
             cs_ticket_id = None, cs_status = CHAT_ACTIVE, cs_low_confidence_streak = 0, cs_last_activity_at = ts,
             cs_channel_metadata = None, cs_channel = WEB, cs_escalated_at = None\<rparr>)) (\<lambda>r.
           andthen flush
           (bind (encode_chat_session_token cfg L (cs_id r) (o_id org) uid) (\<lambda>token.
            ret \<lparr>cr_id = cs_id r, cr_status = cs_status r, cr_is_anonymous = (uid = None), cr_chat_token = token,
              cr_expires_at = ts + minutes (chat_session_token_ttl_minutes cfg)\<rparr>))))))"

fun is_rate_limit :: "fault \<Rightarrow> bool" where
  "is_rate_limit (Raised (ChatRateLimitExceededError _ _ _)) = True"
| "is_rate_limit _ = False"

definition post_chat_message :: "settings \<Rightarrow> libs \<Rightarrow> chat_env \<Rightarrow> (string \<Rightarrow> zone option) \<Rightarrow> uuid \<Rightarrow> string option \<Rightarrow> string option \<Rightarrow>
    string \<Rightarrow> (ChatTurnResult \<times> ChatSessionStatus) service" where
  "post_chat_message cfg L E zones sid chat_token authorization content =
    bind (get_chat_session_scope L sid chat_token authorization) (\<lambda>caller.
    let r = cp_chat_session caller in
    andthen (throw_if (cs_status r \<noteq> CHAT_ACTIVE) (HTTPException 409 ''chat session is not active''))
    (andthen (try_except (check_and_increment cfg (cs_id r))
        (\<lambda>e. if is_rate_limit e then throw (HTTPException 429 ''rate limit exceeded'') else raise e))
    (bind (send_message cfg E zones (cp_scope caller) (cs_id r) content) (\<lambda>result.
     bind (chat_row (cs_id r)) (\<lambda>r'. ret (result, cs_status r'))))))"

definition get_chat_messages :: "libs \<Rightarrow> uuid \<Rightarrow> string option \<Rightarrow> string option \<Rightarrow> chat_message list service" where
  "get_chat_messages L sid chat_token authorization =
    bind (get_chat_session_scope L sid chat_token authorization) (\<lambda>caller.
    query (\<lambda>d. filter (\<lambda>m. cm_role m \<noteq> CHAT_TOOL) (chat_list_for_session (cp_scope caller) sid d)))"

section \<open>Theorems\<close>

lemma map_of_dict_set_other: "k \<noteq> key \<Longrightarrow> map_of (dict_set key v xs) k = map_of xs k"
  by (simp add: map_of_dict_set)

lemma nat_str_digits: "c \<in> set (nat_str n) \<Longrightarrow> 48 \<le> (of_char c :: nat) \<and> (of_char c :: nat) < 58"
proof (induction n rule: nat_str.induct)
  case (1 n)
  have digit: "48 \<le> (of_char (char_of (48 + m) :: char) :: nat) \<and> (of_char (char_of (48 + m) :: char) :: nat) < 58" if "m < 10" for m :: nat
    using that by simp
  show ?case
  proof (cases "n < 10")
    case True
    with "1.prems" digit [of n] show ?thesis by (simp add: nat_str.simps [of n])
  next
    case False
    with "1.prems" have "c \<in> set (nat_str (n div 10)) \<or> c = char_of (48 + n mod 10)"
      by (auto simp: nat_str.simps [of n])
    then show ?thesis
      using "1.IH" [OF False] digit [of "n mod 10"] by (metis mod_less_divisor zero_less_numeral)
  qed
qed

lemma nat_str_value: "foldl (\<lambda>a c. 10 * a + (of_char c - 48)) 0 (nat_str n) = n"
proof (induction n rule: nat_str.induct)
  case (1 n)
  show ?case
  proof (cases "n < 10")
    case True
    then show ?thesis by (simp add: nat_str.simps [of n])
  next
    case False
    then show ?thesis using "1.IH" by (simp add: nat_str.simps [of n])
  qed
qed

lemma nat_str_inject: "nat_str m = nat_str n \<Longrightarrow> m = n"
  by (metis nat_str_value)

lemma nat_str_no_sign: "nat_str n \<noteq> CHR ''-'' # xs"
  using nat_str_digits [of "CHR ''-''" n] by auto

lemma int_str_inject: "int_str m = int_str n \<Longrightarrow> m = n"
  using nat_str_inject [of "nat (- m)" "nat (- n)"] nat_str_inject [of "nat m" "nat n"]
    nat_str_no_sign [of "nat m"] nat_str_no_sign [of "nat n"]
  by (auto simp: int_str_def split: if_splits) (metis nat_str_no_sign)+

lemma uuid_str_inject: "uuid_str u = uuid_str v \<Longrightarrow> u = v"
  by (metis option.inject uuid_of_string_str)

lemma rate_limit_key_inject: "rate_limit_key sid h = rate_limit_key sid' h' \<longleftrightarrow> sid = sid' \<and> h = h'"
proof
  assume "rate_limit_key sid h = rate_limit_key sid' h'"
  then have "uuid_str sid @ CHR '':'' # int_str h = uuid_str sid' @ CHR '':'' # int_str h'"
    by (simp add: rate_limit_key_def)
  then have "uuid_str sid = uuid_str sid' \<and> int_str h = int_str h'"
    by (simp add: append_eq_append_conv)
  then show "sid = sid' \<and> h = h'" using uuid_str_inject int_str_inject by blast
qed simp

text \<open>One call: the new count and whether it passes.\<close>

lemma check_and_increment_run:
  "check_and_increment cfg sid s =
    (let key = rate_limit_key sid (now s div hours 1);
         (count, s') = (case redis_get key s of
             None \<Rightarrow> (1, s\<lparr>redis := dict_set key (1, Some (now s + seconds 3700)) (dict_set key (1, None) (redis s))\<rparr>)
           | Some (v, None) \<Rightarrow> (v + 1, s\<lparr>redis := dict_set key (v + 1, Some (now s + seconds 3700)) (dict_set key (v + 1, None) (redis s))\<rparr>)
           | Some (v, Some until) \<Rightarrow> (v + 1, s\<lparr>redis := dict_set key (v + 1, Some until) (redis s)\<rparr>))
     in if count > chat_rate_limit_per_hour cfg
        then (Inl (Raised (ChatRateLimitExceededError sid (chat_rate_limit_per_hour cfg)
               (3600 - now s div us_per_second mod 3600))), s')
        else (Inr (), s'))"
proof -
  have split: "bind (redis_incr key) (\<lambda>count. bind (redis_expire_nx key 3700) (\<lambda>_. f count)) =
      bind (bind (redis_incr key) (\<lambda>count. bind (redis_expire_nx key 3700) (\<lambda>_. ret count))) f"
    for key and f :: "int \<Rightarrow> unit service"
    by (rule ext) (simp add: bind_def ret_def split: prod.splits sum.splits)
  show ?thesis
    unfolding check_and_increment_def Let_def bind_reads split
    by (subst bind_def, subst redis_incr_expire_run) (auto simp: raise_if_def ret_run raise_run Let_def split: option.splits)
qed

fun attempts :: "settings \<Rightarrow> (uuid \<times> int) list \<Rightarrow> world \<Rightarrow> bool list" where
  "attempts cfg [] s = []"
| "attempts cfg ((sid, ts) # calls) s =
    (let (r, s') = check_and_increment cfg sid (s\<lparr>now := ts\<rparr>) in (r = Inr ()) # attempts cfg calls s')"

definition same_window :: "uuid \<times> int \<Rightarrow> uuid \<times> int \<Rightarrow> bool" where
  "same_window c c' \<longleftrightarrow> fst c' = fst c \<and> snd c' div hours 1 = snd c div hours 1"

definition counted :: "(uuid \<times> int) list \<Rightarrow> world \<Rightarrow> bool" where
  "counted past s \<longleftrightarrow> (\<forall>c.
     if length (filter (same_window c) past) = 0 then map_of (redis s) (rate_limit_key (fst c) (snd c div hours 1)) = None
     else (\<exists>until. map_of (redis s) (rate_limit_key (fst c) (snd c div hours 1)) =
             Some (int (length (filter (same_window c) past)), Some until) \<and> snd c < until))"


lemma same_window_refl [simp]: "same_window c c"
  by (simp add: same_window_def)

lemma window_key: "rate_limit_key (fst c) (snd c div hours 1) = rate_limit_key (fst c') (snd c' div hours 1) \<longleftrightarrow> same_window c' c"
  by (auto simp: rate_limit_key_inject same_window_def)

lemma window_end: "same_window c c' \<Longrightarrow> snd c < snd c' + seconds 3700"
proof -
  assume "same_window c c'"
  then have e: "snd c' div 3600000000 = snd c div 3600000000" by (simp add: same_window_def time_defs)
  have "snd c < snd c' + 3600000000"
    using div_mult_mod_eq [of "snd c" 3600000000] div_mult_mod_eq [of "snd c'" 3600000000] e
      pos_mod_bound [of 3600000000 "snd c"] pos_mod_sign [of 3600000000 "snd c'"] by linarith
  then show ?thesis by (simp add: time_defs)
qed

lemma check_and_increment_counts:
  fixes c :: "uuid \<times> int"
  defines "n \<equiv> \<lambda>past. length (filter (same_window c) past)"
  assumes "counted past s"
  shows "\<exists>s'. check_and_increment cfg (fst c) (s\<lparr>now := snd c\<rparr>) =
      ((if int (n past) < chat_rate_limit_per_hour cfg then Inr ()
        else Inl (Raised (ChatRateLimitExceededError (fst c) (chat_rate_limit_per_hour cfg)
               (3600 - snd c div us_per_second mod 3600)))), s') \<and> counted (past @ [c]) s'"
proof -
  let ?key = "rate_limit_key (fst c) (snd c div hours 1)"
  let ?s = "s\<lparr>now := snd c\<rparr>"
  have entry: "if n past = 0 then map_of (redis s) ?key = None
      else \<exists>until. map_of (redis s) ?key = Some (int (n past), Some until) \<and> snd c < until"
    using assms(2) unfolding counted_def n_def Let_def by blast
  have extend: "counted (past @ [c]) s'"
    if "\<And>k. map_of (redis s') k = (if k = ?key then Some (int (n past) + 1, Some until) else map_of (redis s) k)"
      and "\<And>c'. same_window c' c \<Longrightarrow> snd c' < until" for s' :: world and until
    unfolding counted_def
  proof (intro allI)
    fix c' :: "uuid \<times> int"
    show "if length (filter (same_window c') (past @ [c])) = 0 then map_of (redis s') (rate_limit_key (fst c') (snd c' div hours 1)) = None
     else (\<exists>until. map_of (redis s') (rate_limit_key (fst c') (snd c' div hours 1)) =
             Some (int (length (filter (same_window c') (past @ [c]))), Some until) \<and> snd c' < until)"
    proof (cases "same_window c' c")
      case True
      then have "same_window c' = same_window c" by (auto simp: same_window_def fun_eq_iff)
      moreover have "rate_limit_key (fst c') (snd c' div hours 1) = ?key"
        using True by (simp add: same_window_def)
      ultimately show ?thesis using that True by (simp add: n_def add.commute)
    next
      case False
      then have "rate_limit_key (fst c') (snd c' div hours 1) \<noteq> ?key"
        by (auto simp: rate_limit_key_inject same_window_def)
      with False show ?thesis
        using spec [OF assms(2) [unfolded counted_def], of c'] by (simp add: that(1))
    qed
  qed
  show ?thesis
  proof (cases "n past = 0")
    case True
    with entry have "redis_get ?key ?s = None" by (simp add: redis_get_def)
    with True show ?thesis
      unfolding check_and_increment_run
      by (auto simp: Let_def map_of_dict_set intro!: extend [where until = "snd c + seconds 3700"] window_end)
  next
    case False
    with entry obtain until where u: "map_of (redis s) ?key = Some (int (n past), Some until)" "snd c < until" by auto
    then have "redis_get ?key ?s = Some (int (n past), Some until)" by (simp add: redis_get_def)
    moreover have "snd c' < until" if w: "same_window c' c" for c'
    proof -
      have "same_window c' = same_window c" "rate_limit_key (fst c') (snd c' div hours 1) = ?key"
        using w by (auto simp: same_window_def fun_eq_iff)
      then show ?thesis using assms(2) False u unfolding counted_def n_def Let_def by (metis option.inject prod.inject)
    qed
    ultimately show ?thesis
      unfolding check_and_increment_run
      by (auto simp: Let_def map_of_dict_set intro!: extend [where until = until])
  qed
qed

lemma attempts_counted:
  assumes "counted past s"
  shows "attempts cfg calls s = map (\<lambda>i. int (length (filter (same_window (calls ! i)) (past @ take i calls)))
      < chat_rate_limit_per_hour cfg) [0..<length calls]"
  using assms
proof (induction calls arbitrary: past s)
  case (Cons c calls)
  from check_and_increment_counts [OF Cons.prems, of cfg c] obtain s'
    where run: "check_and_increment cfg (fst c) (s\<lparr>now := snd c\<rparr>) =
      ((if int (length (filter (same_window c) past)) < chat_rate_limit_per_hour cfg then Inr ()
        else Inl (Raised (ChatRateLimitExceededError (fst c) (chat_rate_limit_per_hour cfg)
               (3600 - snd c div us_per_second mod 3600)))), s')"
      and step: "counted (past @ [c]) s'" by blast
  have "attempts cfg (c # calls) s = (int (length (filter (same_window c) past)) < chat_rate_limit_per_hour cfg)
      # attempts cfg calls s'"
    using run by (cases c) auto
  also have "attempts cfg calls s' = map (\<lambda>i. int (length (filter (same_window (calls ! i)) ((past @ [c]) @ take i calls)))
      < chat_rate_limit_per_hour cfg) [0..<length calls]"
    by (rule Cons.IH [OF step])
  finally show ?case
    by (simp add: upt_conv_Cons map_Suc_upt [symmetric] comp_def del: upt_Suc)
qed simp

text \<open>C25: The rate limiter is equivalent to its specification: starting from an empty Redis, over any
  sequence of messages of any sessions at any times, the one at position \<open>i\<close> passes exactly when fewer
  than \<open>chat_rate_limit_per_hour\<close> earlier messages of the sequence are of the same session and fall in
  the same clock hour. Counters of different sessions or hours never share a key, and no counter expires
  within its hour; rejected messages count too.\<close>

theorem rate_limit_exact:
  "attempts cfg calls (s\<lparr>redis := []\<rparr>) =
    map (\<lambda>i. int (length (filter (same_window (calls ! i)) (take i calls))) < chat_rate_limit_per_hour cfg)
      [0..<length calls]"
proof -
  have "counted [] (s\<lparr>redis := []\<rparr>)" by (simp add: counted_def)
  from attempts_counted [OF this] show ?thesis by simp
qed

text \<open>The window is the clock hour, not the last sixty minutes the docstring names: twice the limit passes
  within two seconds around the full hour.\<close>

theorem rate_limit_not_rolling:
  "attempts (default_settings\<lparr>chat_rate_limit_per_hour := 2\<rparr>)
     [(80, hours 1 - seconds 1), (80, hours 1 - seconds 1), (80, hours 1), (80, hours 1 + seconds 1), (80, hours 1 + seconds 1)] (s\<lparr>redis := []\<rparr>) =
     [True, True, True, True, False]"
  unfolding rate_limit_exact by (simp add: same_window_def time_defs upt_rec)


section \<open>A chat token opens its own session only\<close>

definition chat_jwt_sound :: "libs \<Rightarrow> bool" where
  "chat_jwt_sound L \<longleftrightarrow> (\<forall>sid org uid jti iat expiry ts. 0 \<le> iat \<longrightarrow> iat \<le> expiry \<longrightarrow> expiry < 10 ^ 12 \<longrightarrow> seconds iat \<le> ts \<longrightarrow>
     jwt_decode L ts (jwt_encode L (chat_claims sid org uid jti iat expiry)) =
       (if ts < seconds expiry then Some (chat_claims sid org uid jti iat expiry) else None))"

lemma chat_jwt_soundD:
  "chat_jwt_sound L \<Longrightarrow> 0 \<le> iat \<Longrightarrow> iat \<le> expiry \<Longrightarrow> expiry < 10 ^ 12 \<Longrightarrow> seconds iat \<le> ts \<Longrightarrow>
     jwt_decode L ts (jwt_encode L (chat_claims sid org uid jti iat expiry)) =
       (if ts < seconds expiry then Some (chat_claims sid org uid jti iat expiry) else None)"
  unfolding chat_jwt_sound_def by blast

lemma chat_claims_lookup [simp]:
  "map_of (chat_claims sid org uid jti iat expiry) ''sid'' = Some (JStr (uuid_str sid))"
  "map_of (chat_claims sid org uid jti iat expiry) ''org'' = Some (JStr (uuid_str org))"
  "map_of (chat_claims sid org uid jti iat expiry) ''uid'' = Some (case uid of None \<Rightarrow> JNull | Some u \<Rightarrow> JStr (uuid_str u))"
  "map_of (chat_claims sid org uid jti iat expiry) ''jti'' = Some (JStr (uuid_str jti))"
  "map_of (chat_claims sid org uid jti iat expiry) ''iat'' = Some (JInt iat)"
  "map_of (chat_claims sid org uid jti iat expiry) ''exp'' = Some (JInt expiry)"
  "map_of (chat_claims sid org uid jti iat expiry) ''typ'' = Some (JStr CHAT_SESSION_TOKEN_TYP)"
  by (simp_all add: chat_claims_def)

definition token_scope :: "uuid \<Rightarrow> uuid option \<Rightarrow> OrgScope" where
  "token_scope org uid = (case uid of None \<Rightarrow> for_anonymous_chat org
     | Some u \<Rightarrow> \<lparr>organization_id = org, user_id = u, role = TENANT\<rparr>)"

lemma organization_token_scope [simp]: "organization_id (token_scope org uid) = org"
  by (simp add: token_scope_def for_anonymous_chat_def split: option.splits)

lemma chat_session_fields: "model_name ChatSessionRepository = ''ChatSession''" "rows ChatSessionRepository = chat_sessions"
  "pk ChatSessionRepository = cs_id" "clause ChatSessionRepository sc d r = (cs_organization_id r = organization_id sc)"
  by (simp_all add: ChatSessionRepository_def)

lemma resolve_chat_token_refused:
  assumes "jwt_decode L (now t) tok = None"
  shows "resolve_chat_token_scope L tok sid' t = (Inl (Raised UNAUTHORIZED), t)"
proof -
  have "decode_chat_session_token L tok t = (Inl (Raised InvalidChatSessionTokenError), t)"
    using assms by (simp add: decode_chat_session_token_def bind_reads raise_run)
  then show ?thesis
    unfolding resolve_chat_token_scope_def by (simp add: bind_def try_except_def raise_run)
qed

lemma resolve_chat_token_claims:
  assumes "jwt_decode L (now t) tok = Some (chat_claims sid org uid jti iat expiry)"
  shows "resolve_chat_token_scope L tok sid' t =
    (if sid' = sid then (Inr (token_scope org uid, uid = None), t) else (Inl (Raised UNAUTHORIZED), t))"
proof -
  have dec: "decode_chat_session_token L tok t = (Inr \<lparr>tk_sid = JStr (uuid_str sid), tk_org = JStr (uuid_str org),
      tk_uid = map_option (\<lambda>u. JStr (uuid_str u)) uid, tk_jti = JStr (uuid_str jti), tk_iat = JInt iat, tk_exp = JInt expiry,
      tk_typ = JStr CHAT_SESSION_TOKEN_TYP\<rparr>, t)"
    using assms by (simp add: decode_chat_session_token_def bind_reads ret_run split: option.splits)
  have opened: "bind (try_except (decode_chat_session_token L tok) h) k t = k (\<lparr>tk_sid = JStr (uuid_str sid), tk_org = JStr (uuid_str org),
      tk_uid = map_option (\<lambda>u. JStr (uuid_str u)) uid, tk_jti = JStr (uuid_str jti), tk_iat = JInt iat, tk_exp = JInt expiry,
      tk_typ = JStr CHAT_SESSION_TOKEN_TYP\<rparr>) t" for h and k :: "ChatTokenClaims \<Rightarrow> (OrgScope \<times> bool) service"
    by (intro bind_Inr try_except_Inr dec)
  have parse: "uuid_of_json (Some (JStr (uuid_str u))) = Inr u" for u
    by (simp add: uuid_of_json_def)
  show ?thesis
    using uuid_str_inject [of sid sid']
    by (cases uid) (auto simp: resolve_chat_token_scope_def opened uuid_or_unauthorized_def
        parse bind_ret ret_run raise_run token_scope_def)
qed

text \<open>C26: A chat token opens its own session only. The token \<open>create_chat_session\<close> mints, sent back later in
  \<open>X-Chat-Session\<close>, gives access exactly to the session it was minted for, in its organization and as its
  visitor (never with more than tenant rights), until it expires; for any other session or afterwards the
  answer is 401, and presented as a Bearer token it is refused.\<close>

theorem chat_token_confined:
  assumes "chat_jwt_sound L" "encode_chat_session_token cfg L sid org uid s = (Inr tok, s')"
    and "0 \<le> now s" "0 \<le> chat_session_token_ttl_minutes cfg"
    and "now s + minutes (chat_session_token_ttl_minutes cfg) < seconds (10 ^ 12)" "now s \<le> now t"
    and "distinct (map cs_id (chat_sessions (db t)))"
  shows "get_chat_session_scope L sid' (Some tok) None t =
      (if sid' = sid \<and> now t < seconds ((now s + minutes (chat_session_token_ttl_minutes cfg)) div us_per_second)
       then (case find (\<lambda>r. cs_id r = sid \<and> cs_organization_id r = org) (chat_sessions (db t)) of
           None \<Rightarrow> (Inl (Raised (NotFoundError ''ChatSession'' (Some sid))), t)
         | Some r \<Rightarrow> (Inr \<lparr>cp_scope = (case uid of None \<Rightarrow> for_anonymous_chat org
                         | Some u \<Rightarrow> \<lparr>organization_id = org, user_id = u, role = TENANT\<rparr>),
                       cp_chat_session = r, cp_is_anonymous = (uid = None)\<rparr>, t))
       else (Inl (Raised UNAUTHORIZED), t)) \<and>
    resolve_bearer_scope L tok t = (Inl (Raised UNAUTHORIZED), t)"
proof -
  let ?iat = "now s div us_per_second"
  let ?exp = "(now s + minutes (chat_session_token_ttl_minutes cfg)) div us_per_second"
  from assms(2) obtain jti where tok: "tok = jwt_encode L (chat_claims sid org uid jti ?iat ?exp)"
    by (auto simp: encode_chat_session_token_def run_simps split: list.splits)
  have dec: "jwt_decode L (now t) tok = (if now t < seconds ?exp then Some (chat_claims sid org uid jti ?iat ?exp) else None)"
    unfolding tok by (rule chat_jwt_soundD [OF assms(1)]) (use assms(3-6) in \<open>simp_all add: time_defs\<close>)
  have access: "decode_access_token L tok t = (Inl (Raised InvalidAccessTokenError), t)"
    using dec by (simp add: decode_access_token_def bind_reads raise_run CHAT_SESSION_TOKEN_TYP_def split: option.splits if_splits)
  then have bearer: "resolve_bearer_scope L tok t = (Inl (Raised UNAUTHORIZED), t)"
    by (simp add: resolve_bearer_scope_def bind_def try_except_def raise_run)
  have row: "get_or_404 ChatSessionRepository (token_scope org uid) (Some sid) t =
    (case find (\<lambda>r. cs_id r = sid \<and> cs_organization_id r = org) (chat_sessions (db t)) of
       None \<Rightarrow> (Inl (Raised (NotFoundError ''ChatSession'' (Some sid))), t)
     | Some r \<Rightarrow> (Inr r, t))"
    using get_or_404_cases [of ChatSessionRepository t "token_scope org uid" sid] assms(7)
    by (simp add: chat_session_fields split: option.splits)
  have "resolve_chat_token_scope L tok sid' t = (if sid' = sid \<and> now t < seconds ?exp
      then (Inr (token_scope org uid, uid = None), t) else (Inl (Raised UNAUTHORIZED), t))"
    using dec resolve_chat_token_claims [of L t tok] resolve_chat_token_refused [of L t tok sid'] by (auto split: if_splits)
  then have "get_chat_session_scope L sid' (Some tok) None t =
      (if sid' = sid \<and> now t < seconds ?exp
       then bind (get_or_404 ChatSessionRepository (token_scope org uid) (Some sid))
         (\<lambda>r. ret \<lparr>cp_scope = token_scope org uid, cp_chat_session = r, cp_is_anonymous = (uid = None)\<rparr>) t
       else (Inl (Raised UNAUTHORIZED), t))"
    by (simp add: get_chat_session_scope_def extract_bearer_token_def bind_def)
  then show ?thesis
    using bearer row by (simp add: bind_def ret_run token_scope_def split: option.splits)
qed


text \<open>An instance of the JWT functions for chat tokens: the fixed-width renderings of the claims.\<close>

definition plain_chat_encode :: "(string \<times> json) list \<Rightarrow> string" where
  "plain_chat_encode claims = (case map snd claims of
      [JStr sid, JStr org, uid, JStr jti, JInt iat, JInt expiry, _] \<Rightarrow>
        sid @ org @ jti @ uuid_hex (word_of_int iat) @ uuid_hex (word_of_int expiry) @ (case uid of JStr u \<Rightarrow> u | _ \<Rightarrow> [])
    | _ \<Rightarrow> [])"

definition plain_chat_claims :: "string \<Rightarrow> ((string \<times> json) list \<times> int \<times> int)" where
  "plain_chat_claims tok =
    (let iat = the (hex_digits False 0 (take 32 (drop 108 tok)));
         expiry = the (hex_digits False 0 (take 32 (drop 140 tok)));
         uid = drop 172 tok
     in ([(''sid'', JStr (take 36 tok)), (''org'', JStr (take 36 (drop 36 tok))), (''uid'', if uid = [] then JNull else JStr uid),
          (''jti'', JStr (take 36 (drop 72 tok))), (''iat'', JInt iat), (''exp'', JInt expiry),
          (''typ'', JStr ''chat_session'')], iat, expiry))"

definition chat_libs :: libs where
  "chat_libs = plain_libs\<lparr>jwt_encode := plain_chat_encode,
     jwt_decode := (\<lambda>ts tok. case plain_chat_claims tok of (claims, iat, expiry) \<Rightarrow>
       if seconds iat \<le> ts \<and> ts < seconds expiry then Some claims else None)\<rparr>"

lemma uuid_str_nonempty [simp]: "uuid_str u \<noteq> []"
  using length_uuid_str [of u] by (metis list.size(3) zero_neq_numeral)

lemma chat_libs_sound: "chat_jwt_sound chat_libs"
  unfolding chat_jwt_sound_def
proof (intro allI impI)
  fix sid org jti :: uuid and uid :: "uuid option" and iat expiry ts :: int
  assume a: "0 \<le> iat" "iat \<le> expiry" "expiry < 10 ^ 12" "seconds iat \<le> ts"
  then have w: "uint (word_of_int iat :: uuid) = iat" "uint (word_of_int expiry :: uuid) = expiry"
    by (simp_all add: uint_word_of_int)
  have "plain_chat_claims (plain_chat_encode (chat_claims sid org uid jti iat expiry)) =
      (chat_claims sid org uid jti iat expiry, iat, expiry)"
    by (cases uid) (simp_all add: plain_chat_encode_def chat_claims_def plain_chat_claims_def Let_def
        hex_digits_uuid w CHAT_SESSION_TOKEN_TYP_def)
  with a(4) show "jwt_decode chat_libs ts (jwt_encode chat_libs (chat_claims sid org uid jti iat expiry)) =
      (if ts < seconds expiry then Some (chat_claims sid org uid jti iat expiry) else None)"
    by (simp add: chat_libs_def)
qed

theorem chat_token_confined_witness:
  "\<exists>tok s'. encode_chat_session_token default_settings chat_libs 81 10 (Some 13) chat_world = (Inr tok, s') \<and>
     fst (get_chat_session_scope chat_libs 81 (Some tok) None chat_world) =
       Inr \<lparr>cp_scope = \<lparr>organization_id = 10, user_id = 13, role = TENANT\<rparr>,
            cp_chat_session = mk_session 81 (Some 13) (Some 60) 1, cp_is_anonymous = False\<rparr> \<and>
     fst (get_chat_session_scope chat_libs 80 (Some tok) None chat_world) = Inl (Raised UNAUTHORIZED)"
proof -
  obtain tok s' where tok: "encode_chat_session_token default_settings chat_libs 81 10 (Some 13) chat_world = (Inr tok, s')"
    by (auto simp: encode_chat_session_token_def run_simps demo_world_def chat_world_def)
  have rows: "chat_sessions (db chat_world) = [mk_session 80 None None 0, mk_session 81 (Some 13) (Some 60) 1, mk_session 82 (Some 13) (Some 61) 0]"
    by (simp add: chat_world_def chat_db_def)
  have ttl: "0 \<le> chat_session_token_ttl_minutes default_settings" "0 \<le> now chat_world"
    "now chat_world + minutes (chat_session_token_ttl_minutes default_settings) < seconds (10 ^ 12)"
    "now chat_world < seconds ((now chat_world + minutes (chat_session_token_ttl_minutes default_settings)) div us_per_second)"
    by (simp_all add: default_settings_def chat_world_def demo_world_def time_defs)
  have "distinct (map cs_id (chat_sessions (db chat_world)))" by (simp add: rows mk_session_def)
  note confined = chat_token_confined [OF chat_libs_sound tok _ ttl(1) ttl(3) order_refl this, THEN conjunct1]
  have "find (\<lambda>r. cs_id r = 81 \<and> cs_organization_id r = 10) (chat_sessions (db chat_world)) = Some (mk_session 81 (Some 13) (Some 60) 1)"
    by (simp add: rows mk_session_def)
  then show ?thesis
    using tok confined [of 81] confined [of 80] ttl by simp
qed

end
