(* ===== verification/Spec2Isabelle.thy ===== *)
theory Spec2Isabelle
  imports Notifications TokenFamilies Users Messages Classification Catalog MailTraffic ChatApi
begin

text \<open>
  A model of the real-estate help desk backend (\<open>src/app/\<close>) and its correctness.

  \<^bold>\<open>The program.\<close> A multi-tenant FastAPI application over Postgres, with Redis for rate limits, replay tokens and the
  queue of a separate worker process. Each organization has tenants, owners, agents and administrators. Tickets reach
  the system through the web API, e-mail and a chat widget; a worker classifies them into the organization's taxonomy, an
  urgency level fixes the due instant of the SLA, a monitor records warnings and breaches and notifies people, and an agent's
  answer to a mail goes out by mail.

  A request is one transaction: the route's dependencies authenticate the caller and turn him into an \<open>OrgScope\<close>, the
  service runs on repositories that put this scope on every query, \<open>get_session\<close> commits when the handler returns and
  rolls back when it raises, and only then are background jobs queued. A worker job opens its own session and commits
  by itself. What survives a failure is thus decided around the call, and the model keeps the state on the exception
  path for this reason.

  \<^bold>\<open>How the code is rendered.\<close> A service function is a function from a \<open>world\<close> to a result or an exception and the
  world after it (\<open>Prelude\<close>, \<open>Session\<close>). A \<open>world\<close> holds the database the session sees, the committed one, the clock
  of the transaction, the random values still to be drawn, the queue, Redis and the mails handed over. Every ORM class
  is a record with its columns, every enumeration a datatype, every exception class a constructor of \<open>error\<close>, every
  table the list of its rows, and \<open>db_ok\<close> the constraints the schema declares; \<open>flush\<close> and \<open>commit\<close> check them and
  raise \<open>IntegrityError\<close>. Primary keys are \<open>128 word\<close>, instants are microseconds, days are day numbers. Python's
  names are kept; a prefix or suffix marks those that clash.

  \<^bold>\<open>Theories and sources.\<close>
  \<^item> \<open>Prelude\<close>: programs, tables, Python's string functions, the relations between initial and final states
    (\<open>ensures\<close>, \<open>always\<close>, the locale \<open>frame_relation\<close>) that carry the proofs. \<open>Domain\<close>: \<open>models/\<close>, \<open>core/exceptions.py\<close>.
    \<open>Session\<close>: \<open>core/session.py\<close>, \<open>core/scope.py\<close>. \<open>Settings\<close>: the values of \<open>core/config.py\<close> that are read, Redis.
  \<^item> \<open>Repositories\<close>: \<open>repositories/\<close>, one record per class, with the locales \<open>scoped_repository\<close> and
    \<open>direct_repository\<close> interpreted on all of them. \<open>Tenancy\<close>: \<open>foreign_view\<close>, what belongs to other organizations, and
    \<open>tenant_frame\<close>, that a run leaves it alone; the locale \<open>tenant_repository\<close> derives it for each repository.
  \<^item> \<open>Tickets\<close>: \<open>services/ticket_service.py\<close>, \<open>services/sla_event_service.py\<close>. \<open>Sla\<close>, \<open>BusinessHours\<close>:
    \<open>services/sla.py\<close> and its abstract specification, which counts the open microseconds. \<open>Notifications\<close>:
    \<open>services/notification_service.py\<close>, \<open>workers/sla.py\<close>. \<open>Messages\<close>: \<open>services/message_service.py\<close>. \<open>Classification\<close>:
    \<open>services/classifier.py\<close>, \<open>services/llm_fallback.py\<close>, \<open>workers/classification.py\<close>.
  \<^item> \<open>Security\<close>, \<open>Auth\<close>, \<open>TokenFamilies\<close>, \<open>Users\<close>: \<open>core/security.py\<close>, \<open>core/jwt.py\<close>, \<open>api/deps.py\<close>,
    \<open>services/auth_service.py\<close>, \<open>api/v1/auth.py\<close>, \<open>services/user_service.py\<close>, the two token repositories.
    \<open>TokenFamilies\<close> holds the abstract machine the authentication requests implement.
  \<^item> \<open>Catalog\<close>: taxonomy, properties, contracts, knowledge base articles, organizations and \<open>core/crypto.py\<close>.
  \<^item> \<open>Channels\<close>, \<open>Webhooks\<close>: \<open>services/channel_metadata.py\<close>, \<open>email_threading.py\<close>, \<open>channel_identity.py\<close>,
    \<open>core/webhook_signature.py\<close>, \<open>services/email_provider.py\<close>, \<open>api/deps_webhooks.py\<close>. \<open>Email\<close>:
    \<open>services/email_ingestion.py\<close>, \<open>api/v1/webhooks_email.py\<close>. \<open>EmailReply\<close>: \<open>workers/email.py\<close>. \<open>MailTraffic\<close>: any
    sequence of deliveries, jobs and requests, and what it keeps.
  \<^item> \<open>Chat\<close>, \<open>ChatApi\<close>: \<open>services/chat.py\<close>, \<open>services/chat_tools.py\<close>, \<open>services/chat_rate_limit.py\<close>,
    \<open>core/chat_token.py\<close>, \<open>api/deps_chat.py\<close>, \<open>api/v1/chat.py\<close>.
  \<^item> \<open>Fixtures\<close>: a small installation at which theorems with hypotheses are instantiated.

  \<^bold>\<open>What is shown.\<close>
  \<^item> Tenancy: a request that creates or updates a ticket leaves every row of other organizations as it was, and a ticket the
    caller may not see is answered like a missing one.
  \<^item> Tickets and SLA: which tickets can be created, read and changed, by whom and with what effect; for zones of a
    constant offset and windows in order, the due instant is the one at which the promised open time has accrued; the monitor
    records each due event once, and one ticket's failure costs no other ticket anything.
  \<^item> Authentication: the requests simulate an abstract machine of token families in which a refresh token is used at
    most once; login and invitation on every branch.
  \<^item> Channels: an accepted delivery is refused when it is presented again; a mail is ingested once and a reply is mailed at most
    once, whatever mail traffic comes in between; an anonymous visitor changes nothing but his own conversation, whatever the
    model says.
  \<^item> Classification and catalog: results stay in the offered taxonomy, the job stores them with the SLA they imply; the
    outcomes of the taxonomy, organization and contract operations on every branch.

  Where the code does not do what it means to, the theorem states what it does; the lemmas named in the findings of the
  manifest exhibit the behaviour on a concrete database.

  \<^bold>\<open>Parameters.\<close> Code that is not in the repository is an argument of the definitions: argon2, SHA-256 and the JWT codec
  (\<open>libs\<close>), HMAC and the parsers of the standard library (\<open>stdlib\<close>), Fernet (\<open>fernet\<close>), the time zone database, SMTP,
  the language model and its client, the embedder, the trained classifiers (which may raise), pgvector's distance, Postgres'
  scaling of an interval. Hypotheses on them (\<open>jwt_sound\<close> and its like) state documented behaviour and are instantiated
  in the witnesses.

  \<^bold>\<open>Bounds.\<close> Recursions are structural or have a measure; there is no fuel. The walk over the days is the source's own
  loop of \<open>MAX_WALK_DAYS\<close> = 366 days, which is shown to suffice up to 52 weeks of open time; the chatbot's tool rounds are
  bounded by its setting. The random values of a world are finite lists: a run that needs more ends with
  \<open>EntropyExhausted\<close>, which is not a behaviour of the program.

  \<^bold>\<open>Conventions and limits.\<close>
  \<^item> The order SQL leaves open (a \<open>SELECT\<close> without \<open>ORDER BY\<close>) is that of the table. Runs are sequential: a lock has no
    effect within one transaction, and concurrent transactions are interleaved as whole requests or jobs.
  \<^item> \<open>begin_nested\<close> and \<open>get_session\<close> render SQLAlchemy's savepoints and transactions: the pending work is flushed before a
    savepoint is released, and an exception restores the database of its entry.
  \<^item> The values of a webhook's form are texts: a file uploaded under the name of one of Mailgun's fields is not modelled.
    \<open>json.loads\<close> answers a value, a \<open>JSONDecodeError\<close> or another exception; a raw body and a text are both character lists.
  \<^item> Characters have eight bits. Floating point columns are reals, without \<open>NaN\<close>. The texts of error details are
    abbreviated where nothing reads them.

  \<^bold>\<open>Not modelled.\<close> The WhatsApp channel beyond its signature and payload checks, retrieval (chunking, embedding jobs, agent
  suggestions), analytics, the CRUD routes of \<open>api/v1/\<close> with their schemas, the health probes, reading the settings from the
  environment, engine and client construction, the application factory and the worker's registration, the \<open>pg_dump\<close> job and
  the seeding script (I/O and wiring); the migrations (their result is \<open>Domain\<close>); the pickled classifiers and the
  construction of the OpenAI client (third-party artefacts); logging and metrics.
\<close>

end
